(* ===== verification/Prelude.thy ===== *)
theory Prelude imports Main "HOL-Library.Word" "HOL-Library.State_Monad" begin

text \<open>
  Generic material shared by the component theories: Go's fixed-width integers, the
  state monad in which effectful Go code is written, a weakest-precondition calculus
  for it, and the collections of facts the component proofs draw on.
\<close>

section \<open>Fact collections\<close>

named_theorems wp_rules \<open>weakest-precondition equations of the monad and the operations\<close>
named_theorems go_defs \<open>definitions of the code, unfolded to evaluate it on concrete input\<close>

section \<open>Go integers\<close>

text \<open>
  The service is built for 64-bit targets: \<open>int\<close> and \<open>int64\<close> are both 64-bit two's
  complement words.  Arithmetic wraps around; comparisons read the signed value.
\<close>

type_synonym int64 = "64 word"
type_synonym go_int = "64 word"

abbreviation max_int64 :: int where
  "max_int64 \<equiv> 2 ^ 63 - 1"

lemma sint_int64_bounds:
  "- (2 ^ 63) \<le> sint (x :: int64)" "sint (x :: int64) < 2 ^ 63"
  using sint_range_size [of x] by (simp_all add: word_size)

lemma sint_int64_range [simp]:
  "- 9223372036854775808 \<le> sint (x :: int64)" "sint (x :: int64) < 9223372036854775808"
  using sint_int64_bounds [of x] by simp_all

lemma sint_of_int_id:
  assumes "- (2 ^ 63) \<le> z" "z < 2 ^ 63"
  shows "sint (word_of_int z :: int64) = z"
  using assms by (simp add: signed_of_int signed_take_bit_int_eq_self)

lemma sint_add_exact:
  assumes "- (2 ^ 63) \<le> sint (x :: int64) + sint y" "sint x + sint y < 2 ^ 63"
  shows "sint (x + y) = sint x + sint y"
proof -
  have "x + y = word_of_int (sint x + sint y)" by simp
  then show ?thesis using assms sint_of_int_id by metis
qed

lemma sint_mult_exact:
  assumes "- (2 ^ 63) \<le> sint (x :: int64) * sint y" "sint x * sint y < 2 ^ 63"
  shows "sint (x * y) = sint x * sint y"
proof -
  have "x * y = word_of_int (sint x * sint y)" by simp
  then show ?thesis using assms sint_of_int_id by metis
qed

section \<open>Effectful code\<close>

text \<open>
  Go code with effects runs in the state monad over an abstract world \<open>'w\<close>.  A call
  that returns \<open>(x, err)\<close> yields a sum: \<open>Inl err\<close> for a non-nil error, \<open>Inr x\<close>
  otherwise; a call that returns only an error yields \<open>Inr ()\<close> for nil.
\<close>

abbreviation ret :: "'a \<Rightarrow> ('w, 'a) state" where
  "ret \<equiv> State_Monad.return"

definition wp :: "('w, 'a) state \<Rightarrow> ('a \<Rightarrow> 'w \<Rightarrow> bool) \<Rightarrow> 'w \<Rightarrow> bool" where
  "wp m Q w = (case run_state m w of (x, w') \<Rightarrow> Q x w')"

lemma wp_iff: "wp m Q w \<longleftrightarrow> (\<forall>x w'. run_state m w = (x, w') \<longrightarrow> Q x w')"
  by (auto simp: wp_def split: prod.splits)

lemma wp_ret [wp_rules]: "wp (ret x) Q w = Q x w"
  by (simp add: wp_def)

lemma wp_bind [wp_rules]: "wp (State_Monad.bind m f) Q w = wp m (\<lambda>x. wp (f x) Q) w"
  by (simp add: wp_def split: prod.splits)

lemma wp_if [wp_rules]: "wp (if b then m else n) Q w = (if b then wp m Q w else wp n Q w)"
  by simp

lemma wp_runD: "wp m Q w \<Longrightarrow> run_state m w = (x, w') \<Longrightarrow> Q x w'"
  by (simp add: wp_def)

lemma wp_runI: "(\<And>x w'. run_state m w = (x, w') \<Longrightarrow> Q x w') \<Longrightarrow> wp m Q w"
  by (simp add: wp_iff)

lemma wp_mono: "wp m P w \<Longrightarrow> (\<And>x w'. P x w' \<Longrightarrow> Q x w') \<Longrightarrow> wp m Q w"
  by (auto simp: wp_iff)

text \<open>A call whose contract is known is stepped over by its contract.\<close>

lemma wp_call: "wp m P w \<Longrightarrow> (\<And>x w'. run_state m w = (x, w') \<Longrightarrow> P x w' \<Longrightarrow> Q x w') \<Longrightarrow> wp m Q w"
  by (auto simp: wp_iff)

section \<open>Endless loops\<close>

text \<open>
  A \<^verbatim>\<open>for\<close> without a condition: the body runs until it yields false.  \<^verbatim>\<open>None\<close> means that the loop
  does not return.
\<close>

partial_function (option) forever :: "('w, bool) state \<Rightarrow> 'w \<Rightarrow> 'w option" where
  "forever body w = (case run_state body w of (go, w') \<Rightarrow> if go then forever body w' else Some w')"

text \<open>\<open>rounds n body w w'\<close>: the body ran \<open>n\<close> times, and asked to go on each time.\<close>

fun rounds :: "nat \<Rightarrow> ('w, bool) state \<Rightarrow> 'w \<Rightarrow> 'w \<Rightarrow> bool" where
  "rounds 0 body w w' \<longleftrightarrow> w' = w"
| "rounds (Suc n) body w w' \<longleftrightarrow> (\<exists>w1. run_state body w = (True, w1) \<and> rounds n body w1 w')"

lemma rounds_returns:
  "rounds n body w w1 \<Longrightarrow> run_state body w1 = (False, w') \<Longrightarrow> forever body w = Some w'"
  by (induction n arbitrary: w) (auto simp: forever.simps)

lemma forever_rounds:
  assumes "forever body w = Some w'"
  shows "\<exists>n w1. rounds n body w w1 \<and> run_state body w1 = (False, w')"
proof (rule forever.raw_induct [where P = "\<lambda>body w w'. \<exists>n w1. rounds n body w w1 \<and> run_state body w1 = (False, w')", OF _ assms])
  fix f :: "('w, bool) state \<Rightarrow> 'w \<Rightarrow> 'w option" and body :: "('w, bool) state" and w w' :: 'w
  assume IH: "\<And>body w w'. f body w = Some w' \<Longrightarrow> \<exists>n w1. rounds n body w w1 \<and> run_state body w1 = (False, w')"
    and eq: "(case run_state body w of (go, w') \<Rightarrow> if go then f body w' else Some w') = Some w'"
  obtain go w2 where r: "run_state body w = (go, w2)" by (rule prod.exhaust)
  show "\<exists>n w1. rounds n body w w1 \<and> run_state body w1 = (False, w')"
  proof (cases go)
    case True
    with eq r IH [of body w2 w'] obtain n w1 where "rounds n body w2 w1" "run_state body w1 = (False, w')" by auto
    with r True show ?thesis by (intro exI [of _ "Suc n"]) auto
  next
    case False
    with eq r show ?thesis by (intro exI [of _ 0]) simp
  qed
qed

lemma forever_iff:
  "forever body w = Some w' \<longleftrightarrow> (\<exists>n w1. rounds n body w w1 \<and> run_state body w1 = (False, w'))"
  using forever_rounds rounds_returns by metis

lemma rounds_invariant:
  assumes "rounds n body w w'" "\<And>w w' go. run_state body w = (go, w') \<Longrightarrow> I w \<Longrightarrow> I w'" "I w"
  shows "I w'"
  using assms(1,3) by (induction n arbitrary: w) (auto dest: assms(2))

text \<open>A body that asks to go on only while a measure decreases: the loop returns.\<close>

lemma forever_terminates:
  fixes mu :: "'w \<Rightarrow> nat"
  assumes "I w" "\<And>w w'. I w \<Longrightarrow> run_state body w = (True, w') \<Longrightarrow> I w' \<and> mu w' < mu w"
  shows "\<exists>n w1 w'. n \<le> mu w \<and> rounds n body w w1 \<and> run_state body w1 = (False, w')"
  using assms(1)
proof (induction "mu w" arbitrary: w rule: less_induct)
  case less
  obtain go w2 where r: "run_state body w = (go, w2)" by (rule prod.exhaust)
  show ?case
  proof (cases go)
    case True
    with assms(2) [OF less.prems] r have "I w2" "mu w2 < mu w" by auto
    with less.hyps [of w2] obtain n w1 w' where
      "n \<le> mu w2" "rounds n body w2 w1" "run_state body w1 = (False, w')" by blast
    with r True \<open>mu w2 < mu w\<close> show ?thesis by (intro exI [of _ "Suc n"] exI [of _ w1] exI [of _ w']) auto
  next
    case False
    with r show ?thesis by (intro exI [of _ 0] exI [of _ w] exI [of _ w2]) simp
  qed
qed

section \<open>Partial updates\<close>

text \<open>A field of a partial update: the zero value of its type leaves the old one in place.\<close>

definition nonzero :: "'a \<Rightarrow> 'a \<Rightarrow> 'a \<Rightarrow> 'a" where
  "nonzero z new old = (if new = z then old else new)"

end
