(* ===== verification/Errors.thy ===== *)
theory Errors imports Prelude begin

text \<open>
  Go errors (\<^verbatim>\<open>internal/domain/order/errors.go\<close> and the wrapping idiom of every
  layer).  The sentinels are constructors; the errors of code outside the repository
  (GORM and the database driver, \<^verbatim>\<open>google/uuid\<close>, Kafka) and of \<^verbatim>\<open>encoding/json\<close> carry
  their text; \<^verbatim>\<open>fmt.Errorf("...: %w", err)\<close> is \<open>ErrWrap\<close> with the literal prefix.
\<close>

section \<open>The error values\<close>

datatype go_error =
    ErrOrderNotFound
  | ErrItemNotFound
  | ErrOrderNotModifiable
  | ErrNoItems
  | ErrInvalidQuantity
  | ErrInvalidPrice
  | ErrConcurrencyConflict
  | ErrInvalidCustomerID
  | GormErrRecordNotFound
  | ErrDriver string
  | ErrUUID string
  | ErrJSON string
  | ErrKafka string
  | ErrText string
  | ErrWrap string go_error

abbreviation domain_errors :: "go_error list" where
  "domain_errors \<equiv> [ErrOrderNotFound, ErrItemNotFound, ErrOrderNotModifiable, ErrNoItems,
     ErrInvalidQuantity, ErrInvalidPrice, ErrConcurrencyConflict, ErrInvalidCustomerID]"

text \<open>\<^verbatim>\<open>errors.Is\<close> compares along the chain of wrapped errors.\<close>

fun errors_is :: "go_error \<Rightarrow> go_error \<Rightarrow> bool" where
  "errors_is (ErrWrap p e) target = (ErrWrap p e = target \<or> errors_is e target)"
| "errors_is e target = (e = target)"

text \<open>The text of \<^verbatim>\<open>err.Error()\<close>.\<close>

fun error_text :: "go_error \<Rightarrow> string" where
  "error_text ErrOrderNotFound = ''order not found''"
| "error_text ErrItemNotFound = ''order item not found''"
| "error_text ErrOrderNotModifiable = ''order is not in a modifiable state''"
| "error_text ErrNoItems = ''order must have at least one item to confirm''"
| "error_text ErrInvalidQuantity = ''quantity must be greater than zero''"
| "error_text ErrInvalidPrice = ''unit price must be greater than zero''"
| "error_text ErrConcurrencyConflict = ''order has been modified by another process''"
| "error_text ErrInvalidCustomerID = ''customer id is required''"
| "error_text GormErrRecordNotFound = ''record not found''"
| "error_text (ErrDriver s) = s"
| "error_text (ErrUUID s) = s"
| "error_text (ErrJSON s) = s"
| "error_text (ErrKafka s) = s"
| "error_text (ErrText s) = s"
| "error_text (ErrWrap p e) = p @ error_text e"

text \<open>
  The verb \<^verbatim>\<open>%q\<close> of \<^verbatim>\<open>fmt\<close>: a double-quoted literal.  The escapes below are those of
  \<^verbatim>\<open>strconv.Quote\<close> for ASCII; bytes above 126 are kept, as they are for printable runes.
\<close>

definition hex_digit :: "nat \<Rightarrow> char" where
  "hex_digit n = ''0123456789abcdef'' ! (n mod 16)"

definition quote_char :: "char \<Rightarrow> string" where
  "quote_char c =
     (if c = CHR 0x22 then [CHR 0x5C, CHR 0x22]
      else if c = CHR 0x5C then [CHR 0x5C, CHR 0x5C]
      else if c = CHR 0x07 then [CHR 0x5C, CHR ''a'']
      else if c = CHR 0x08 then [CHR 0x5C, CHR ''b'']
      else if c = CHR 0x0C then [CHR 0x5C, CHR ''f'']
      else if c = CHR 0x0A then [CHR 0x5C, CHR ''n'']
      else if c = CHR 0x0D then [CHR 0x5C, CHR ''r'']
      else if c = CHR 0x09 then [CHR 0x5C, CHR ''t'']
      else if c = CHR 0x0B then [CHR 0x5C, CHR ''v'']
      else let n = (of_char c :: nat) in
        if n < 32 \<or> n = 127 then [CHR 0x5C, CHR ''x'', hex_digit (n div 16), hex_digit n]
        else [c])"

definition go_quote :: "string \<Rightarrow> string" where
  "go_quote s = [CHR 0x22] @ concat (map quote_char s) @ [CHR 0x22]"

section \<open>Errors of code outside the repository\<close>

text \<open>
  A failed database call returns an error of the driver; GORM adds
  \<^verbatim>\<open>gorm.ErrRecordNotFound\<close> where \<^verbatim>\<open>First\<close> finds no row.  Neither is a domain sentinel.
\<close>

fun is_driver_error :: "go_error \<Rightarrow> bool" where
  "is_driver_error (ErrDriver s) = True"
| "is_driver_error _ = False"

lemma is_driver_error_iff: "is_driver_error e \<longleftrightarrow> (\<exists>s. e = ErrDriver s)"
  by (cases e) auto

lemma driver_error_not_domain:
  "is_driver_error e \<Longrightarrow> t \<in> set domain_errors \<Longrightarrow> \<not> errors_is e t"
  by (auto simp: is_driver_error_iff)

lemma errors_is_refl [simp]: "errors_is e e"
  by (cases e) auto

lemma errors_is_wrap_domain [simp]:
  "t \<in> set domain_errors \<Longrightarrow> errors_is (ErrWrap p e) t = errors_is e t"
  by auto

end
