(* ===== verification/Domain_Values.thy ===== *)
theory Domain_Values imports Errors begin

text \<open>
  The value objects of the order domain (\<^verbatim>\<open>internal/domain/order/value_objects.go\<close>) and
  the child entity \<^verbatim>\<open>OrderItem\<close> (\<^verbatim>\<open>order_item.go\<close>), with the runtime they draw on: the
  clock, and the package \<^verbatim>\<open>google/uuid\<close>, which is a parameter.
\<close>

section \<open>The runtime\<close>

text \<open>
  \<^verbatim>\<open>uuid.UUID\<close> is a 16-byte array; \<^verbatim>\<open>uuid.Nil\<close> is the zero array.  Instants are
  counted in microseconds of UTC, the resolution of the database's \<^verbatim>\<open>TIMESTAMPTZ\<close>.
  \<^verbatim>\<open>uuid.NewV7\<close> fails only when the random source does, which for the toolchain the
  module names never returns an error, so \<^verbatim>\<open>uuid.Must\<close> does not panic.
  \<open>time_MarshalText\<close> and \<open>time_UnmarshalText\<close> are the RFC 3339 rendering of instants,
  which refuses years outside 0 to 9999, and its parser.  \<open>uuid_Rest\<close> is the array that
  \<^verbatim>\<open>uuid.Parse\<close> returns beside an error, which some callers ignore.
\<close>

type_synonym uuid = "128 word"
type_synonym time = int

abbreviation uuid_Nil :: uuid where
  "uuid_Nil \<equiv> 0"

text \<open>The zero \<^verbatim>\<open>time.Time\<close>, 1 January of year 1.\<close>

abbreviation time_zero :: time where
  "time_zero \<equiv> - 62135596800000000"

record 'w runtime =
  time_Now :: "('w, time) state"
  uuid_NewV7 :: "('w, uuid) state"
  uuid_New :: "('w, uuid) state"
  uuid_Parse :: "string \<Rightarrow> go_error + uuid"
  uuid_Rest :: "string \<Rightarrow> uuid"
  uuid_String :: "uuid \<Rightarrow> string"
  time_MarshalText :: "time \<Rightarrow> go_error + string"
  time_UnmarshalText :: "string \<Rightarrow> time option"

text \<open>
  What the code relies on: printing an identifier or an instant and parsing the result
  gives it back, and a parse error is an error of the uuid package.
\<close>

locale runtime_codec =
  fixes R :: "('w, 'z) runtime_scheme"
  assumes parse_string: "uuid_Parse R (uuid_String R u) = Inr u"
    and parse_error: "uuid_Parse R s = Inl e \<Longrightarrow> \<exists>t. e = ErrUUID t"
    and time_roundtrip: "time_MarshalText R t = Inr s \<Longrightarrow> time_UnmarshalText R s = Some t"
    and time_marshal_error: "time_MarshalText R t = Inl e \<Longrightarrow> \<exists>s. e = ErrJSON s"
begin

lemma uuid_String_inj: "uuid_String R u = uuid_String R v \<Longrightarrow> u = v"
  by (metis parse_string sum.inject(2))

end

text \<open>\<^verbatim>\<open>id, _ := uuid.Parse(s)\<close>\<close>

definition parse_ignoring :: "('w, 'z) runtime_scheme \<Rightarrow> string \<Rightarrow> uuid" where
  "parse_ignoring R s = (case uuid_Parse R s of Inl _ \<Rightarrow> uuid_Rest R s | Inr u \<Rightarrow> u)"

context runtime_codec begin

lemma parse_ignoring_string [simp]: "parse_ignoring R (uuid_String R u) = u"
  by (simp add: parse_ignoring_def parse_string)

end

section \<open>OrderID and CustomerID\<close>

datatype OrderID = OrderID (order_uuid: uuid)

definition NewOrderID :: "('w, 'z) runtime_scheme \<Rightarrow> ('w, OrderID) state" where
  "NewOrderID R = do { u \<leftarrow> uuid_NewV7 R; ret (OrderID u) }"

definition OrderIDFrom :: "uuid \<Rightarrow> OrderID" where
  "OrderIDFrom u = OrderID u"

definition ParseOrderID :: "('w, 'z) runtime_scheme \<Rightarrow> string \<Rightarrow> go_error + OrderID" where
  "ParseOrderID R s =
     (case uuid_Parse R s of
        Inl err \<Rightarrow> Inl (ErrWrap (''invalid order id '' @ go_quote s @ '': '') err)
      | Inr u \<Rightarrow> Inr (OrderID u))"

definition OrderID_String :: "('w, 'z) runtime_scheme \<Rightarrow> OrderID \<Rightarrow> string" where
  "OrderID_String R oid = uuid_String R (order_uuid oid)"

definition OrderID_IsZero :: "OrderID \<Rightarrow> bool" where
  "OrderID_IsZero oid \<longleftrightarrow> order_uuid oid = uuid_Nil"

datatype CustomerID = CustomerID (customer_uuid: uuid)

definition NewCustomerID :: "uuid \<Rightarrow> CustomerID" where
  "NewCustomerID u = CustomerID u"

definition ParseCustomerID :: "('w, 'z) runtime_scheme \<Rightarrow> string \<Rightarrow> go_error + CustomerID" where
  "ParseCustomerID R s =
     (case uuid_Parse R s of
        Inl err \<Rightarrow> Inl (ErrWrap (''invalid customer id '' @ go_quote s @ '': '') err)
      | Inr u \<Rightarrow> Inr (CustomerID u))"

definition CustomerID_String :: "('w, 'z) runtime_scheme \<Rightarrow> CustomerID \<Rightarrow> string" where
  "CustomerID_String R cid = uuid_String R (customer_uuid cid)"

definition CustomerID_IsZero :: "CustomerID \<Rightarrow> bool" where
  "CustomerID_IsZero cid \<longleftrightarrow> customer_uuid cid = uuid_Nil"

section \<open>Money\<close>

datatype Money = Money (Amount: int64)

definition NewMoney :: "int64 \<Rightarrow> Money" where
  "NewMoney cents = Money cents"

definition Money_Add :: "Money \<Rightarrow> Money \<Rightarrow> Money" where
  "Money_Add m other = Money (Amount m + Amount other)"

definition Money_Multiply :: "Money \<Rightarrow> go_int \<Rightarrow> Money" where
  "Money_Multiply m qty = Money (Amount m * qty)"

definition IsPositive :: "Money \<Rightarrow> bool" where
  "IsPositive m \<longleftrightarrow> sint (Amount m) > 0"

lemma Amount_NewMoney [simp]: "Amount (NewMoney x) = x"
  by (simp add: NewMoney_def)

lemma Amount_Money_Add [simp]: "Amount (Money_Add m n) = Amount m + Amount n"
  by (simp add: Money_Add_def)

lemma Amount_Money_Multiply [simp]: "Amount (Money_Multiply m q) = Amount m * q"
  by (simp add: Money_Multiply_def)

section \<open>OrderStatus\<close>

type_synonym OrderStatus = string

definition StatusDraft :: OrderStatus where
  "StatusDraft = ''DRAFT''"

definition StatusConfirmed :: OrderStatus where
  "StatusConfirmed = ''CONFIRMED''"

definition StatusCancelled :: OrderStatus where
  "StatusCancelled = ''CANCELLED''"

definition IsModifiable :: "OrderStatus \<Rightarrow> bool" where
  "IsModifiable s \<longleftrightarrow> s = StatusDraft"

lemma status_distinct [simp]:
  "StatusDraft \<noteq> StatusConfirmed" "StatusConfirmed \<noteq> StatusDraft"
  "StatusDraft \<noteq> StatusCancelled" "StatusConfirmed \<noteq> StatusCancelled"
  by (simp_all add: StatusDraft_def StatusConfirmed_def StatusCancelled_def)

lemma status_nonempty [simp]: "StatusDraft \<noteq> []" "StatusConfirmed \<noteq> []"
  by (simp_all add: StatusDraft_def StatusConfirmed_def)

section \<open>OrderItem\<close>

record OrderItem =
  item_id :: uuid
  item_productID :: string
  item_productName :: string
  item_quantity :: go_int
  item_unitPrice :: Money

definition NewOrderItem ::
  "('w, 'z) runtime_scheme \<Rightarrow> string \<Rightarrow> string \<Rightarrow> go_int \<Rightarrow> Money \<Rightarrow> ('w, OrderItem) state" where
  "NewOrderItem R productID productName quantity unitPrice = do {
     u \<leftarrow> uuid_NewV7 R;
     ret \<lparr>item_id = u, item_productID = productID, item_productName = productName,
          item_quantity = quantity, item_unitPrice = unitPrice\<rparr>
   }"

definition ReconstructOrderItem ::
  "uuid \<Rightarrow> string \<Rightarrow> string \<Rightarrow> go_int \<Rightarrow> int64 \<Rightarrow> OrderItem" where
  "ReconstructOrderItem u productID productName quantity unitPrice =
     \<lparr>item_id = u, item_productID = productID, item_productName = productName,
      item_quantity = quantity, item_unitPrice = NewMoney unitPrice\<rparr>"

definition TotalPrice :: "OrderItem \<Rightarrow> Money" where
  "TotalPrice i = Money_Multiply (item_unitPrice i) (item_quantity i)"

text \<open>
  An item the aggregate accepts: both factors positive.  The exact price of a list of
  items, over the mathematical integers, is the reference the wrapping sum is compared to.
\<close>

definition item_ok :: "OrderItem \<Rightarrow> bool" where
  "item_ok i \<longleftrightarrow> sint (item_quantity i) > 0 \<and> IsPositive (item_unitPrice i)"

definition exact_price :: "OrderItem \<Rightarrow> int" where
  "exact_price i = sint (Amount (item_unitPrice i)) * sint (item_quantity i)"

definition exact_total :: "OrderItem list \<Rightarrow> int" where
  "exact_total is = (\<Sum>i\<leftarrow>is. exact_price i)"

lemma exact_price_pos: "item_ok i \<Longrightarrow> exact_price i > 0"
  by (simp add: item_ok_def exact_price_def IsPositive_def)

lemma exact_total_nonneg: "list_all item_ok is \<Longrightarrow> exact_total is \<ge> 0"
  by (induction "is") (auto simp: exact_total_def dest: exact_price_pos)

lemma exact_total_pos: "list_all item_ok is \<Longrightarrow> is \<noteq> [] \<Longrightarrow> exact_total is > 0"
  using exact_total_nonneg
  by (cases "is") (fastforce simp: exact_total_def dest: exact_price_pos)+

lemma Amount_TotalPrice_int: "Amount (TotalPrice i) = word_of_int (exact_price i)"
  by (simp add: TotalPrice_def exact_price_def)

lemmas values_eval [go_defs] = parse_ignoring_def NewOrderID_def OrderIDFrom_def ParseOrderID_def OrderID_String_def
  OrderID_IsZero_def NewCustomerID_def ParseCustomerID_def CustomerID_String_def CustomerID_IsZero_def
  NewMoney_def Money_Add_def Money_Multiply_def IsPositive_def StatusDraft_def StatusConfirmed_def
  StatusCancelled_def IsModifiable_def NewOrderItem_def ReconstructOrderItem_def TotalPrice_def

end
