(* ===== verification/Domain_Events.thy ===== *)
theory Domain_Events imports Domain_Values begin

text \<open>
  Domain events (\<^verbatim>\<open>internal/domain/event.go\<close>, \<^verbatim>\<open>internal/domain/order/events.go\<close>): one
  record per Go struct, the interface \<^verbatim>\<open>DomainEvent\<close> as a datatype over the three structs
  with its four methods, and the constructors, which read the clock.
\<close>

section \<open>The event structs\<close>

record EventMetadata =
  em_CorrelationID :: string
  em_CausationID :: string
  em_UserID :: string

definition AggregateTypeName :: string where
  "AggregateTypeName = ''Order''"

record OrderCreated =
  oc_ID :: string
  oc_CustomerID :: string
  oc_Status :: string
  oc_OccurredAt :: time

record OrderItemAdded =
  oia_OrderID :: string
  oia_ItemID :: string
  oia_ProductID :: string
  oia_ProductName :: string
  oia_Quantity :: go_int
  oia_UnitPrice :: int64
  oia_OccurredAt :: time

record OrderConfirmed =
  ocf_OrderID :: string
  ocf_TotalAmount :: int64
  ocf_OccurredAt :: time

section \<open>Constructors\<close>

definition NewOrderCreated ::
  "('w, 'z) runtime_scheme \<Rightarrow> OrderID \<Rightarrow> CustomerID \<Rightarrow> ('w, OrderCreated) state" where
  "NewOrderCreated R orderID customerID = do {
     now \<leftarrow> time_Now R;
     ret \<lparr>oc_ID = OrderID_String R orderID, oc_CustomerID = CustomerID_String R customerID,
          oc_Status = StatusDraft, oc_OccurredAt = now\<rparr>
   }"

definition NewOrderItemAdded ::
  "('w, 'z) runtime_scheme \<Rightarrow> OrderID \<Rightarrow> OrderItem \<Rightarrow> ('w, OrderItemAdded) state" where
  "NewOrderItemAdded R orderID item = do {
     now \<leftarrow> time_Now R;
     ret \<lparr>oia_OrderID = OrderID_String R orderID, oia_ItemID = uuid_String R (item_id item),
          oia_ProductID = item_productID item, oia_ProductName = item_productName item,
          oia_Quantity = item_quantity item, oia_UnitPrice = Amount (item_unitPrice item),
          oia_OccurredAt = now\<rparr>
   }"

definition NewOrderConfirmed ::
  "('w, 'z) runtime_scheme \<Rightarrow> OrderID \<Rightarrow> Money \<Rightarrow> ('w, OrderConfirmed) state" where
  "NewOrderConfirmed R orderID totalAmount = do {
     now \<leftarrow> time_Now R;
     ret \<lparr>ocf_OrderID = OrderID_String R orderID, ocf_TotalAmount = Amount totalAmount,
          ocf_OccurredAt = now\<rparr>
   }"

section \<open>The interface DomainEvent\<close>

datatype DomainEvent =
    EvOrderCreated OrderCreated
  | EvOrderItemAdded OrderItemAdded
  | EvOrderConfirmed OrderConfirmed

fun EventType :: "DomainEvent \<Rightarrow> string" where
  "EventType (EvOrderCreated e) = ''OrderCreated''"
| "EventType (EvOrderItemAdded e) = ''OrderItemAdded''"
| "EventType (EvOrderConfirmed e) = ''OrderConfirmed''"

fun AggregateID :: "DomainEvent \<Rightarrow> string" where
  "AggregateID (EvOrderCreated e) = oc_ID e"
| "AggregateID (EvOrderItemAdded e) = oia_OrderID e"
| "AggregateID (EvOrderConfirmed e) = ocf_OrderID e"

fun AggregateType :: "DomainEvent \<Rightarrow> string" where
  "AggregateType (EvOrderCreated e) = AggregateTypeName"
| "AggregateType (EvOrderItemAdded e) = AggregateTypeName"
| "AggregateType (EvOrderConfirmed e) = AggregateTypeName"

fun OccurredAt :: "DomainEvent \<Rightarrow> time" where
  "OccurredAt (EvOrderCreated e) = oc_OccurredAt e"
| "OccurredAt (EvOrderItemAdded e) = oia_OccurredAt e"
| "OccurredAt (EvOrderConfirmed e) = ocf_OccurredAt e"

lemmas events_eval [go_defs] = AggregateTypeName_def NewOrderCreated_def NewOrderItemAdded_def
  NewOrderConfirmed_def

end
