(* ===== verification/Json_Codec.thy ===== *)
theory Json_Codec imports Domain_Events begin

text \<open>
  \<^verbatim>\<open>encoding/json\<close> as the service uses it: the event structs are marshalled to a JSON
  document and read back by field tag.  A document is a value, not its text; an object is
  a finite map, which is what a \<^verbatim>\<open>jsonb\<close> column keeps (no key order, no duplicates).
  Keys are matched exactly; the case-insensitive fallback of \<^verbatim>\<open>Unmarshal\<close> concerns keys
  the service never writes.
\<close>

section \<open>Documents\<close>

datatype json =
    JNull
  | JBool bool
  | JNum int
  | JFloat string
  | JStr string
  | JArr "json list"
  | JObj "string \<Rightarrow> json option"

text \<open>
  Decoding one field: absent or \<^verbatim>\<open>null\<close> leaves the zero value, another type is an error,
  and a number that does not fit in an \<^verbatim>\<open>int64\<close> is an error.
\<close>

fun decode_string :: "json option \<Rightarrow> go_error + string" where
  "decode_string None = Inr ''''"
| "decode_string (Some JNull) = Inr ''''"
| "decode_string (Some (JStr s)) = Inr s"
| "decode_string (Some _) = Inl (ErrJSON ''cannot unmarshal value into Go struct field of type string'')"

fun decode_int :: "json option \<Rightarrow> go_error + int64" where
  "decode_int None = Inr 0"
| "decode_int (Some JNull) = Inr 0"
| "decode_int (Some (JNum n)) =
     (if - (2 ^ 63) \<le> n \<and> n < 2 ^ 63 then Inr (word_of_int n)
      else Inl (ErrJSON ''cannot unmarshal number into Go struct field of type int64''))"
| "decode_int (Some _) = Inl (ErrJSON ''cannot unmarshal value into Go struct field of type int64'')"

fun decode_time :: "('w, 'z) runtime_scheme \<Rightarrow> json option \<Rightarrow> go_error + time" where
  "decode_time R None = Inr time_zero"
| "decode_time R (Some JNull) = Inr time_zero"
| "decode_time R (Some (JStr s)) =
     (case time_UnmarshalText R s of
        None \<Rightarrow> Inl (ErrJSON ''parsing time'') | Some t \<Rightarrow> Inr t)"
| "decode_time R (Some _) = Inl (ErrJSON ''Time.UnmarshalJSON: input is not a JSON string'')"

text \<open>The top level of a struct: \<^verbatim>\<open>null\<close> is accepted and decodes no field.\<close>

fun decode_object :: "json \<Rightarrow> go_error + (string \<Rightarrow> json option)" where
  "decode_object (JObj m) = Inr m"
| "decode_object JNull = Inr Map.empty"
| "decode_object _ = Inl (ErrJSON ''cannot unmarshal value into Go value of struct type'')"

lemma decode_int_JNum [simp]: "decode_int (Some (JNum (sint (x :: int64)))) = Inr x"
  by simp

section \<open>The event structs\<close>

definition marshal_OrderCreated ::
  "('w, 'z) runtime_scheme \<Rightarrow> OrderCreated \<Rightarrow> go_error + json" where
  "marshal_OrderCreated R e =
     (case time_MarshalText R (oc_OccurredAt e) of
        Inl err \<Rightarrow> Inl err
      | Inr t \<Rightarrow> Inr (JObj [''id'' \<mapsto> JStr (oc_ID e), ''customer_id'' \<mapsto> JStr (oc_CustomerID e),
          ''status'' \<mapsto> JStr (oc_Status e), ''occurred_at'' \<mapsto> JStr t]))"

definition marshal_OrderItemAdded ::
  "('w, 'z) runtime_scheme \<Rightarrow> OrderItemAdded \<Rightarrow> go_error + json" where
  "marshal_OrderItemAdded R e =
     (case time_MarshalText R (oia_OccurredAt e) of
        Inl err \<Rightarrow> Inl err
      | Inr t \<Rightarrow> Inr (JObj [''order_id'' \<mapsto> JStr (oia_OrderID e), ''item_id'' \<mapsto> JStr (oia_ItemID e),
          ''product_id'' \<mapsto> JStr (oia_ProductID e), ''product_name'' \<mapsto> JStr (oia_ProductName e),
          ''quantity'' \<mapsto> JNum (sint (oia_Quantity e)),
          ''unit_price'' \<mapsto> JNum (sint (oia_UnitPrice e)), ''occurred_at'' \<mapsto> JStr t]))"

definition marshal_OrderConfirmed ::
  "('w, 'z) runtime_scheme \<Rightarrow> OrderConfirmed \<Rightarrow> go_error + json" where
  "marshal_OrderConfirmed R e =
     (case time_MarshalText R (ocf_OccurredAt e) of
        Inl err \<Rightarrow> Inl err
      | Inr t \<Rightarrow> Inr (JObj [''order_id'' \<mapsto> JStr (ocf_OrderID e),
          ''total_amount'' \<mapsto> JNum (sint (ocf_TotalAmount e)), ''occurred_at'' \<mapsto> JStr t]))"

fun marshal_event :: "('w, 'z) runtime_scheme \<Rightarrow> DomainEvent \<Rightarrow> go_error + json" where
  "marshal_event R (EvOrderCreated e) = marshal_OrderCreated R e"
| "marshal_event R (EvOrderItemAdded e) = marshal_OrderItemAdded R e"
| "marshal_event R (EvOrderConfirmed e) = marshal_OrderConfirmed R e"

text \<open>\<^verbatim>\<open>json.Marshal(domain.EventMetadata{})\<close>: empty strings are omitted.\<close>

definition marshal_EventMetadata :: "EventMetadata \<Rightarrow> json" where
  "marshal_EventMetadata m = JObj (\<lambda>k.
     if k = ''correlation_id'' \<and> em_CorrelationID m \<noteq> '''' then Some (JStr (em_CorrelationID m))
     else if k = ''causation_id'' \<and> em_CausationID m \<noteq> '''' then Some (JStr (em_CausationID m))
     else if k = ''user_id'' \<and> em_UserID m \<noteq> '''' then Some (JStr (em_UserID m))
     else None)"

definition unmarshal_OrderCreated ::
  "('w, 'z) runtime_scheme \<Rightarrow> json \<Rightarrow> go_error + OrderCreated" where
  "unmarshal_OrderCreated R j =
     (case decode_object j of Inl e \<Rightarrow> Inl e | Inr m \<Rightarrow>
      case decode_string (m ''id'') of Inl e \<Rightarrow> Inl e | Inr i \<Rightarrow>
      case decode_string (m ''customer_id'') of Inl e \<Rightarrow> Inl e | Inr c \<Rightarrow>
      case decode_string (m ''status'') of Inl e \<Rightarrow> Inl e | Inr s \<Rightarrow>
      case decode_time R (m ''occurred_at'') of Inl e \<Rightarrow> Inl e | Inr t \<Rightarrow>
        Inr \<lparr>oc_ID = i, oc_CustomerID = c, oc_Status = s, oc_OccurredAt = t\<rparr>)"

definition unmarshal_OrderItemAdded ::
  "('w, 'z) runtime_scheme \<Rightarrow> json \<Rightarrow> go_error + OrderItemAdded" where
  "unmarshal_OrderItemAdded R j =
     (case decode_object j of Inl e \<Rightarrow> Inl e | Inr m \<Rightarrow>
      case decode_string (m ''order_id'') of Inl e \<Rightarrow> Inl e | Inr oid \<Rightarrow>
      case decode_string (m ''item_id'') of Inl e \<Rightarrow> Inl e | Inr iid \<Rightarrow>
      case decode_string (m ''product_id'') of Inl e \<Rightarrow> Inl e | Inr pid \<Rightarrow>
      case decode_string (m ''product_name'') of Inl e \<Rightarrow> Inl e | Inr pname \<Rightarrow>
      case decode_int (m ''quantity'') of Inl e \<Rightarrow> Inl e | Inr q \<Rightarrow>
      case decode_int (m ''unit_price'') of Inl e \<Rightarrow> Inl e | Inr u \<Rightarrow>
      case decode_time R (m ''occurred_at'') of Inl e \<Rightarrow> Inl e | Inr t \<Rightarrow>
        Inr \<lparr>oia_OrderID = oid, oia_ItemID = iid, oia_ProductID = pid, oia_ProductName = pname,
          oia_Quantity = q, oia_UnitPrice = u, oia_OccurredAt = t\<rparr>)"

definition unmarshal_OrderConfirmed ::
  "('w, 'z) runtime_scheme \<Rightarrow> json \<Rightarrow> go_error + OrderConfirmed" where
  "unmarshal_OrderConfirmed R j =
     (case decode_object j of Inl e \<Rightarrow> Inl e | Inr m \<Rightarrow>
      case decode_string (m ''order_id'') of Inl e \<Rightarrow> Inl e | Inr oid \<Rightarrow>
      case decode_int (m ''total_amount'') of Inl e \<Rightarrow> Inl e | Inr a \<Rightarrow>
      case decode_time R (m ''occurred_at'') of Inl e \<Rightarrow> Inl e | Inr t \<Rightarrow>
        Inr \<lparr>ocf_OrderID = oid, ocf_TotalAmount = a, ocf_OccurredAt = t\<rparr>)"

text \<open>Decoding by the event type, as the projection dispatches on it.\<close>

definition unmarshal_event ::
  "('w, 'z) runtime_scheme \<Rightarrow> string \<Rightarrow> json \<Rightarrow> go_error + DomainEvent" where
  "unmarshal_event R ty j =
     (if ty = ''OrderCreated'' then
        (case unmarshal_OrderCreated R j of Inl e \<Rightarrow> Inl e | Inr x \<Rightarrow> Inr (EvOrderCreated x))
      else if ty = ''OrderItemAdded'' then
        (case unmarshal_OrderItemAdded R j of Inl e \<Rightarrow> Inl e | Inr x \<Rightarrow> Inr (EvOrderItemAdded x))
      else if ty = ''OrderConfirmed'' then
        (case unmarshal_OrderConfirmed R j of Inl e \<Rightarrow> Inl e | Inr x \<Rightarrow> Inr (EvOrderConfirmed x))
      else Inl (ErrJSON ''unknown event type''))"

section \<open>Round trip\<close>

context runtime_codec begin

lemma decode_time_marshal:
  "time_MarshalText R t = Inr s \<Longrightarrow> decode_time R (Some (JStr s)) = Inr t"
  by (simp add: time_roundtrip)

lemma OrderCreated_roundtrip:
  "marshal_OrderCreated R e = Inr j \<Longrightarrow> unmarshal_OrderCreated R j = Inr e"
  by (auto simp: marshal_OrderCreated_def unmarshal_OrderCreated_def time_roundtrip
      split: sum.splits)

lemma OrderItemAdded_roundtrip:
  "marshal_OrderItemAdded R e = Inr j \<Longrightarrow> unmarshal_OrderItemAdded R j = Inr e"
  by (auto simp: marshal_OrderItemAdded_def unmarshal_OrderItemAdded_def time_roundtrip
      simp del: decode_int.simps split: sum.splits)

lemma OrderConfirmed_roundtrip:
  "marshal_OrderConfirmed R e = Inr j \<Longrightarrow> unmarshal_OrderConfirmed R j = Inr e"
  by (auto simp: marshal_OrderConfirmed_def unmarshal_OrderConfirmed_def time_roundtrip
      simp del: decode_int.simps split: sum.splits)

lemma event_roundtrip_laws:
  "marshal_event R ev = Inr j \<Longrightarrow> unmarshal_event R (EventType ev) j = Inr ev"
  by (cases ev) (simp_all add: unmarshal_event_def OrderCreated_roundtrip
      OrderItemAdded_roundtrip OrderConfirmed_roundtrip)

lemma marshal_event_error: "marshal_event R ev = Inl e \<Longrightarrow> \<exists>s. e = ErrJSON s"
  by (cases ev) (auto simp: marshal_OrderCreated_def marshal_OrderItemAdded_def
      marshal_OrderConfirmed_def split: sum.splits dest: time_marshal_error)

end

lemmas json_eval [go_defs] = marshal_OrderCreated_def marshal_OrderItemAdded_def
  marshal_OrderConfirmed_def unmarshal_OrderCreated_def unmarshal_OrderItemAdded_def
  unmarshal_OrderConfirmed_def unmarshal_event_def

end
