(* ===== verification/Persistence_Models.thy ===== *)
theory Persistence_Models imports Json_Codec begin

text \<open>
  The rows GORM maps to tables (\<^verbatim>\<open>internal/infrastructure/persistence/gorm_models.go\<close> and
  \<^verbatim>\<open>read_models.go\<close>) and the contents of the database, one finite map per table from the
  primary key to the row.
\<close>

section \<open>Write side\<close>

record OrderModel =
  om_ID :: uuid
  om_CustomerID :: uuid
  om_Status :: string
  om_TotalAmount :: int64
  om_Version :: go_int
  om_CreatedAt :: time
  om_UpdatedAt :: time

record OrderItemModel =
  oim_ID :: uuid
  oim_OrderID :: uuid
  oim_ProductID :: string
  oim_ProductName :: string
  oim_Quantity :: go_int
  oim_UnitPrice :: int64
  oim_CreatedAt :: time

record OutboxEventModel =
  oem_ID :: uuid
  oem_AggregateType :: string
  oem_AggregateID :: string
  oem_EventType :: string
  oem_Payload :: json
  oem_Metadata :: json
  oem_OccurredAt :: time
  oem_AvailableAt :: time
  oem_PublishedAt :: "time option"
  oem_Status :: string
  oem_RetryCount :: go_int
  oem_LastError :: "string option"

record IdempotencyKeyModel =
  ik_Key :: string
  ik_ResponseStatus :: go_int
  ik_ResponseBody :: "json option"
  ik_CreatedAt :: time
  ik_ExpiresAt :: time

record ProcessedEventModel =
  pe_EventID :: uuid
  pe_HandlerName :: string
  pe_ProcessedAt :: time

section \<open>Read side\<close>

record OrderViewModel =
  ovm_ID :: uuid
  ovm_CustomerID :: uuid
  ovm_Status :: string
  ovm_TotalAmount :: int64
  ovm_ItemCount :: go_int
  ovm_CreatedAt :: time
  ovm_UpdatedAt :: time

record OrderItemViewModel =
  ivm_ID :: uuid
  ivm_OrderID :: uuid
  ivm_ProductID :: string
  ivm_ProductName :: string
  ivm_Quantity :: go_int
  ivm_UnitPrice :: int64
  ivm_TotalPrice :: int64
  ivm_CreatedAt :: time

section \<open>The database\<close>

definition pe_key :: "ProcessedEventModel \<Rightarrow> uuid \<times> string" where
  "pe_key r = (pe_EventID r, pe_HandlerName r)"

record tables =
  t_orders :: "uuid \<Rightarrow> OrderModel option"
  t_items :: "uuid \<Rightarrow> OrderItemModel option"
  t_outbox :: "uuid \<Rightarrow> OutboxEventModel option"
  t_processed :: "uuid \<times> string \<Rightarrow> ProcessedEventModel option"
  t_idempotency :: "string \<Rightarrow> IdempotencyKeyModel option"
  t_order_views :: "uuid \<Rightarrow> OrderViewModel option"
  t_item_views :: "uuid \<Rightarrow> OrderItemViewModel option"

end
