(* ===== verification/Platform.thy ===== *)
theory Platform imports Persistence_Models begin

text \<open>
  GORM and PostgreSQL, as parameters.  \<open>gorm_table\<close> collects the GORM verbs the stores
  call on one model; the rows a verb selects are a predicate of the row, and the values
  a verb assigns are a function of the row, both written by the calling code.  A
  predicate or assignment that uses SQL's \<^verbatim>\<open>NOW()\<close> takes that instant as an argument.
  The laws below are the documented behaviour of these verbs.
\<close>

section \<open>The verbs\<close>

record ('r, 'w) gorm_table =
  g_First :: "('r \<Rightarrow> bool) \<Rightarrow> ('w, go_error + 'r) state"
  g_Find :: "('r \<Rightarrow> bool) \<Rightarrow> ('w, go_error + 'r list) state"
  g_Count :: "('r \<Rightarrow> bool) \<Rightarrow> ('w, go_error + int64) state"
  g_Select :: "('r \<Rightarrow> bool) \<Rightarrow> ('r \<Rightarrow> 'r \<Rightarrow> bool) \<Rightarrow> go_int \<Rightarrow> go_int \<Rightarrow> ('w, go_error + 'r list) state"
  g_SelectSkipLocked ::
    "(time \<Rightarrow> 'r \<Rightarrow> bool) \<Rightarrow> ('r \<Rightarrow> 'r \<Rightarrow> bool) \<Rightarrow> go_int \<Rightarrow> ('w, go_error + 'r list) state"
  g_Create :: "'r list \<Rightarrow> ('w, go_error + unit) state"
  g_Save :: "('r \<Rightarrow> bool) \<Rightarrow> 'r \<Rightarrow> ('w, go_error + int64) state"
  g_Updates :: "('r \<Rightarrow> bool) \<Rightarrow> (time \<Rightarrow> 'r \<Rightarrow> 'r) \<Rightarrow> ('w, go_error + int64) state"
  g_Delete :: "('r \<Rightarrow> bool) \<Rightarrow> ('w, go_error + unit) state"
  g_FirstOrCreate :: "('r \<Rightarrow> bool) \<Rightarrow> 'r \<Rightarrow> ('w, go_error + unit) state"
  g_AssignFirstOrCreate :: "('r \<Rightarrow> bool) \<Rightarrow> 'r \<Rightarrow> ('w, go_error + unit) state"

record 'w platform = "'w runtime" +
  pf_orders :: "(OrderModel, 'w) gorm_table"
  pf_items :: "(OrderItemModel, 'w) gorm_table"
  pf_outbox :: "(OutboxEventModel, 'w) gorm_table"
  pf_processed :: "(ProcessedEventModel, 'w) gorm_table"
  pf_idempotency :: "(IdempotencyKeyModel, 'w) gorm_table"
  pf_order_views :: "(OrderViewModel, 'w) gorm_table"
  pf_item_views :: "(OrderItemViewModel, 'w) gorm_table"
  pf_Transaction :: "('w, go_error + string) state \<Rightarrow> ('w, go_error + string) state"
  pf_collate :: "string \<Rightarrow> string \<Rightarrow> bool"

section \<open>What a write leaves in a row\<close>

text \<open>
  GORM manages \<^verbatim>\<open>CreatedAt\<close> and \<^verbatim>\<open>UpdatedAt\<close> and replaces zero values of fields with a
  \<^verbatim>\<open>default\<close> tag on insert: \<open>stored_x r r'\<close> says that \<open>r'\<close> is what the table may hold after
  \<open>r\<close> was written.
\<close>

definition stored_order :: "OrderModel \<Rightarrow> OrderModel \<Rightarrow> bool" where
  "stored_order r r' \<longleftrightarrow> om_ID r' = om_ID r \<and>
     (om_Status r \<noteq> '''' \<and> om_Version r \<noteq> 0 \<longrightarrow>
        r'\<lparr>om_CreatedAt := om_CreatedAt r, om_UpdatedAt := om_UpdatedAt r\<rparr> = r)"

definition stored_item :: "OrderItemModel \<Rightarrow> OrderItemModel \<Rightarrow> bool" where
  "stored_item r r' \<longleftrightarrow> r'\<lparr>oim_CreatedAt := oim_CreatedAt r\<rparr> = r"

definition stored_outbox :: "OutboxEventModel \<Rightarrow> OutboxEventModel \<Rightarrow> bool" where
  "stored_outbox r r' \<longleftrightarrow> oem_ID r' = oem_ID r \<and>
     (oem_Status r \<noteq> '''' \<longrightarrow>
        r'\<lparr>oem_OccurredAt := oem_OccurredAt r, oem_AvailableAt := oem_AvailableAt r\<rparr> = r) \<and>
     (oem_OccurredAt r \<noteq> time_zero \<longrightarrow> oem_OccurredAt r' = oem_OccurredAt r) \<and>
     (oem_AvailableAt r \<noteq> time_zero \<longrightarrow> oem_AvailableAt r' = oem_AvailableAt r)"

definition stored_processed :: "ProcessedEventModel \<Rightarrow> ProcessedEventModel \<Rightarrow> bool" where
  "stored_processed r r' \<longleftrightarrow> r'\<lparr>pe_ProcessedAt := pe_ProcessedAt r\<rparr> = r"

definition stored_idempotency :: "IdempotencyKeyModel \<Rightarrow> IdempotencyKeyModel \<Rightarrow> bool" where
  "stored_idempotency r r' \<longleftrightarrow> r'\<lparr>ik_CreatedAt := ik_CreatedAt r\<rparr> = r"

definition stored_view :: "OrderViewModel \<Rightarrow> OrderViewModel \<Rightarrow> bool" where
  "stored_view r r' \<longleftrightarrow> ovm_ID r' = ovm_ID r \<and>
     (ovm_Status r \<noteq> '''' \<longrightarrow>
        r'\<lparr>ovm_CreatedAt := ovm_CreatedAt r, ovm_UpdatedAt := ovm_UpdatedAt r\<rparr> = r)"

definition stored_iview :: "OrderItemViewModel \<Rightarrow> OrderItemViewModel \<Rightarrow> bool" where
  "stored_iview r r' \<longleftrightarrow> r'\<lparr>ivm_CreatedAt := ivm_CreatedAt r\<rparr> = r"

text \<open>
  \<^verbatim>\<open>Assign\<close> with a struct writes its non-zero fields over the row that was found.
\<close>

definition merge_idempotency ::
  "IdempotencyKeyModel \<Rightarrow> IdempotencyKeyModel \<Rightarrow> IdempotencyKeyModel" where
  "merge_idempotency new old =
     \<lparr>ik_Key = nonzero '''' (ik_Key new) (ik_Key old),
      ik_ResponseStatus = nonzero 0 (ik_ResponseStatus new) (ik_ResponseStatus old),
      ik_ResponseBody = (case ik_ResponseBody new of None \<Rightarrow> ik_ResponseBody old | Some b \<Rightarrow> Some b),
      ik_CreatedAt = nonzero time_zero (ik_CreatedAt new) (ik_CreatedAt old),
      ik_ExpiresAt = nonzero time_zero (ik_ExpiresAt new) (ik_ExpiresAt old)\<rparr>"

definition merge_view :: "OrderViewModel \<Rightarrow> OrderViewModel \<Rightarrow> OrderViewModel" where
  "merge_view new old =
     \<lparr>ovm_ID = nonzero 0 (ovm_ID new) (ovm_ID old),
      ovm_CustomerID = nonzero 0 (ovm_CustomerID new) (ovm_CustomerID old),
      ovm_Status = nonzero '''' (ovm_Status new) (ovm_Status old),
      ovm_TotalAmount = nonzero 0 (ovm_TotalAmount new) (ovm_TotalAmount old),
      ovm_ItemCount = nonzero 0 (ovm_ItemCount new) (ovm_ItemCount old),
      ovm_CreatedAt = nonzero time_zero (ovm_CreatedAt new) (ovm_CreatedAt old),
      ovm_UpdatedAt = nonzero time_zero (ovm_UpdatedAt new) (ovm_UpdatedAt old)\<rparr>"

definition merge_iview :: "OrderItemViewModel \<Rightarrow> OrderItemViewModel \<Rightarrow> OrderItemViewModel" where
  "merge_iview new old =
     \<lparr>ivm_ID = nonzero 0 (ivm_ID new) (ivm_ID old),
      ivm_OrderID = nonzero 0 (ivm_OrderID new) (ivm_OrderID old),
      ivm_ProductID = nonzero '''' (ivm_ProductID new) (ivm_ProductID old),
      ivm_ProductName = nonzero '''' (ivm_ProductName new) (ivm_ProductName old),
      ivm_Quantity = nonzero 0 (ivm_Quantity new) (ivm_Quantity old),
      ivm_UnitPrice = nonzero 0 (ivm_UnitPrice new) (ivm_UnitPrice old),
      ivm_TotalPrice = nonzero 0 (ivm_TotalPrice new) (ivm_TotalPrice old),
      ivm_CreatedAt = nonzero time_zero (ivm_CreatedAt new) (ivm_CreatedAt old)\<rparr>"

section \<open>The laws of one table\<close>

definition matching :: "('r \<Rightarrow> bool) \<Rightarrow> ('k \<Rightarrow> 'r option) \<Rightarrow> 'k set" where
  "matching P m = {k. \<exists>r. m k = Some r \<and> P r}"

definition rows_of :: "('r \<Rightarrow> bool) \<Rightarrow> ('k \<Rightarrow> 'r option) \<Rightarrow> 'r set" where
  "rows_of P m = {r. \<exists>k. m k = Some r \<and> P r}"

definition updated ::
  "('r \<Rightarrow> 'r \<Rightarrow> bool) \<Rightarrow> ('r \<Rightarrow> bool) \<Rightarrow> ('r \<Rightarrow> 'r) \<Rightarrow> ('k \<Rightarrow> 'r option) \<Rightarrow> ('k \<Rightarrow> 'r option) \<Rightarrow> bool" where
  "updated stored P f m m' \<longleftrightarrow>
     (\<forall>k. case m k of
        None \<Rightarrow> m' k = None
      | Some r \<Rightarrow> if P r then \<exists>r'. m' k = Some r' \<and> stored (f r) r' else m' k = Some r)"

lemma updated_hit:
  "updated stored P f m m' \<Longrightarrow> m k = Some r \<Longrightarrow> P r \<Longrightarrow> \<exists>r'. m' k = Some r' \<and> stored (f r) r'"
  by (auto simp: updated_def dest: spec [of _ k])

lemma updated_other: "updated stored P f m m' \<Longrightarrow> m k = Some r \<Longrightarrow> \<not> P r \<Longrightarrow> m' k = Some r"
  by (auto simp: updated_def dest: spec [of _ k])

lemma updated_None: "updated stored P f m m' \<Longrightarrow> m k = None \<Longrightarrow> m' k = None"
  by (auto simp: updated_def dest: spec [of _ k])

text \<open>What \<^verbatim>\<open>ORDER BY\<close> sorts by: a total preorder on rows.\<close>

definition total_preorder :: "('r \<Rightarrow> 'r \<Rightarrow> bool) \<Rightarrow> bool" where
  "total_preorder le \<longleftrightarrow> (\<forall>a b. le a b \<or> le b a) \<and> (\<forall>a b c. le a b \<longrightarrow> le b c \<longrightarrow> le a c)"

text \<open>How the rows that satisfy a predicate change under the map operations of the laws.\<close>

lemma matching_empty_iff: "matching P m = {} \<longleftrightarrow> (\<forall>k r. m k = Some r \<longrightarrow> \<not> P r)"
  by (auto simp: matching_def)

lemma rows_of_delete: "rows_of P (m |` (- matching Q m)) = rows_of (\<lambda>r. P r \<and> \<not> Q r) m"
  by (auto simp: rows_of_def matching_def restrict_map_def split: if_splits)

lemma map_of_rows:
  "distinct (map key rs) \<Longrightarrow> map_of (map (\<lambda>r. (key r, r)) rs) k = Some r \<longleftrightarrow> r \<in> set rs \<and> key r = k"
  by (induction rs) (auto simp: image_iff)

lemma dom_map_of_rows: "dom (map_of (map (\<lambda>r. (key r, r)) rs)) = key ` set rs"
  by (simp add: dom_map_of_conv_image_fst image_image)

lemma rows_of_insert:
  assumes "distinct (map key rs)" "key ` set rs \<inter> dom m = {}"
  shows "rows_of P (m ++ map_of (map (\<lambda>r. (key r, r)) rs)) = rows_of P m \<union> {r \<in> set rs. P r}"
proof -
  let ?n = "map_of (map (\<lambda>r. (key r, r)) rs)"
  have "dom m \<inter> dom ?n = {}" using assms(2) by (auto simp: dom_map_of_rows)
  then have "(m ++ ?n) k = Some r \<longleftrightarrow> m k = Some r \<or> ?n k = Some r" for k r
    by (auto simp: map_add_Some_iff domIff)
  then show ?thesis by (auto simp: rows_of_def map_of_rows [OF assms(1)])
qed

lemma list_all2_key:
  "list_all2 stored rs rs' \<Longrightarrow> (\<And>r r'. stored r r' \<Longrightarrow> key r' = key r) \<Longrightarrow> map key rs' = map key rs"
  by (induction rule: list_all2_induct) auto

locale gorm_laws =
  fixes T :: "('r, 'w) gorm_table"
    and view :: "'w \<Rightarrow> tables"
    and get :: "tables \<Rightarrow> 'k \<Rightarrow> 'r option"
    and put :: "('k \<Rightarrow> 'r option) \<Rightarrow> tables \<Rightarrow> tables"
    and key :: "'r \<Rightarrow> 'k"
    and stored :: "'r \<Rightarrow> 'r \<Rightarrow> bool"
  assumes table_key: "get (view w) k = Some r \<Longrightarrow> key r = k"
    and table_finite: "finite (dom (get (view w)))"
    and First_ok: "run_state (g_First T P) w = (Inr r, w') \<Longrightarrow>
          view w' = view w \<and> get (view w) (key r) = Some r \<and> P r"
    and First_err: "run_state (g_First T P) w = (Inl e, w') \<Longrightarrow>
          view w' = view w \<and>
          (e = GormErrRecordNotFound \<and> matching P (get (view w)) = {} \<or> is_driver_error e)"
    and Find_ok: "run_state (g_Find T P) w = (Inr rs, w') \<Longrightarrow>
          view w' = view w \<and> distinct (map key rs) \<and> set rs = rows_of P (get (view w))"
    and Find_err: "run_state (g_Find T P) w = (Inl e, w') \<Longrightarrow> view w' = view w \<and> is_driver_error e"
    and Count_ok: "run_state (g_Count T P) w = (Inr n, w') \<Longrightarrow>
          view w' = view w \<and> n = of_nat (card (matching P (get (view w))))"
    and Count_err: "run_state (g_Count T P) w = (Inl e, w') \<Longrightarrow> view w' = view w \<and> is_driver_error e"
    and Select_ok: "run_state (g_Select T P le off lim) w = (Inr rs, w') \<Longrightarrow>
          sint lim \<ge> 0 \<Longrightarrow> total_preorder le \<Longrightarrow> view w' = view w \<and>
          (\<exists>xs. distinct (map key xs) \<and> set xs = rows_of P (get (view w)) \<and> sorted_wrt le xs \<and>
             rs = take (nat (sint lim)) (drop (nat (sint off)) xs))"
    and Select_err: "run_state (g_Select T P le off lim) w = (Inl e, w') \<Longrightarrow>
          view w' = view w \<and> is_driver_error e"
    and SelectSkipLocked_ok: "run_state (g_SelectSkipLocked T Q le lim) w = (Inr rs, w') \<Longrightarrow>
          sint lim \<ge> 0 \<Longrightarrow> total_preorder le \<Longrightarrow> view w' = view w \<and>
          (\<exists>now. set rs \<subseteq> rows_of (Q now) (get (view w))) \<and> distinct (map key rs) \<and>
          sorted_wrt le rs \<and> length rs \<le> nat (sint lim)"
    and SelectSkipLocked_err: "run_state (g_SelectSkipLocked T Q le lim) w = (Inl e, w') \<Longrightarrow>
          view w' = view w \<and> is_driver_error e"
    and Create_ok: "run_state (g_Create T rs) w = (Inr u, w') \<Longrightarrow>
          distinct (map key rs) \<and> key ` set rs \<inter> dom (get (view w)) = {} \<and>
          (\<exists>rs'. list_all2 stored rs rs' \<and>
             view w' = put (get (view w) ++ map_of (map (\<lambda>r. (key r, r)) rs')) (view w))"
    and Create_err: "run_state (g_Create T rs) w = (Inl e, w') \<Longrightarrow> view w' = view w \<and> is_driver_error e"
    and Save_ok: "run_state (g_Save T P r) w = (Inr n, w') \<Longrightarrow>
          (\<exists>r'. n \<noteq> 0 \<and> stored r r' \<and> view w' = put ((get (view w))(key r \<mapsto> r')) (view w)) \<or>
          n = 0 \<and> view w' = view w \<and> (\<forall>r0. get (view w) (key r) = Some r0 \<longrightarrow> \<not> P r0)"
    and Save_err: "run_state (g_Save T P r) w = (Inl e, w') \<Longrightarrow> view w' = view w \<and> is_driver_error e"
    and Updates_ok: "run_state (g_Updates T P f) w = (Inr n, w') \<Longrightarrow> (\<And>t r. key (f t r) = key r) \<Longrightarrow>
          n = of_nat (card (matching P (get (view w)))) \<and>
          (\<exists>now m'. updated stored P (f now) (get (view w)) m' \<and> view w' = put m' (view w))"
    and Updates_err: "run_state (g_Updates T P f) w = (Inl e, w') \<Longrightarrow> view w' = view w \<and> is_driver_error e"
    and Delete_ok: "run_state (g_Delete T P) w = (Inr u, w') \<Longrightarrow>
          view w' = put (get (view w) |` (- matching P (get (view w)))) (view w)"
    and Delete_err: "run_state (g_Delete T P) w = (Inl e, w') \<Longrightarrow> view w' = view w \<and> is_driver_error e"
    and FirstOrCreate_ok: "run_state (g_FirstOrCreate T P r) w = (Inr u, w') \<Longrightarrow> P r \<Longrightarrow>
          (if matching P (get (view w)) = {}
           then key r \<notin> dom (get (view w)) \<and>
             (\<exists>r'. stored r r' \<and> view w' = put ((get (view w))(key r \<mapsto> r')) (view w))
           else view w' = view w)"
    and FirstOrCreate_err: "run_state (g_FirstOrCreate T P r) w = (Inl e, w') \<Longrightarrow>
          view w' = view w \<and> is_driver_error e"
begin

lemma matching_key: "matching (\<lambda>r. key r = k) (get (view w)) = {} \<longleftrightarrow> get (view w) k = None"
  using table_key [of w k] table_key [of w]
  by (cases "get (view w) k") (fastforce simp: matching_def)+

lemma rows_of_finite: "finite (rows_of P (get (view w)))"
proof -
  have "rows_of P (get (view w)) \<subseteq> ran (get (view w))"
    by (auto simp: rows_of_def ran_def)
  then show ?thesis using table_finite finite_ran finite_subset by blast
qed

lemma card_matching: "card (matching P (get (view w))) = card (rows_of P (get (view w)))"
proof (rule bij_betw_same_card)
  show "bij_betw (\<lambda>k. the (get (view w) k)) (matching P (get (view w))) (rows_of P (get (view w)))"
    using table_key [of w]
    by (intro bij_betw_byWitness [where f' = key]) (fastforce simp: matching_def rows_of_def)+
qed

end

text \<open>Tables on which \<^verbatim>\<open>Assign\<close> is used add its law.\<close>

locale gorm_assign_laws = gorm_laws T view get put key stored
  for T :: "('r, 'w) gorm_table"
    and view :: "'w \<Rightarrow> tables"
    and get :: "tables \<Rightarrow> 'k \<Rightarrow> 'r option"
    and put :: "('k \<Rightarrow> 'r option) \<Rightarrow> tables \<Rightarrow> tables"
    and key :: "'r \<Rightarrow> 'k"
    and stored :: "'r \<Rightarrow> 'r \<Rightarrow> bool" +
  fixes merge :: "'r \<Rightarrow> 'r \<Rightarrow> 'r"
  assumes AssignFirstOrCreate_ok: "run_state (g_AssignFirstOrCreate T P r) w = (Inr u, w') \<Longrightarrow>
          (\<And>r0. P r0 \<longleftrightarrow> key r0 = key r) \<Longrightarrow>
          (\<exists>r'. view w' = put ((get (view w))(key r \<mapsto> r')) (view w) \<and>
             stored (case get (view w) (key r) of None \<Rightarrow> r | Some r0 \<Rightarrow> merge r r0) r')"
    and AssignFirstOrCreate_err: "run_state (g_AssignFirstOrCreate T P r) w = (Inl e, w') \<Longrightarrow>
          view w' = view w \<and> is_driver_error e"
begin

lemma assign_missing:
  "run_state (g_AssignFirstOrCreate T (\<lambda>r0. key r0 = key r) r) w = (Inr u, w') \<Longrightarrow>
   get (view w) (key r) = None \<Longrightarrow>
     \<exists>r'. stored r r' \<and> view w' = put ((get (view w))(key r \<mapsto> r')) (view w)"
  using AssignFirstOrCreate_ok [of "\<lambda>r0. key r0 = key r" r w u w'] by auto

lemma assign_present:
  "run_state (g_AssignFirstOrCreate T (\<lambda>r0. key r0 = key r) r) w = (Inr u, w') \<Longrightarrow>
   get (view w) (key r) = Some r0 \<Longrightarrow>
     \<exists>r'. stored (merge r r0) r' \<and> view w' = put ((get (view w))(key r \<mapsto> r')) (view w)"
  using AssignFirstOrCreate_ok [of "\<lambda>r0. key r0 = key r" r w u w'] by auto

end

section \<open>The laws of the platform\<close>

text \<open>
  The collation of the database orders strings.  Reading the clock and drawing an identifier leave the tables alone, and a version-7
  identifier is not nil and not among the identifiers stored.  A transaction runs its
  body on the tables as they are; when the body fails, or the transaction cannot begin or
  commit, the tables are as before.
\<close>

locale gorm_platform =
  runtime_codec E +
  orders: gorm_laws "pf_orders E" view t_orders "\<lambda>m t. t\<lparr>t_orders := m\<rparr>" om_ID stored_order +
  items: gorm_laws "pf_items E" view t_items "\<lambda>m t. t\<lparr>t_items := m\<rparr>" oim_ID stored_item +
  outbox: gorm_laws "pf_outbox E" view t_outbox "\<lambda>m t. t\<lparr>t_outbox := m\<rparr>" oem_ID stored_outbox +
  processed: gorm_laws "pf_processed E" view t_processed "\<lambda>m t. t\<lparr>t_processed := m\<rparr>" pe_key
    stored_processed +
  idempotency: gorm_assign_laws "pf_idempotency E" view t_idempotency "\<lambda>m t. t\<lparr>t_idempotency := m\<rparr>" ik_Key
    stored_idempotency merge_idempotency +
  views: gorm_assign_laws "pf_order_views E" view t_order_views "\<lambda>m t. t\<lparr>t_order_views := m\<rparr>" ovm_ID
    stored_view merge_view +
  iviews: gorm_assign_laws "pf_item_views E" view t_item_views "\<lambda>m t. t\<lparr>t_item_views := m\<rparr>" ivm_ID
    stored_iview merge_iview
  for E :: "'w platform" and view :: "'w \<Rightarrow> tables" +
  assumes collate_preorder: "total_preorder (pf_collate E)"
    and now_pure: "run_state (time_Now E) w = (t, w') \<Longrightarrow> view w' = view w"
    and v7_pure: "run_state (uuid_NewV7 E) w = (u, w') \<Longrightarrow> view w' = view w"
    and v7_fresh: "run_state (uuid_NewV7 E) w = (u, w') \<Longrightarrow>
          u \<noteq> 0 \<and> u \<notin> dom (t_orders (view w)) \<union> dom (t_items (view w)) \<union> dom (t_outbox (view w))"
    and Transaction_ok: "run_state (pf_Transaction E body) w = (Inr x, w') \<Longrightarrow>
          \<exists>w1 w2. view w1 = view w \<and> run_state body w1 = (Inr x, w2) \<and> view w' = view w2"
    and Transaction_err: "run_state (pf_Transaction E body) w = (Inl e, w') \<Longrightarrow>
          view w' = view w \<and>
          (is_driver_error e \<or> (\<exists>w1 w2. view w1 = view w \<and> run_state body w1 = (Inl e, w2)))"

end
