(* ===== verification/Mem_Platform.thy ===== *)
theory Mem_Platform imports Platform begin

text \<open>
  An in-memory instance of the platform: tables as lists of rows, a clock that ticks at
  every reading, and a schedule of faults that makes chosen database calls fail.  It
  satisfies the laws of \<open>gorm_platform\<close>, so they are consistent, and the witnesses run on
  it.  A save whose condition the stored row does not meet writes nothing and reports no row.
  A table holds at most 1000 rows; inserting more is an error.
\<close>

section \<open>Worlds\<close>

record mem =
  m_clock :: time
  m_faults :: "bool list"
  m_orders :: "OrderModel list"
  m_items :: "OrderItemModel list"
  m_outbox :: "OutboxEventModel list"
  m_processed :: "ProcessedEventModel list"
  m_idempotency :: "IdempotencyKeyModel list"
  m_order_views :: "OrderViewModel list"
  m_item_views :: "OrderItemViewModel list"

definition mem_empty :: mem where
  "mem_empty = \<lparr>m_clock = 1, m_faults = [], m_orders = [], m_items = [], m_outbox = [],
     m_processed = [], m_idempotency = [], m_order_views = [], m_item_views = []\<rparr>"

text \<open>The rows of a table, one per key, and the table as a map.\<close>

fun dedup :: "('r \<Rightarrow> 'k) \<Rightarrow> 'r list \<Rightarrow> 'r list" where
  "dedup key [] = []"
| "dedup key (r # rs) = r # filter (\<lambda>s. key s \<noteq> key r) (dedup key rs)"

definition mem_rows :: "('r \<Rightarrow> 'k) \<Rightarrow> 'r list \<Rightarrow> 'r list" where
  "mem_rows key rs = dedup key (take 1000 rs)"

definition mem_map :: "('r \<Rightarrow> 'k) \<Rightarrow> 'r list \<Rightarrow> 'k \<Rightarrow> 'r option" where
  "mem_map key rs = map_of (map (\<lambda>r. (key r, r)) (mem_rows key rs))"

definition mem_view :: "mem \<Rightarrow> tables" where
  "mem_view w = \<lparr>t_orders = mem_map om_ID (m_orders w), t_items = mem_map oim_ID (m_items w),
     t_outbox = mem_map oem_ID (m_outbox w), t_processed = mem_map pe_key (m_processed w),
     t_idempotency = mem_map ik_Key (m_idempotency w),
     t_order_views = mem_map ovm_ID (m_order_views w),
     t_item_views = mem_map ivm_ID (m_item_views w)\<rparr>"

lemma distinct_dedup: "distinct (map key (dedup key rs))"
proof (induction rs)
  case (Cons r rs)
  then show ?case by (auto simp: distinct_map intro: inj_on_subset)
qed simp

lemma dedup_id: "distinct (map key rs) \<Longrightarrow> dedup key rs = rs"
  by (induction rs) (simp_all add: filter_id_conv image_iff, metis)

lemma length_dedup: "length (dedup key rs) \<le> length rs"
  by (induction rs) (auto intro: le_trans [OF length_filter_le])

lemma distinct_mem_rows: "distinct (map key (mem_rows key rs))"
  by (simp add: mem_rows_def distinct_dedup)

lemma length_mem_rows: "length (mem_rows key rs) \<le> 1000"
  using length_dedup [of key "take 1000 rs"] by (simp add: mem_rows_def)

lemma mem_rows_id:
  "distinct (map key rs) \<Longrightarrow> length rs \<le> 1000 \<Longrightarrow> mem_rows key rs = rs"
  by (simp add: mem_rows_def dedup_id)

lemma mem_map_Some: "mem_map key rs k = Some r \<longleftrightarrow> r \<in> set (mem_rows key rs) \<and> key r = k"
  by (simp add: mem_map_def map_of_rows distinct_mem_rows)

lemma mem_map_None: "mem_map key rs k = None \<longleftrightarrow> k \<notin> key ` set (mem_rows key rs)"
  using mem_map_Some [of key rs k] by (cases "mem_map key rs k") fastforce+

lemma dom_mem_map: "dom (mem_map key rs) = key ` set (mem_rows key rs)"
  by (simp add: mem_map_def dom_map_of_rows)

lemma rows_of_mem: "rows_of P (mem_map key rs) = set (filter P (mem_rows key rs))"
  by (auto simp: rows_of_def mem_map_Some)

lemma matching_mem: "matching P (mem_map key rs) = key ` set (filter P (mem_rows key rs))"
  by (auto simp: matching_def mem_map_Some)

text \<open>Two tables with the same rows for every key are the same map.\<close>

lemma mem_map_eqI: "(\<And>k r. m k = Some r \<longleftrightarrow> r \<in> set (mem_rows key rs) \<and> key r = k) \<Longrightarrow> mem_map key rs = m"
proof (rule ext)
  fix k
  assume m: "\<And>k r. m k = Some r \<longleftrightarrow> r \<in> set (mem_rows key rs) \<and> key r = k"
  have "mem_map key rs k = Some r \<longleftrightarrow> m k = Some r" for r by (simp add: m mem_map_Some)
  then show "mem_map key rs k = m k" by (metis not_Some_eq)
qed

section \<open>The verbs\<close>

text \<open>A call consumes one entry of the fault schedule; an exhausted schedule is fault-free.\<close>

definition mem_op :: "(mem \<Rightarrow> (go_error + 'a) \<times> mem) \<Rightarrow> (mem, go_error + 'a) state" where
  "mem_op f = State (\<lambda>w. case m_faults w of
     [] \<Rightarrow> f w
   | b # bs \<Rightarrow> if b then (Inl (ErrDriver ''connection refused''), w\<lparr>m_faults := bs\<rparr>)
       else f (w\<lparr>m_faults := bs\<rparr>))"

fun insert_by :: "('r \<Rightarrow> 'r \<Rightarrow> bool) \<Rightarrow> 'r \<Rightarrow> 'r list \<Rightarrow> 'r list" where
  "insert_by le x [] = [x]"
| "insert_by le x (y # ys) = (if le x y then x # y # ys else y # insert_by le x ys)"

definition sort_by :: "('r \<Rightarrow> 'r \<Rightarrow> bool) \<Rightarrow> 'r list \<Rightarrow> 'r list" where
  "sort_by le xs = foldr (insert_by le) xs []"

definition mem_insert :: "('r \<Rightarrow> 'k) \<Rightarrow> 'r list \<Rightarrow> 'r list \<Rightarrow> 'r list option" where
  "mem_insert key new rs =
     (if distinct (map key (new @ mem_rows key rs)) \<and> length (new @ mem_rows key rs) \<le> 1000
      then Some (new @ mem_rows key rs) else None)"

definition mem_replace :: "('r \<Rightarrow> 'k) \<Rightarrow> 'r \<Rightarrow> 'r list \<Rightarrow> 'r list option" where
  "mem_replace key r rs = mem_insert key [r] (filter (\<lambda>s. key s \<noteq> key r) (mem_rows key rs))"

definition mem_write ::
  "('r list \<Rightarrow> mem \<Rightarrow> mem) \<Rightarrow> 'a \<Rightarrow> 'r list option \<Rightarrow> mem \<Rightarrow> (go_error + 'a) \<times> mem" where
  "mem_write put x rs w =
     (case rs of None \<Rightarrow> (Inl (ErrDriver ''constraint violation''), w) | Some xs \<Rightarrow> (Inr x, put xs w))"

definition mem_table ::
  "(mem \<Rightarrow> 'r list) \<Rightarrow> ('r list \<Rightarrow> mem \<Rightarrow> mem) \<Rightarrow> ('r \<Rightarrow> 'k) \<Rightarrow> ('r \<Rightarrow> 'r \<Rightarrow> 'r) \<Rightarrow> ('r, mem) gorm_table" where
  "mem_table get put key merge = \<lparr>
     g_First = (\<lambda>P. mem_op (\<lambda>w. (case filter P (mem_rows key (get w)) of
         [] \<Rightarrow> Inl GormErrRecordNotFound | r # _ \<Rightarrow> Inr r, w))),
     g_Find = (\<lambda>P. mem_op (\<lambda>w. (Inr (filter P (mem_rows key (get w))), w))),
     g_Count = (\<lambda>P. mem_op (\<lambda>w. (Inr (of_nat (length (filter P (mem_rows key (get w))))), w))),
     g_Select = (\<lambda>P le off lim. mem_op (\<lambda>w. (Inr (take (nat (sint lim)) (drop (nat (sint off))
         (sort_by le (filter P (mem_rows key (get w)))))), w))),
     g_SelectSkipLocked = (\<lambda>Q le lim. mem_op (\<lambda>w. (Inr (take (nat (sint lim))
         (sort_by le (filter (Q (m_clock w)) (mem_rows key (get w))))), w))),
     g_Create = (\<lambda>rs. mem_op (\<lambda>w. mem_write put () (mem_insert key rs (get w)) w)),
     g_Save = (\<lambda>P r. mem_op (\<lambda>w.
         if filter (\<lambda>r0. key r0 = key r \<and> \<not> P r0) (mem_rows key (get w)) \<noteq> [] then (Inr 0, w)
         else mem_write put 1 (mem_replace key r (get w)) w)),
     g_Updates = (\<lambda>P f. mem_op (\<lambda>w. mem_write put
         (of_nat (length (filter P (mem_rows key (get w)))))
         (mem_insert key (map (\<lambda>r. if P r then f (m_clock w) r else r) (mem_rows key (get w))) []) w)),
     g_Delete = (\<lambda>P. mem_op (\<lambda>w. mem_write put ()
         (Some (filter (\<lambda>r. \<not> P r) (mem_rows key (get w)))) w)),
     g_FirstOrCreate = (\<lambda>P r. mem_op (\<lambda>w. if filter P (mem_rows key (get w)) = []
         then mem_write put () (mem_insert key [r] (get w)) w else (Inr (), w))),
     g_AssignFirstOrCreate = (\<lambda>P r. mem_op (\<lambda>w. mem_write put ()
         (case filter P (mem_rows key (get w)) of
            [] \<Rightarrow> mem_insert key [r] (get w)
          | r0 # _ \<Rightarrow> mem_replace key (merge r r0) (get w)) w))\<rparr>"

section \<open>The verbs satisfy the laws\<close>

lemma set_insert_by [simp]: "set (insert_by le x xs) = insert x (set xs)"
  by (induction xs) auto

lemma sorted_insert_by:
  "total_preorder le \<Longrightarrow> sorted_wrt le xs \<Longrightarrow> sorted_wrt le (insert_by le x xs)"
  by (induction xs) (auto simp: total_preorder_def; metis)+

lemma set_sort_by [simp]: "set (sort_by le xs) = set xs"
  by (induction xs) (auto simp: sort_by_def)

lemma length_insert_by [simp]: "length (insert_by le x xs) = Suc (length xs)"
  by (induction xs) auto

lemma length_sort_by [simp]: "length (sort_by le xs) = length xs"
  by (induction xs) (auto simp: sort_by_def)

lemma distinct_insert_by:
  "distinct (map key (insert_by le x xs)) \<longleftrightarrow> key x \<notin> key ` set xs \<and> distinct (map key xs)"
  by (induction xs) auto

lemma distinct_sort_by: "distinct (map key xs) \<Longrightarrow> distinct (map key (sort_by le xs))"
proof (induction xs)
  case (Cons x xs)
  then have "distinct (map key (insert_by le x (sort_by le xs)))"
    by (simp add: distinct_insert_by)
  then show ?case by (simp add: sort_by_def)
qed (simp add: sort_by_def)

lemma sorted_sort_by: "total_preorder le \<Longrightarrow> sorted_wrt le (sort_by le xs)"
  by (induction xs) (auto simp: sort_by_def sorted_insert_by)

lemma mem_insert_Some:
  "mem_insert key new rs = Some xs \<Longrightarrow>
     mem_rows key xs = new @ mem_rows key rs \<and> distinct (map key new) \<and>
     key ` set new \<inter> key ` set (mem_rows key rs) = {}"
  by (auto simp: mem_insert_def mem_rows_id split: if_splits)

lemma distinct_mem_filter: "distinct (map key (filter P (mem_rows key rs)))"
  using distinct_mem_rows by (rule distinct_map_filter)

lemma mem_rows_filter: "mem_rows key (filter P (mem_rows key rs)) = filter P (mem_rows key rs)"
proof (rule mem_rows_id)
  show "distinct (map key (filter P (mem_rows key rs)))" by (rule distinct_mem_filter)
  show "length (filter P (mem_rows key rs)) \<le> 1000"
    using length_filter_le length_mem_rows by (rule le_trans)
qed

lemma mem_map_insert:
  assumes "mem_insert key new rs = Some xs"
  shows "mem_map key xs = mem_map key rs ++ map_of (map (\<lambda>r. (key r, r)) new)"
proof -
  have "mem_rows key xs = new @ mem_rows key rs" using mem_insert_Some [OF assms] by simp
  then show ?thesis by (simp add: mem_map_def)
qed

lemma mem_map_replace:
  assumes "mem_replace key r rs = Some xs"
  shows "mem_map key xs = (mem_map key rs)(key r \<mapsto> r)"
proof (rule mem_map_eqI)
  fix k s
  have "mem_rows key xs = r # filter (\<lambda>s. key s \<noteq> key r) (mem_rows key rs)"
    using mem_insert_Some [OF assms [unfolded mem_replace_def]] by (simp add: mem_rows_filter)
  then show "((mem_map key rs)(key r \<mapsto> r)) k = Some s \<longleftrightarrow> s \<in> set (mem_rows key xs) \<and> key s = k"
    by (auto simp: mem_map_Some)
qed

lemma mem_map_filter:
  "mem_map key (filter P (mem_rows key rs)) = mem_map key rs |` (- matching (\<lambda>r. \<not> P r) (mem_map key rs))"
proof (rule mem_map_eqI)
  fix k s
  have "key a = key b \<Longrightarrow> a \<in> set (mem_rows key rs) \<Longrightarrow> b \<in> set (mem_rows key rs) \<Longrightarrow> a = b" for a b
    using distinct_mem_rows [of key rs] by (auto simp: distinct_map dest: inj_onD)
  then show "(mem_map key rs |` (- matching (\<lambda>r. \<not> P r) (mem_map key rs))) k = Some s \<longleftrightarrow>
      s \<in> set (mem_rows key (filter P (mem_rows key rs))) \<and> key s = k"
    by (auto simp: mem_rows_filter restrict_map_def mem_map_Some matching_mem)
qed


lemma mem_opE:
  assumes "run_state (mem_op f) w = (r, w')"
  obtains bs where "r = Inl (ErrDriver ''connection refused'')" "w' = w\<lparr>m_faults := bs\<rparr>"
  | bs where "f (w\<lparr>m_faults := bs\<rparr>) = (r, w')"
proof (cases "m_faults w")
  case Nil
  then have "f w = (r, w')" using assms by (simp add: mem_op_def)
  moreover have "w\<lparr>m_faults := m_faults w\<rparr> = w" by simp
  ultimately show thesis by (intro that(2) [of "m_faults w"]) (simp only:)
next
  case (Cons b bs)
  show thesis
  proof (cases b)
    case True
    with Cons assms show thesis by (intro that(1) [of bs]) (simp_all add: mem_op_def)
  next
    case False
    with Cons assms show thesis by (intro that(2) [of bs]) (simp add: mem_op_def)
  qed
qed

lemma map_of_map_rows:
  "(\<And>r. key (g r) = key r) \<Longrightarrow>
     map_of (map (\<lambda>r. (key r, r)) (map g xs)) k = map_option g (map_of (map (\<lambda>r. (key r, r)) xs) k)"
  by (induction xs) auto

lemma mem_insert_map_updated:
  assumes "mem_insert key (map (\<lambda>r. if P r then f r else r) (mem_rows key rs)) [] = Some xs"
    and key: "\<And>r. key (f r) = key r" and "\<And>r. stored r r"
  shows "updated stored P f (mem_map key rs) (mem_map key xs)"
proof -
  have xs: "mem_rows key xs = map (\<lambda>r. if P r then f r else r) (mem_rows key rs)"
    using mem_insert_Some [OF assms(1)] by (simp add: mem_rows_def)
  have "mem_map key xs k = map_option (\<lambda>r. if P r then f r else r) (mem_map key rs k)" for k
    unfolding mem_map_def xs by (rule map_of_map_rows) (simp add: key)
  then show ?thesis using assms(3)
    by (auto simp: updated_def split: option.splits)
qed

lemma filter_eq_ConsD: "filter P xs = r # rs \<Longrightarrow> r \<in> set xs \<and> P r"
  by (auto simp: filter_eq_Cons_iff)

lemma card_mem_filter:
  "card (key ` set (filter P (mem_rows key rs))) = length (filter P (mem_rows key rs))"
  using distinct_card [OF distinct_mem_filter, of key P rs] by simp

text \<open>
  A table of \<open>mem\<close>: its list is read by \<open>get\<close> and replaced by \<open>put\<close>, and shows in the view
  through \<open>tget\<close> and \<open>tput\<close>.
\<close>

lemma mem_table_laws:
  fixes get :: "mem \<Rightarrow> 'r list" and key :: "'r \<Rightarrow> 'k"
  assumes get: "\<And>w. tget (mem_view w) = mem_map key (get w)"
    and put: "\<And>xs w. mem_view (put xs w) = tput (mem_map key xs) (mem_view w)"
    and faults: "\<And>bs w. get (w\<lparr>m_faults := bs\<rparr>) = get w"
    and stored: "\<And>r. stored r r"
  shows "gorm_laws (mem_table get put key merge) mem_view tget tput key stored"
proof -
  have view: "mem_view (w\<lparr>m_faults := bs\<rparr>) = mem_view w" for w bs by (simp add: mem_view_def)
  note [simp] = get put faults stored view
  show ?thesis
  proof (unfold_locales, goal_cases)
    case (1 w k r) then show ?case by (simp add: mem_map_Some)
  next
    case (2 w) then show ?case by (simp add: dom_mem_map)
  next
    case (3 P w r w') then show ?case
      by (auto simp: mem_table_def mem_map_Some dest!: filter_eq_ConsD split: list.splits elim!: mem_opE)
  next
    case (4 P w e w') then show ?case
      by (auto simp: mem_table_def matching_mem filter_empty_conv split: list.splits elim!: mem_opE)
  next
    case (5 P w rs w') then show ?case
      by (auto simp: mem_table_def rows_of_mem distinct_mem_rows distinct_map_filter elim!: mem_opE)
  next
    case (6 P w e w') then show ?case by (auto simp: mem_table_def elim!: mem_opE)
  next
    case (7 P w n w')
    show ?case using 7
      by (auto simp: mem_table_def matching_mem card_mem_filter simp del: set_filter elim!: mem_opE)
  next
    case (8 P w e w') then show ?case by (auto simp: mem_table_def elim!: mem_opE)
  next
    case (9 P le off lim w rs w')
    show ?case
      using 9 distinct_sort_by [OF distinct_mem_filter [of key P "get w"]]
      by (auto simp: mem_table_def rows_of_mem sorted_sort_by elim!: mem_opE
          intro!: exI [of _ "sort_by le (filter P (mem_rows key (get w)))"])
  next
    case (10 P le off lim w e w') then show ?case by (auto simp: mem_table_def elim!: mem_opE)
  next
    case (11 Q le lim w rs w')
    let ?xs = "sort_by le (filter (Q (m_clock w)) (mem_rows key (get w)))"
    have rs: "rs = take (nat (sint lim)) ?xs" "mem_view w' = mem_view w"
      using 11(1) by (auto simp: mem_table_def elim!: mem_opE)
    have "distinct (map key ?xs)"
      by (intro distinct_sort_by distinct_mem_filter)
    then have "distinct (map key rs)" unfolding rs(1) by (simp add: take_map [symmetric])
    moreover have "set rs \<subseteq> rows_of (Q (m_clock w)) (tget (mem_view w))"
      unfolding rs(1) using set_take_subset [of "nat (sint lim)" ?xs] by (auto simp: rows_of_mem)
    moreover have "sorted_wrt le rs" unfolding rs(1)
      using 11(3) by (intro sorted_wrt_take sorted_sort_by)
    ultimately show ?case using rs by auto
  next
    case (12 Q le lim w e w') then show ?case by (auto simp: mem_table_def elim!: mem_opE)
  next
    case (13 rs w u w')
    then obtain xs where "mem_insert key rs (get w) = Some xs"
      "mem_view w' = tput (mem_map key xs) (mem_view w)"
      by (auto simp: mem_table_def mem_write_def split: option.splits elim!: mem_opE)
    with mem_map_insert [OF this(1)] mem_insert_Some [OF this(1)] show ?case
      by (auto simp: dom_mem_map list_all2_refl intro!: exI [of _ rs])
  next
    case (14 rs w e w') then show ?case
      by (auto simp: mem_table_def mem_write_def split: option.splits elim!: mem_opE)
  next
    case (15 P r w n w')
    show ?case
    proof (cases "filter (\<lambda>r0. key r0 = key r \<and> \<not> P r0) (mem_rows key (get w)) = []")
      case True
      with 15 show ?thesis
        by (auto simp: mem_table_def mem_write_def mem_map_replace split: option.splits elim!: mem_opE
            intro!: exI [of _ r])
    next
      case False
      with 15 have "n = 0" "mem_view w' = mem_view w" by (auto simp: mem_table_def elim!: mem_opE)
      moreover from False obtain r0 where r0: "r0 \<in> set (mem_rows key (get w))" "key r0 = key r" "\<not> P r0"
        by (auto simp: filter_empty_conv)
      then have "tget (mem_view w) (key r) = Some r0" by (simp add: mem_map_Some)
      ultimately show ?thesis using r0(3) by simp
    qed
  next
    case (16 P r w e w') then show ?case
      by (auto simp: mem_table_def mem_write_def split: option.splits if_splits elim!: mem_opE)
  next
    case (17 P f w n w')
    from 17(1) obtain xs where
      "mem_insert key (map (\<lambda>r. if P r then f (m_clock w) r else r) (mem_rows key (get w))) [] = Some xs"
      "n = of_nat (length (filter P (mem_rows key (get w))))" "mem_view w' = tput (mem_map key xs) (mem_view w)"
      by (auto simp: mem_table_def mem_write_def cong: if_cong split: option.splits elim!: mem_opE)
    then show ?case
      using mem_insert_map_updated [of key P "f (m_clock w)" "get w" xs stored] 17(2)
      by (auto simp: matching_mem card_mem_filter simp del: set_filter)
  next
    case (18 P f w e w') then show ?case
      by (auto simp: mem_table_def mem_write_def split: option.splits elim!: mem_opE)
  next
    case (19 P w u w')
    have "mem_map key (filter (\<lambda>r. \<not> P r) (mem_rows key rs)) =
        mem_map key rs |` (- matching P (mem_map key rs))" for rs
      using mem_map_filter [of key "\<lambda>r. \<not> P r" rs] by simp
    with 19 show ?case by (auto simp: mem_table_def mem_write_def elim!: mem_opE)
  next
    case (20 P w e w') then show ?case
      by (auto simp: mem_table_def mem_write_def split: option.splits elim!: mem_opE)
  next
    case (21 P r w u w')
    show ?case
    proof (cases "filter P (mem_rows key (get w)) = []")
      case True
      with 21 obtain xs where "mem_insert key [r] (get w) = Some xs"
        "mem_view w' = tput (mem_map key xs) (mem_view w)"
        by (auto simp: mem_table_def mem_write_def split: option.splits elim!: mem_opE)
      with True mem_map_insert [OF this(1)] mem_insert_Some [OF this(1)] show ?thesis
        by (auto simp: matching_mem dom_mem_map intro!: exI [of _ r])
    next
      case False
      with 21 have "mem_view w' = mem_view w" by (auto simp: mem_table_def elim!: mem_opE)
      moreover have "matching P (mem_map key (get w)) \<noteq> {}"
        using False by (simp add: matching_mem del: set_filter)
      ultimately show ?thesis by simp
    qed
  next
    case (22 P r w e w') then show ?case
      by (auto simp: mem_table_def mem_write_def split: option.splits if_splits elim!: mem_opE)
  qed
qed

text \<open>The law of \<^verbatim>\<open>Assign\<close>, for a merge that keeps the key of the row found.\<close>

lemma filter_key_unique:
  assumes "filter (\<lambda>s. key s = k) (mem_rows key rs) = r # rs'"
  shows "mem_map key rs k = Some r"
  using filter_eq_ConsD [OF assms] by (simp add: mem_map_Some)

lemma mem_assign_laws:
  fixes get :: "mem \<Rightarrow> 'r list" and key :: "'r \<Rightarrow> 'k"
  assumes get: "\<And>w. tget (mem_view w) = mem_map key (get w)"
    and put: "\<And>xs w. mem_view (put xs w) = tput (mem_map key xs) (mem_view w)"
    and faults: "\<And>bs w. get (w\<lparr>m_faults := bs\<rparr>) = get w"
    and stored: "\<And>r. stored r r"
    and merge: "\<And>r r0. key r0 = key r \<Longrightarrow> key (merge r r0) = key r"
  shows "gorm_assign_laws (mem_table get put key merge) mem_view tget tput key stored merge"
proof (rule gorm_assign_laws.intro)
  show "gorm_laws (mem_table get put key merge) mem_view tget tput key stored"
    using assms by (intro mem_table_laws)
  have view: "mem_view (w\<lparr>m_faults := bs\<rparr>) = mem_view w" for w bs by (simp add: mem_view_def)
  note [simp] = get put faults stored view
  show "gorm_assign_laws_axioms (mem_table get put key merge) mem_view tget tput key stored merge"
  proof (unfold_locales, goal_cases)
    case (1 P r w u w')
    from 1(2) have P: "P = (\<lambda>s. key s = key r)" by (simp add: fun_eq_iff)
    show ?case
    proof (cases "filter P (mem_rows key (get w))")
      case Nil
      with 1(1) obtain xs where "mem_insert key [r] (get w) = Some xs"
        "mem_view w' = tput (mem_map key xs) (mem_view w)"
        by (auto simp: mem_table_def mem_write_def split: option.splits elim!: mem_opE)
      moreover have "mem_map key (get w) (key r) = None"
        using Nil by (auto simp: mem_map_None P filter_empty_conv)
      ultimately show ?thesis
        using mem_map_insert [of key "[r]" "get w" xs] by (intro exI [of _ r]) simp
    next
      case (Cons r0 rs)
      then have r0: "mem_map key (get w) (key r) = Some r0" "key r0 = key r"
        using filter_key_unique filter_eq_ConsD unfolding P by fast+
      from Cons 1(1) obtain xs where "mem_replace key (merge r r0) (get w) = Some xs"
        "mem_view w' = tput (mem_map key xs) (mem_view w)"
        by (auto simp: mem_table_def mem_write_def split: option.splits elim!: mem_opE)
      with mem_map_replace [OF this(1)] r0 merge show ?thesis
        by (intro exI [of _ "merge r r0"]) simp
    qed
  next
    case (2 P r w e w') then show ?case
      by (auto simp: mem_table_def mem_write_def split: option.splits elim!: mem_opE)
  qed
qed

section \<open>The platform\<close>

text \<open>
  Identifiers count upwards from one, skipping those in use.  Identifiers and instants
  are written in unary.
\<close>

fun fresh_from :: "uuid list \<Rightarrow> uuid \<Rightarrow> uuid list \<Rightarrow> uuid" where
  "fresh_from [] u used = u"
| "fresh_from (x # fuel) u used = (if u \<in> set used then fresh_from fuel (u + 1) used else u)"

definition mem_ids :: "mem \<Rightarrow> uuid list" where
  "mem_ids w = map om_ID (mem_rows om_ID (m_orders w)) @ map oim_ID (mem_rows oim_ID (m_items w)) @
     map oem_ID (mem_rows oem_ID (m_outbox w))"

definition mem_now :: "(mem, time) state" where
  "mem_now = State (\<lambda>w. (m_clock w, w\<lparr>m_clock := m_clock w + 1\<rparr>))"

definition mem_uuid :: "(mem, uuid) state" where
  "mem_uuid = State (\<lambda>w. (fresh_from (0 # mem_ids w) 1 (0 # mem_ids w), w))"

definition unary :: "char \<Rightarrow> nat \<Rightarrow> string" where
  "unary c n = replicate n c"

definition is_unary :: "char \<Rightarrow> string \<Rightarrow> bool" where
  "is_unary c s \<longleftrightarrow> list_all (\<lambda>d. d = c) s"

text \<open>Strings are compared character by character.\<close>

fun lex_le :: "nat list \<Rightarrow> nat list \<Rightarrow> bool" where
  "lex_le [] ys = True"
| "lex_le (x # xs) [] = False"
| "lex_le (x # xs) (y # ys) = (x < y \<or> x = y \<and> lex_le xs ys)"

definition mem_transaction :: "(mem, go_error + string) state \<Rightarrow> (mem, go_error + string) state" where
  "mem_transaction body = State (\<lambda>w. case run_state body w of
     (Inl e, w') \<Rightarrow> (Inl e, w\<lparr>m_clock := m_clock w', m_faults := m_faults w'\<rparr>)
   | (Inr x, w') \<Rightarrow> (Inr x, w'))"

definition mem_platform :: "mem platform" where
  "mem_platform = \<lparr>
     time_Now = mem_now, uuid_NewV7 = mem_uuid, uuid_New = mem_uuid,
     uuid_Parse = (\<lambda>s. if is_unary CHR ''u'' s then Inr (of_nat (length s))
        else Inl (ErrUUID ''invalid UUID format'')),
     uuid_Rest = (\<lambda>s. 0), uuid_String = (\<lambda>u. unary CHR ''u'' (unat u)),
     time_MarshalText = (\<lambda>t. if t < 0 then Inl (ErrJSON ''year outside of range [0,9999]'')
        else Inr (unary CHR ''t'' (nat t))),
     time_UnmarshalText = (\<lambda>s. if is_unary CHR ''t'' s then Some (int (length s)) else None),
     pf_orders = mem_table m_orders (\<lambda>xs w. w\<lparr>m_orders := xs\<rparr>) om_ID (\<lambda>r r0. r0),
     pf_items = mem_table m_items (\<lambda>xs w. w\<lparr>m_items := xs\<rparr>) oim_ID (\<lambda>r r0. r0),
     pf_outbox = mem_table m_outbox (\<lambda>xs w. w\<lparr>m_outbox := xs\<rparr>) oem_ID (\<lambda>r r0. r0),
     pf_processed = mem_table m_processed (\<lambda>xs w. w\<lparr>m_processed := xs\<rparr>) pe_key (\<lambda>r r0. r0),
     pf_idempotency =
       mem_table m_idempotency (\<lambda>xs w. w\<lparr>m_idempotency := xs\<rparr>) ik_Key merge_idempotency,
     pf_order_views = mem_table m_order_views (\<lambda>xs w. w\<lparr>m_order_views := xs\<rparr>) ovm_ID merge_view,
     pf_item_views = mem_table m_item_views (\<lambda>xs w. w\<lparr>m_item_views := xs\<rparr>) ivm_ID merge_iview,
     pf_Transaction = mem_transaction, pf_collate = (\<lambda>s t. lex_le (map of_char s) (map of_char t))\<rparr>"

lemma lex_le_total: "lex_le xs ys \<or> lex_le ys xs"
  by (induction xs ys rule: lex_le.induct) auto

lemma lex_le_trans: "lex_le xs ys \<Longrightarrow> lex_le ys zs \<Longrightarrow> lex_le xs zs"
proof (induction xs ys arbitrary: zs rule: lex_le.induct)
  case (3 x xs y ys)
  then show ?case by (cases zs) auto
qed auto

lemma unary_codec [simp]: "is_unary c (unary c n)" "length (unary c n) = n"
  by (simp_all add: is_unary_def unary_def list_all_length)

lemma fresh_from_tried:
  "fresh_from fuel u used \<in> set used \<Longrightarrow> \<forall>i \<le> length fuel. u + of_nat i \<in> set used"
proof (induction fuel arbitrary: u)
  case (Cons x fuel)
  then have u: "u \<in> set used" "\<forall>i \<le> length fuel. u + 1 + of_nat i \<in> set used"
    by (simp_all split: if_splits)
  show ?case
  proof (intro allI impI)
    fix i assume "i \<le> length (x # fuel)"
    then show "u + of_nat i \<in> set used" using u by (cases i) (auto simp: add.assoc)
  qed
qed simp

lemma fresh_from_fresh:
  assumes "length used < 2 ^ 64"
  shows "fresh_from used u used \<notin> set used"
proof
  let ?f = "\<lambda>i. u + (of_nat i :: uuid)"
  assume "fresh_from used u used \<in> set used"
  from fresh_from_tried [OF this] have sub: "?f ` {..length used} \<subseteq> set used" by auto
  have "inj_on ?f {..length used}"
  proof (rule inj_onI)
    fix i j assume "i \<in> {..length used}" "j \<in> {..length used}" "?f i = ?f j"
    then have "unat (of_nat i :: uuid) = unat (of_nat j :: uuid)" by simp
    moreover have "unat (of_nat k :: uuid) = k" if "k \<le> length used" for k
      using that assms by (simp add: unat_of_nat take_bit_nat_eq_self)
    ultimately show "i = j"
      using \<open>i \<in> _\<close> \<open>j \<in> _\<close> by auto
  qed
  then have "card (?f ` {..length used}) = Suc (length used)" by (simp add: card_image)
  moreover have "card (?f ` {..length used}) \<le> card (set used)" using sub by (intro card_mono) auto
  ultimately show False using card_length [of used] by simp
qed

interpretation mem: gorm_platform mem_platform mem_view
proof (rule gorm_platform.intro)
  show "runtime_codec mem_platform"
    by unfold_locales (auto simp: mem_platform_def split: if_splits)
next
  show "gorm_laws (pf_orders mem_platform) mem_view t_orders (\<lambda>m t. t\<lparr>t_orders := m\<rparr>) om_ID stored_order"
    by (simp add: mem_platform_def) (rule mem_table_laws; simp add: mem_view_def stored_order_def)
next
  show "gorm_laws (pf_items mem_platform) mem_view t_items (\<lambda>m t. t\<lparr>t_items := m\<rparr>) oim_ID stored_item"
    by (simp add: mem_platform_def) (rule mem_table_laws; simp add: mem_view_def stored_item_def)
next
  show "gorm_laws (pf_outbox mem_platform) mem_view t_outbox (\<lambda>m t. t\<lparr>t_outbox := m\<rparr>) oem_ID stored_outbox"
    by (simp add: mem_platform_def) (rule mem_table_laws; simp add: mem_view_def stored_outbox_def)
next
  show "gorm_laws (pf_processed mem_platform) mem_view t_processed (\<lambda>m t. t\<lparr>t_processed := m\<rparr>) pe_key
      stored_processed"
    by (simp add: mem_platform_def) (rule mem_table_laws; simp add: mem_view_def stored_processed_def)
next
  show "gorm_assign_laws (pf_idempotency mem_platform) mem_view t_idempotency
      (\<lambda>m t. t\<lparr>t_idempotency := m\<rparr>) ik_Key stored_idempotency merge_idempotency"
    by (simp add: mem_platform_def) (rule mem_assign_laws;
        simp add: mem_view_def stored_idempotency_def merge_idempotency_def nonzero_def)
next
  show "gorm_assign_laws (pf_order_views mem_platform) mem_view t_order_views
      (\<lambda>m t. t\<lparr>t_order_views := m\<rparr>) ovm_ID stored_view merge_view"
    by (simp add: mem_platform_def) (rule mem_assign_laws;
        simp add: mem_view_def stored_view_def merge_view_def nonzero_def)
next
  show "gorm_assign_laws (pf_item_views mem_platform) mem_view t_item_views
      (\<lambda>m t. t\<lparr>t_item_views := m\<rparr>) ivm_ID stored_iview merge_iview"
    by (simp add: mem_platform_def) (rule mem_assign_laws;
        simp add: mem_view_def stored_iview_def merge_iview_def nonzero_def)
next
  have len: "length (0 # mem_ids w) < 2 ^ 64" for w
    using length_mem_rows [of om_ID "m_orders w"] length_mem_rows [of oim_ID "m_items w"]
      length_mem_rows [of oem_ID "m_outbox w"] by (simp add: mem_ids_def)
  have ids: "dom (t_orders (mem_view w)) \<union> dom (t_items (mem_view w)) \<union> dom (t_outbox (mem_view w))
      = set (mem_ids w)" for w
    by (simp add: mem_view_def dom_mem_map mem_ids_def Un_assoc)
  have fresh: "fresh_from (0 # mem_ids w) 1 (0 # mem_ids w) \<notin> set (0 # mem_ids w)" for w
    by (rule fresh_from_fresh [OF len])
  show "gorm_platform_axioms mem_platform mem_view"
  proof (unfold_locales, goal_cases)
    case 1 show ?case using lex_le_total lex_le_trans
      by (auto simp: mem_platform_def total_preorder_def)
  next
    case (2 w t w') then show ?case by (auto simp: mem_platform_def mem_now_def mem_view_def)
  next
    case (3 w u w') then show ?case by (auto simp: mem_platform_def mem_uuid_def)
  next
    case (4 w u w')
    then have "u = fresh_from (0 # mem_ids w) 1 (0 # mem_ids w)"
      by (auto simp: mem_platform_def mem_uuid_def simp del: fresh_from.simps)
    with fresh [of w] show ?case by (simp only: ids) simp
  next
    case (5 body w x w') then show ?case
      by (auto simp: mem_platform_def mem_transaction_def split: prod.splits sum.splits)
  next
    case (6 body w e w')
    then obtain w2 where "run_state body w = (Inl e, w2)"
      "w' = w\<lparr>m_clock := m_clock w2, m_faults := m_faults w2\<rparr>"
      by (auto simp: mem_platform_def mem_transaction_def split: prod.splits sum.splits)
    then show ?case by (auto simp: mem_view_def)
  qed
qed

section \<open>Evaluation\<close>

text \<open>Equations that evaluate code on this platform by simplification.\<close>

named_theorems mem_eval \<open>evaluation of the in-memory platform\<close>

lemma mem_platform_sel [mem_eval]:
  "time_Now mem_platform = mem_now" "uuid_NewV7 mem_platform = mem_uuid" "uuid_New mem_platform = mem_uuid"
  "uuid_Parse mem_platform s = (if is_unary CHR ''u'' s then Inr (of_nat (length s))
     else Inl (ErrUUID ''invalid UUID format''))"
  "uuid_Rest mem_platform s = 0" "uuid_String mem_platform u = unary CHR ''u'' (unat u)"
  "time_MarshalText mem_platform t = (if t < 0 then Inl (ErrJSON ''year outside of range [0,9999]'')
     else Inr (unary CHR ''t'' (nat t)))"
  "time_UnmarshalText mem_platform s = (if is_unary CHR ''t'' s then Some (int (length s)) else None)"
  "pf_orders mem_platform = mem_table m_orders (\<lambda>xs w. w\<lparr>m_orders := xs\<rparr>) om_ID (\<lambda>r r0. r0)"
  "pf_items mem_platform = mem_table m_items (\<lambda>xs w. w\<lparr>m_items := xs\<rparr>) oim_ID (\<lambda>r r0. r0)"
  "pf_outbox mem_platform = mem_table m_outbox (\<lambda>xs w. w\<lparr>m_outbox := xs\<rparr>) oem_ID (\<lambda>r r0. r0)"
  "pf_processed mem_platform = mem_table m_processed (\<lambda>xs w. w\<lparr>m_processed := xs\<rparr>) pe_key (\<lambda>r r0. r0)"
  "pf_idempotency mem_platform =
     mem_table m_idempotency (\<lambda>xs w. w\<lparr>m_idempotency := xs\<rparr>) ik_Key merge_idempotency"
  "pf_order_views mem_platform = mem_table m_order_views (\<lambda>xs w. w\<lparr>m_order_views := xs\<rparr>) ovm_ID merge_view"
  "pf_item_views mem_platform = mem_table m_item_views (\<lambda>xs w. w\<lparr>m_item_views := xs\<rparr>) ivm_ID merge_iview"
  "pf_Transaction mem_platform = mem_transaction"
  "pf_collate mem_platform x y = lex_le (map of_char x) (map of_char y)"
  by (simp_all add: mem_platform_def)

lemma mem_run [mem_eval]:
  "run_state mem_now w = (m_clock w, w\<lparr>m_clock := m_clock w + 1\<rparr>)"
  "run_state mem_uuid w = (fresh_from (0 # mem_ids w) 1 (0 # mem_ids w), w)"
  "run_state (mem_op f) w = (case m_faults w of
     [] \<Rightarrow> f w
   | b # bs \<Rightarrow> if b then (Inl (ErrDriver ''connection refused''), w\<lparr>m_faults := bs\<rparr>)
       else f (w\<lparr>m_faults := bs\<rparr>))"
  "run_state (mem_transaction body) w = (case run_state body w of
     (Inl e, w') \<Rightarrow> (Inl e, w\<lparr>m_clock := m_clock w', m_faults := m_faults w'\<rparr>)
   | (Inr x, w') \<Rightarrow> (Inr x, w'))"
  by (simp_all add: mem_now_def mem_uuid_def mem_op_def mem_transaction_def)

lemma mem_table_sel [mem_eval]:
  "g_First (mem_table get put key merge) P = mem_op (\<lambda>w. (case filter P (mem_rows key (get w)) of
     [] \<Rightarrow> Inl GormErrRecordNotFound | r # _ \<Rightarrow> Inr r, w))"
  "g_Find (mem_table get put key merge) P = mem_op (\<lambda>w. (Inr (filter P (mem_rows key (get w))), w))"
  "g_Count (mem_table get put key merge) P =
     mem_op (\<lambda>w. (Inr (of_nat (length (filter P (mem_rows key (get w))))), w))"
  "g_Select (mem_table get put key merge) P le off lim =
     mem_op (\<lambda>w. (Inr (take (nat (sint lim)) (drop (nat (sint off))
       (sort_by le (filter P (mem_rows key (get w)))))), w))"
  "g_SelectSkipLocked (mem_table get put key merge) Q le lim =
     mem_op (\<lambda>w. (Inr (take (nat (sint lim)) (sort_by le (filter (Q (m_clock w)) (mem_rows key (get w))))), w))"
  "g_Create (mem_table get put key merge) rs = mem_op (\<lambda>w. mem_write put () (mem_insert key rs (get w)) w)"
  "g_Save (mem_table get put key merge) P r = mem_op (\<lambda>w.
     if filter (\<lambda>r0. key r0 = key r \<and> \<not> P r0) (mem_rows key (get w)) \<noteq> [] then (Inr 0, w)
     else mem_write put 1 (mem_replace key r (get w)) w)"
  "g_Updates (mem_table get put key merge) P f = mem_op (\<lambda>w. mem_write put
     (of_nat (length (filter P (mem_rows key (get w)))))
     (mem_insert key (map (\<lambda>r. if P r then f (m_clock w) r else r) (mem_rows key (get w))) []) w)"
  "g_Delete (mem_table get put key merge) P =
     mem_op (\<lambda>w. mem_write put () (Some (filter (\<lambda>r. \<not> P r) (mem_rows key (get w)))) w)"
  "g_FirstOrCreate (mem_table get put key merge) P r =
     mem_op (\<lambda>w. if filter P (mem_rows key (get w)) = []
       then mem_write put () (mem_insert key [r] (get w)) w else (Inr (), w))"
  "g_AssignFirstOrCreate (mem_table get put key merge) P r = mem_op (\<lambda>w. mem_write put ()
     (case filter P (mem_rows key (get w)) of
        [] \<Rightarrow> mem_insert key [r] (get w)
      | r0 # _ \<Rightarrow> mem_replace key (merge r r0) (get w)) w)"
  by (simp_all add: mem_table_def)

lemmas mem_defs [mem_eval] = mem_write_def mem_ids_def mem_rows_def mem_insert_def mem_replace_def
  mem_empty_def unary_def is_unary_def sort_by_def

end
