(* ===== verification/Aggregate.thy ===== *)
theory Aggregate imports Domain_Events begin

text \<open>
  The aggregate root \<^verbatim>\<open>Order\<close> (\<^verbatim>\<open>internal/domain/order/aggregate.go\<close>).  A method with a
  pointer receiver takes the order and returns the updated one; every guard of
  \<^verbatim>\<open>AddItem\<close> and \<^verbatim>\<open>Confirm\<close> comes before the first assignment, so on an error the receiver
  is the order the method was called on and only the error is returned.
\<close>

section \<open>State\<close>

record Order =
  o_id :: OrderID
  o_customerID :: CustomerID
  o_status :: OrderStatus
  o_items :: "OrderItem list"
  o_version :: go_int
  o_createdAt :: time
  o_updatedAt :: time
  o_events :: "DomainEvent list"

section \<open>Operations\<close>

definition raise_event :: "Order \<Rightarrow> DomainEvent \<Rightarrow> Order" where
  "raise_event o1 event = o1\<lparr>o_events := o_events o1 @ [event]\<rparr>"

definition NewOrder ::
  "('w, 'z) runtime_scheme \<Rightarrow> CustomerID \<Rightarrow> ('w, go_error + Order) state" where
  "NewOrder R customerID =
     (if CustomerID_IsZero customerID then ret (Inl ErrInvalidCustomerID)
      else do {
        now \<leftarrow> time_Now R;
        oid \<leftarrow> NewOrderID R;
        ev \<leftarrow> NewOrderCreated R oid customerID;
        ret (Inr (raise_event
          \<lparr>o_id = oid, o_customerID = customerID, o_status = StatusDraft, o_items = [],
           o_version = 1, o_createdAt = now, o_updatedAt = now, o_events = []\<rparr>
          (EvOrderCreated ev)))
      })"

definition ReconstructOrder ::
  "uuid \<Rightarrow> uuid \<Rightarrow> string \<Rightarrow> go_int \<Rightarrow> time \<Rightarrow> time \<Rightarrow> OrderItem list \<Rightarrow> Order" where
  "ReconstructOrder uid customerID status version createdAt updatedAt items =
     \<lparr>o_id = OrderIDFrom uid, o_customerID = NewCustomerID customerID, o_status = status,
      o_items = items, o_version = version, o_createdAt = createdAt, o_updatedAt = updatedAt,
      o_events = []\<rparr>"

definition TotalAmount :: "Order \<Rightarrow> Money" where
  "TotalAmount o1 = fold (\<lambda>item total. Money_Add total (TotalPrice item)) (o_items o1) (NewMoney 0)"

definition AddItem ::
  "('w, 'z) runtime_scheme \<Rightarrow> Order \<Rightarrow> string \<Rightarrow> string \<Rightarrow> go_int \<Rightarrow> Money
     \<Rightarrow> ('w, go_error + Order) state" where
  "AddItem R o1 productID productName quantity unitPrice =
     (if \<not> IsModifiable (o_status o1) then ret (Inl ErrOrderNotModifiable)
      else if sint quantity \<le> 0 then ret (Inl ErrInvalidQuantity)
      else if \<not> IsPositive unitPrice then ret (Inl ErrInvalidPrice)
      else do {
        item \<leftarrow> NewOrderItem R productID productName quantity unitPrice;
        now \<leftarrow> time_Now R;
        ev \<leftarrow> NewOrderItemAdded R (o_id o1) item;
        ret (Inr (raise_event (o1\<lparr>o_items := o_items o1 @ [item], o_updatedAt := now\<rparr>)
          (EvOrderItemAdded ev)))
      })"

definition Confirm :: "('w, 'z) runtime_scheme \<Rightarrow> Order \<Rightarrow> ('w, go_error + Order) state" where
  "Confirm R o1 =
     (if \<not> IsModifiable (o_status o1) then ret (Inl ErrOrderNotModifiable)
      else if o_items o1 = [] then ret (Inl ErrNoItems)
      else do {
        now \<leftarrow> time_Now R;
        let o2 = o1\<lparr>o_status := StatusConfirmed, o_updatedAt := now\<rparr>;
        ev \<leftarrow> NewOrderConfirmed R (o_id o2) (TotalAmount o2);
        ret (Inr (raise_event o2 (EvOrderConfirmed ev)))
      })"

definition IncrementVersion :: "Order \<Rightarrow> Order" where
  "IncrementVersion o1 = o1\<lparr>o_version := o_version o1 + 1\<rparr>"

definition Events :: "Order \<Rightarrow> DomainEvent list \<times> Order" where
  "Events o1 = (o_events o1, o1\<lparr>o_events := []\<rparr>)"

section \<open>Functional behaviour\<close>

lemma Amount_TotalAmount_fold:
  "Amount (fold (\<lambda>item total. Money_Add total (TotalPrice item)) is m)
     = Amount m + word_of_int (exact_total is)"
  by (induction "is" arbitrary: m)
     (simp_all add: exact_total_def Amount_TotalPrice_int algebra_simps)

lemma Amount_TotalAmount: "Amount (TotalAmount o1) = word_of_int (exact_total (o_items o1))"
  by (simp add: TotalAmount_def Amount_TotalAmount_fold)

lemma TotalAmount_cong: "o_items o1 = o_items o2 \<Longrightarrow> TotalAmount o1 = TotalAmount o2"
  by (simp add: TotalAmount_def)

lemma Amount_TotalAmount_snoc:
  "o_items o2 = o_items o1 @ [i] \<Longrightarrow>
     Amount (TotalAmount o2) = Amount (TotalAmount o1) + Amount (TotalPrice i)"
  by (simp add: Amount_TotalAmount Amount_TotalPrice_int exact_total_def)

lemma NewOrder_okE:
  assumes "run_state (NewOrder R cid) w = (Inr o1, w')"
  obtains oid now at where
    "\<not> CustomerID_IsZero cid"
    "o1 = \<lparr>o_id = oid, o_customerID = cid, o_status = StatusDraft, o_items = [], o_version = 1,
       o_createdAt = now, o_updatedAt = now,
       o_events = [EvOrderCreated \<lparr>oc_ID = OrderID_String R oid,
         oc_CustomerID = CustomerID_String R cid, oc_Status = StatusDraft, oc_OccurredAt = at\<rparr>]\<rparr>"
  using assms
  by (auto simp: NewOrder_def NewOrderID_def NewOrderCreated_def raise_event_def
      split: if_splits prod.splits)

definition added :: "('w, 'z) runtime_scheme \<Rightarrow> Order \<Rightarrow> OrderItem \<Rightarrow> time \<Rightarrow> time \<Rightarrow> Order" where
  "added R o1 item now at =
     o1\<lparr>o_items := o_items o1 @ [item], o_updatedAt := now,
        o_events := o_events o1 @ [EvOrderItemAdded \<lparr>oia_OrderID = OrderID_String R (o_id o1),
          oia_ItemID = uuid_String R (item_id item), oia_ProductID = item_productID item,
          oia_ProductName = item_productName item, oia_Quantity = item_quantity item,
          oia_UnitPrice = Amount (item_unitPrice item), oia_OccurredAt = at\<rparr>]\<rparr>"

definition confirmed :: "('w, 'z) runtime_scheme \<Rightarrow> Order \<Rightarrow> time \<Rightarrow> time \<Rightarrow> Order" where
  "confirmed R o1 now at =
     o1\<lparr>o_status := StatusConfirmed, o_updatedAt := now,
        o_events := o_events o1 @ [EvOrderConfirmed \<lparr>ocf_OrderID = OrderID_String R (o_id o1),
          ocf_TotalAmount = Amount (TotalAmount o1), ocf_OccurredAt = at\<rparr>]\<rparr>"

lemma AddItem_okE:
  assumes "run_state (AddItem R o1 pid pname q u) w = (Inr o2, w')"
  obtains item now at where
    "o_status o1 = StatusDraft" "item_ok item" "item_productID item = pid"
    "item_productName item = pname" "item_quantity item = q" "item_unitPrice item = u"
    "o2 = added R o1 item now at"
proof -
  let ?item = "\<lambda>x. \<lparr>item_id = x, item_productID = pid, item_productName = pname,
    item_quantity = q, item_unitPrice = u\<rparr>"
  from assms obtain x now at where "o2 = added R o1 (?item x) now at"
      "o_status o1 = StatusDraft" "\<not> sint q \<le> 0" "IsPositive u"
    by (auto simp: AddItem_def NewOrderItem_def NewOrderItemAdded_def raise_event_def
        IsModifiable_def added_def split: if_splits prod.splits)
  then show thesis by (intro that [of "?item x" now at]) (simp_all add: item_ok_def)
qed

lemma Confirm_okE:
  assumes "run_state (Confirm R o1) w = (Inr o2, w')"
  obtains now at where
    "o_status o1 = StatusDraft" "o_items o1 \<noteq> []" "o2 = confirmed R o1 now at"
proof -
  have "TotalAmount (o1\<lparr>o_status := StatusConfirmed, o_updatedAt := now\<rparr>) = TotalAmount o1" for now
    by (rule TotalAmount_cong) simp
  then show thesis using assms that
    by (auto simp: Confirm_def NewOrderConfirmed_def raise_event_def IsModifiable_def
        confirmed_def Let_def split: if_splits prod.splits)
qed

text \<open>The order in which \<^verbatim>\<open>AddItem\<close> checks its arguments, with every outcome.\<close>

definition AddItem_error :: "Order \<Rightarrow> go_int \<Rightarrow> Money \<Rightarrow> go_error option" where
  "AddItem_error o1 q u =
     (if o_status o1 \<noteq> StatusDraft then Some ErrOrderNotModifiable
      else if sint q \<le> 0 then Some ErrInvalidQuantity
      else if sint (Amount u) \<le> 0 then Some ErrInvalidPrice
      else None)"

definition Confirm_error :: "Order \<Rightarrow> go_error option" where
  "Confirm_error o1 =
     (if o_status o1 \<noteq> StatusDraft then Some ErrOrderNotModifiable
      else if o_items o1 = [] then Some ErrNoItems
      else None)"

lemma AddItem_fails:
  "AddItem_error o1 q u = Some e \<Longrightarrow> run_state (AddItem R o1 pid pname q u) w = (Inl e, w)"
  by (auto simp: AddItem_error_def AddItem_def IsModifiable_def IsPositive_def split: if_splits)

lemma AddItem_succeeds:
  "AddItem_error o1 q u = None \<Longrightarrow>
     \<exists>o2 w'. run_state (AddItem R o1 pid pname q u) w = (Inr o2, w')"
  by (auto simp: AddItem_error_def AddItem_def IsModifiable_def IsPositive_def
      split: if_splits prod.splits)

lemma Confirm_fails: "Confirm_error o1 = Some e \<Longrightarrow> run_state (Confirm R o1) w = (Inl e, w)"
  by (auto simp: Confirm_error_def Confirm_def IsModifiable_def split: if_splits)

lemma Confirm_succeeds:
  "Confirm_error o1 = None \<Longrightarrow> \<exists>o2 w'. run_state (Confirm R o1) w = (Inr o2, w')"
  by (auto simp: Confirm_error_def Confirm_def IsModifiable_def Let_def
      split: if_splits prod.splits)

section \<open>Reachable orders and their invariant\<close>

text \<open>
  An order in memory is created by \<^verbatim>\<open>NewOrder\<close> and changed only through its methods.
  \<open>lifecycle R drained o1\<close>: the order \<open>o1\<close> was reached through some calls, in any worlds,
  and \<open>drained\<close> are the events already collected from it by \<^verbatim>\<open>Events\<close>, in order.
\<close>

inductive lifecycle ::
  "('w, 'z) runtime_scheme \<Rightarrow> DomainEvent list \<Rightarrow> Order \<Rightarrow> bool" for R where
  new: "run_state (NewOrder R cid) w = (Inr o1, w') \<Longrightarrow> lifecycle R [] o1"
| add: "lifecycle R d o1 \<Longrightarrow> run_state (AddItem R o1 pid pname q u) w = (Inr o2, w')
     \<Longrightarrow> lifecycle R d o2"
| confirm: "lifecycle R d o1 \<Longrightarrow> run_state (Confirm R o1) w = (Inr o2, w') \<Longrightarrow> lifecycle R d o2"
| increment: "lifecycle R d o1 \<Longrightarrow> lifecycle R d (IncrementVersion o1)"
| drain: "lifecycle R d o1 \<Longrightarrow> Events o1 = (evs, o2) \<Longrightarrow> lifecycle R (d @ evs) o2"

definition order_inv :: "Order \<Rightarrow> bool" where
  "order_inv o1 \<longleftrightarrow>
     o_status o1 \<in> {StatusDraft, StatusConfirmed} \<and>
     (o_status o1 = StatusConfirmed \<longrightarrow> o_items o1 \<noteq> []) \<and>
     list_all item_ok (o_items o1) \<and>
     \<not> CustomerID_IsZero (o_customerID o1)"

lemma order_inv_added: "order_inv o1 \<Longrightarrow> item_ok i \<Longrightarrow> order_inv (added R o1 i now at)"
  by (simp add: order_inv_def added_def)

lemma order_inv_confirmed:
  "order_inv o1 \<Longrightarrow> o_items o1 \<noteq> [] \<Longrightarrow> order_inv (confirmed R o1 now at)"
  by (simp add: order_inv_def confirmed_def)

lemma lifecycle_inv: "lifecycle R d o1 \<Longrightarrow> order_inv o1"
proof (induction rule: lifecycle.induct)
  case (new cid w o1 w')
  then show ?case by (elim NewOrder_okE) (simp add: order_inv_def)
next
  case (add d o1 pid pname q u w o2 w')
  then show ?case by (auto elim!: AddItem_okE intro: order_inv_added)
next
  case (confirm d o1 w o2 w')
  then show ?case by (auto elim!: Confirm_okE intro: order_inv_confirmed)
qed (auto simp: order_inv_def IncrementVersion_def Events_def)

section \<open>Abstract specification: replaying the events\<close>

text \<open>
  What an observer of the event stream knows of an order.  \<open>apply_event\<close> is the reference
  reading of one event; \<open>order_abs\<close> abstracts the aggregate.
\<close>

record order_line =
  line_item :: string
  line_product :: string
  line_name :: string
  line_quantity :: go_int
  line_price :: int64

record order_facts =
  f_id :: string
  f_customer :: string
  f_status :: string
  f_lines :: "order_line list"
  f_total :: int64

fun apply_event :: "DomainEvent \<Rightarrow> order_facts option \<Rightarrow> order_facts option" where
  "apply_event (EvOrderCreated e) None =
     Some \<lparr>f_id = oc_ID e, f_customer = oc_CustomerID e, f_status = oc_Status e, f_lines = [],
       f_total = 0\<rparr>"
| "apply_event (EvOrderItemAdded e) (Some s) =
     (if oia_OrderID e = f_id s \<and> f_status s = StatusDraft then
        Some (s\<lparr>f_lines := f_lines s @ [\<lparr>line_item = oia_ItemID e, line_product = oia_ProductID e,
            line_name = oia_ProductName e, line_quantity = oia_Quantity e,
            line_price = oia_UnitPrice e\<rparr>],
          f_total := f_total s + oia_UnitPrice e * oia_Quantity e\<rparr>)
      else None)"
| "apply_event (EvOrderConfirmed e) (Some s) =
     (if ocf_OrderID e = f_id s \<and> f_status s = StatusDraft \<and> ocf_TotalAmount e = f_total s
      then Some (s\<lparr>f_status := StatusConfirmed\<rparr>) else None)"
| "apply_event _ _ = None"

definition replay :: "DomainEvent list \<Rightarrow> order_facts option" where
  "replay evs = fold apply_event evs None"

definition item_line :: "('w, 'z) runtime_scheme \<Rightarrow> OrderItem \<Rightarrow> order_line" where
  "item_line R i = \<lparr>line_item = uuid_String R (item_id i), line_product = item_productID i,
     line_name = item_productName i, line_quantity = item_quantity i,
     line_price = Amount (item_unitPrice i)\<rparr>"

definition order_abs :: "('w, 'z) runtime_scheme \<Rightarrow> Order \<Rightarrow> order_facts" where
  "order_abs R o1 = \<lparr>f_id = OrderID_String R (o_id o1), f_customer = CustomerID_String R (o_customerID o1),
     f_status = o_status o1, f_lines = map (item_line R) (o_items o1),
     f_total = Amount (TotalAmount o1)\<rparr>"

lemma replay_snoc: "replay (evs @ [e]) = apply_event e (replay evs)"
  by (simp add: replay_def)

lemma replay_added:
  assumes "replay (d @ o_events o1) = Some (order_abs R o1)" "o_status o1 = StatusDraft"
  shows "replay (d @ o_events (added R o1 i now at)) = Some (order_abs R (added R o1 i now at))"
proof -
  have "Amount (TotalAmount (added R o1 i now at)) = Amount (TotalAmount o1) + Amount (TotalPrice i)"
    by (rule Amount_TotalAmount_snoc) (simp add: added_def)
  then show ?thesis using assms
    by (simp add: added_def replay_snoc order_abs_def item_line_def TotalPrice_def
        flip: append_assoc)
qed

lemma replay_confirmed:
  assumes "replay (d @ o_events o1) = Some (order_abs R o1)" "o_status o1 = StatusDraft"
  shows "replay (d @ o_events (confirmed R o1 now at)) = Some (order_abs R (confirmed R o1 now at))"
proof -
  have "TotalAmount (confirmed R o1 now at) = TotalAmount o1"
    by (rule TotalAmount_cong) (simp add: confirmed_def)
  then show ?thesis using assms
    by (simp add: confirmed_def replay_snoc order_abs_def flip: append_assoc)
qed

lemma lifecycle_replay:
  "lifecycle R d o1 \<Longrightarrow> replay (d @ o_events o1) = Some (order_abs R o1)"
proof (induction rule: lifecycle.induct)
  case (new cid w o1 w')
  then show ?case
    by (elim NewOrder_okE) (simp add: replay_def order_abs_def TotalAmount_def)
next
  case (add d o1 pid pname q u w o2 w')
  then show ?case by (auto elim!: AddItem_okE intro: replay_added)
next
  case (confirm d o1 w o2 w')
  then show ?case by (auto elim!: Confirm_okE intro: replay_confirmed)
next
  case (increment d o1)
  moreover have "TotalAmount (IncrementVersion o1) = TotalAmount o1"
    by (rule TotalAmount_cong) (simp add: IncrementVersion_def)
  ultimately show ?case by (simp add: IncrementVersion_def order_abs_def)
next
  case (drain d o1 evs o2)
  moreover have "TotalAmount (o1\<lparr>o_events := []\<rparr>) = TotalAmount o1"
    by (rule TotalAmount_cong) simp
  ultimately show ?case by (auto simp: Events_def order_abs_def)
qed

lemmas aggregate_eval [go_defs] = raise_event_def NewOrder_def ReconstructOrder_def TotalAmount_def
  AddItem_def Confirm_def IncrementVersion_def Events_def

end
