(* ===== verification/Ports.thy ===== *)
theory Ports imports Aggregate Json_Codec begin

text \<open>
  The application's ports (\<^verbatim>\<open>internal/application/port/*.go\<close> and the domain's
  \<^verbatim>\<open>repository.go\<close>): each Go interface is a record of its methods, and each contract the
  application relies on is a locale over such a record.  A contract speaks of an abstract
  content of the store and of a \<open>frame\<close>, the part of the world the store leaves alone.
\<close>

section \<open>Data\<close>

record OutboxEvent =
  oe_ID :: uuid
  oe_AggregateType :: string
  oe_AggregateID :: string
  oe_EventType :: string
  oe_Payload :: json
  oe_Metadata :: json
  oe_OccurredAt :: time
  oe_AvailableAt :: time
  oe_PublishedAt :: "time option"
  oe_Status :: string
  oe_RetryCount :: go_int
  oe_LastError :: "string option"

record OrderView =
  ov_ID :: uuid
  ov_CustomerID :: uuid
  ov_Status :: string
  ov_TotalAmount :: int64
  ov_ItemCount :: go_int
  ov_CreatedAt :: time
  ov_UpdatedAt :: time

record OrderItemView =
  iv_ID :: uuid
  iv_OrderID :: uuid
  iv_ProductID :: string
  iv_ProductName :: string
  iv_Quantity :: go_int
  iv_UnitPrice :: int64
  iv_TotalPrice :: int64
  iv_CreatedAt :: time

record ListOrdersFilter =
  fl_CustomerID :: "uuid option"
  fl_Status :: "string option"
  fl_CreatedFrom :: "time option"
  fl_CreatedTo :: "time option"
  fl_SortBy :: string
  fl_SortDir :: string
  fl_Page :: go_int
  fl_PageSize :: go_int

record PaginatedOrders =
  po_Orders :: "OrderView list"
  po_TotalCount :: int64
  po_Page :: go_int
  po_PageSize :: go_int

record IdempotencyResult =
  ir_StatusCode :: go_int
  ir_ResponseBody :: "json option"

section \<open>Interfaces\<close>

text \<open>
  \<^verbatim>\<open>Save\<close> bumps the version of the order it is given, so it returns the order.  The
  closure passed to \<^verbatim>\<open>Execute\<close> returns the value of the variable it captures (the new
  order's identifier in \<^verbatim>\<open>CreateOrder\<close>, nothing elsewhere).
\<close>

record 'w Repository =
  repo_Save :: "Order \<Rightarrow> ('w, go_error + Order) state"
  repo_FindByID :: "OrderID \<Rightarrow> ('w, go_error + Order) state"

record 'w OutboxStore =
  ob_Append :: "DomainEvent list \<Rightarrow> ('w, go_error + unit) state"
  ob_FetchPending :: "go_int \<Rightarrow> ('w, go_error + OutboxEvent list) state"
  ob_MarkPublished :: "uuid \<Rightarrow> ('w, go_error + unit) state"
  ob_MarkFailed :: "uuid \<Rightarrow> string \<Rightarrow> ('w, go_error + unit) state"
  ob_RequeueFailed :: "('w, go_error + int64) state"

record 'w UnitOfWorkTx =
  tx_OrderRepo :: "'w Repository"
  tx_OutboxStore :: "'w OutboxStore"

record 'w UnitOfWork =
  uow_Execute :: "('w UnitOfWorkTx \<Rightarrow> ('w, go_error + string) state) \<Rightarrow> ('w, go_error + string) state"

record 'w ReadModelStore =
  rm_GetOrderByID :: "uuid \<Rightarrow> ('w, go_error + OrderView \<times> OrderItemView list) state"
  rm_ListOrders :: "ListOrdersFilter \<Rightarrow> ('w, go_error + PaginatedOrders) state"
  rm_UpsertOrderView :: "OrderView \<Rightarrow> ('w, go_error + unit) state"
  rm_UpsertOrderItemView :: "OrderItemView \<Rightarrow> ('w, go_error + unit) state"
  rm_UpdateOrderStatus :: "uuid \<Rightarrow> string \<Rightarrow> int64 \<Rightarrow> ('w, go_error + unit) state"

record 'w ProcessedEventStore =
  ps_IsProcessed :: "uuid \<Rightarrow> string \<Rightarrow> ('w, go_error + bool) state"
  ps_MarkProcessed :: "uuid \<Rightarrow> string \<Rightarrow> ('w, go_error + unit) state"

record 'w IdempotencyService =
  id_Check :: "string \<Rightarrow> ('w, go_error + IdempotencyResult option) state"
  id_Store :: "string \<Rightarrow> IdempotencyResult \<Rightarrow> ('w, go_error + unit) state"

type_synonym 'w EventHandler = "OutboxEvent \<Rightarrow> ('w, go_error + unit) state"

section \<open>The repository's contract\<close>

text \<open>
  What is kept of an order: everything but its timestamps and pending events; the items
  as a set, because the query that reads them has no order.
\<close>

record persisted =
  p_customer :: CustomerID
  p_status :: string
  p_version :: go_int
  p_items :: "OrderItem set"

definition persist :: "Order \<Rightarrow> persisted" where
  "persist o1 = \<lparr>p_customer = o_customerID o1, p_status = o_status o1, p_version = o_version o1,
     p_items = set (o_items o1)\<rparr>"

definition storable :: "Order \<Rightarrow> bool" where
  "storable o1 \<longleftrightarrow> o_status o1 \<noteq> '''' \<and> o_version o1 \<noteq> 0"

locale order_repository =
  fixes repo :: "'w Repository"
    and orders :: "'w \<Rightarrow> OrderID \<Rightarrow> persisted option"
    and frame :: "'w \<Rightarrow> 'f"
  assumes find_ok: "run_state (repo_FindByID repo i) w = (Inr o1, w') \<Longrightarrow>
        orders w' = orders w \<and> frame w' = frame w \<and>
        o_id o1 = i \<and> orders w i = Some (persist o1) \<and> distinct (o_items o1) \<and> o_events o1 = []"
    and find_err: "run_state (repo_FindByID repo i) w = (Inl e, w') \<Longrightarrow>
        orders w' = orders w \<and> frame w' = frame w \<and>
        (e = ErrOrderNotFound \<and> orders w i = None \<or> is_driver_error e)"
    and save_ok: "run_state (repo_Save repo o1) w = (Inr o2, w') \<Longrightarrow> storable o1 \<Longrightarrow>
        orders w' = (orders w)(o_id o1 \<mapsto> persist o1) \<and> frame w' = frame w \<and>
        distinct (o_items o1) \<and> o2 = IncrementVersion o1"
    and save_err: "run_state (repo_Save repo o1) w = (Inl e, w') \<Longrightarrow>
        e = ErrConcurrencyConflict \<or> is_driver_error e"
begin

text \<open>An order that was saved is found again, as it was saved.\<close>

lemma find_after_save:
  assumes "run_state (repo_Save repo o1) w = (Inr o2, w1)" "storable o1"
    and "run_state (repo_FindByID repo (o_id o1)) w1 = (Inr o3, w2)"
  shows "persist o3 = persist o1 \<and> o_id o3 = o_id o1"
  using save_ok [OF assms(1,2)] find_ok [OF assms(3)] by auto

lemma not_found_iff:
  assumes "run_state (repo_FindByID repo i) w = (Inl ErrOrderNotFound, w')"
  shows "orders w i = None"
  using find_err [OF assms] by simp

end

section \<open>The outbox's contract\<close>

text \<open>\<open>entry_for R e x\<close>: the outbox entry \<open>x\<close> announces the domain event \<open>e\<close>.\<close>

definition entry_for :: "('w, 'z) runtime_scheme \<Rightarrow> DomainEvent \<Rightarrow> OutboxEvent \<Rightarrow> bool" where
  "entry_for R e x \<longleftrightarrow>
     oe_AggregateType x = AggregateType e \<and> oe_AggregateID x = AggregateID e \<and>
     oe_EventType x = EventType e \<and> marshal_event R e = Inr (oe_Payload x) \<and>
     oe_Status x = ''pending'' \<and> oe_RetryCount x = 0 \<and> oe_LastError x = None \<and>
     oe_PublishedAt x = None \<and>
     oe_Metadata x = marshal_EventMetadata \<lparr>em_CorrelationID = '''', em_CausationID = '''', em_UserID = ''''\<rparr> \<and>
     (OccurredAt e \<noteq> time_zero \<longrightarrow> oe_OccurredAt x = OccurredAt e)"

locale outbox_append =
  fixes ob :: "'w OutboxStore"
    and R :: "('w, 'z) runtime_scheme"
    and outbox :: "'w \<Rightarrow> uuid \<Rightarrow> OutboxEvent option"
    and frame :: "'w \<Rightarrow> 'f"
  assumes append_ok: "run_state (ob_Append ob evs) w = (Inr u, w') \<Longrightarrow>
        frame w' = frame w \<and>
        (\<exists>xs. list_all2 (entry_for R) evs xs \<and> distinct (map oe_ID xs) \<and>
           oe_ID ` set xs \<inter> dom (outbox w) = {} \<and>
           outbox w' = outbox w ++ map_of (map (\<lambda>x. (oe_ID x, x)) xs))"
    and append_err: "run_state (ob_Append ob evs) w = (Inl e, w') \<Longrightarrow>
        (\<exists>p e'. e = ErrWrap p e' \<and> (\<exists>s. e' = ErrJSON s)) \<or> is_driver_error e"

text \<open>
  The relay's view of the outbox.  \<open>kept x y\<close>: the store holds \<open>y\<close> after \<open>x\<close> was written;
  only an instant that was zero may have been replaced by a default.
\<close>

definition kept :: "OutboxEvent \<Rightarrow> OutboxEvent \<Rightarrow> bool" where
  "kept x y \<longleftrightarrow> y\<lparr>oe_OccurredAt := oe_OccurredAt x, oe_AvailableAt := oe_AvailableAt x\<rparr> = x \<and>
     (oe_OccurredAt x \<noteq> time_zero \<longrightarrow> oe_OccurredAt y = oe_OccurredAt x) \<and>
     (oe_AvailableAt x \<noteq> time_zero \<longrightarrow> oe_AvailableAt y = oe_AvailableAt x)"

definition max_retries :: int where
  "max_retries = 10"

text \<open>The delay before the next attempt, in seconds, after the \<open>n\<close>-th failure.\<close>

definition retry_delay :: "nat \<Rightarrow> int" where
  "retry_delay n = min (2 ^ n * 2) 300"

text \<open>An entry after one more failed attempt at time \<open>now\<close>.\<close>

definition failed_once :: "string \<Rightarrow> time \<Rightarrow> OutboxEvent \<Rightarrow> OutboxEvent" where
  "failed_once msg now x =
     (let n = sint (oe_RetryCount x + 1);
          y = x\<lparr>oe_RetryCount := oe_RetryCount x + 1, oe_LastError := Some msg\<rparr>
      in if n \<ge> max_retries then y\<lparr>oe_Status := ''failed''\<rparr>
         else y\<lparr>oe_AvailableAt := now + retry_delay (nat n) * 1000000\<rparr>)"

text \<open>A count the increment does not wrap, on an entry with a status.\<close>

definition countable_entry :: "OutboxEvent \<Rightarrow> bool" where
  "countable_entry x \<longleftrightarrow> oe_Status x \<noteq> '''' \<and> 0 \<le> sint (oe_RetryCount x) \<and> sint (oe_RetryCount x) < max_int64"

text \<open>A failed attempt changes only the delivery state of an entry; it may end as failed.\<close>

definition attempted :: "string \<Rightarrow> OutboxEvent \<Rightarrow> OutboxEvent \<Rightarrow> bool" where
  "attempted msg x y \<longleftrightarrow> (\<exists>n at st. st \<in> {oe_Status x, ''failed''} \<and>
     kept (x\<lparr>oe_RetryCount := n, oe_LastError := Some msg, oe_AvailableAt := at, oe_Status := st\<rparr>) y)"

definition published_at :: "time \<Rightarrow> OutboxEvent \<Rightarrow> OutboxEvent" where
  "published_at now x = x\<lparr>oe_Status := ''published'', oe_PublishedAt := Some now\<rparr>"

definition requeued_at :: "time \<Rightarrow> OutboxEvent \<Rightarrow> OutboxEvent" where
  "requeued_at now x = x\<lparr>oe_Status := ''pending'', oe_RetryCount := 0, oe_AvailableAt := now,
     oe_LastError := None\<rparr>"

text \<open>The entries that satisfy \<open>Q\<close> were changed by \<open>g\<close>, the others are as before.\<close>

definition entries_updated ::
  "(OutboxEvent \<Rightarrow> bool) \<Rightarrow> (OutboxEvent \<Rightarrow> OutboxEvent) \<Rightarrow> (uuid \<Rightarrow> OutboxEvent option)
     \<Rightarrow> (uuid \<Rightarrow> OutboxEvent option) \<Rightarrow> bool" where
  "entries_updated Q g m m' \<longleftrightarrow>
     (\<forall>k. case m k of None \<Rightarrow> m' k = None
        | Some x \<Rightarrow> if Q x then \<exists>y. m' k = Some y \<and> kept (g x) y else m' k = Some x)"

locale outbox_store = outbox_append ob R outbox frame
  for ob :: "'w OutboxStore" and R :: "('w, 'z) runtime_scheme"
    and outbox :: "'w \<Rightarrow> uuid \<Rightarrow> OutboxEvent option" and frame :: "'w \<Rightarrow> 'f" +
  assumes outbox_key: "outbox w i = Some x \<Longrightarrow> oe_ID x = i"
    and fetch_ok: "run_state (ob_FetchPending ob n) w = (Inr xs, w') \<Longrightarrow> sint n \<ge> 0 \<Longrightarrow>
        outbox w' = outbox w \<and> frame w' = frame w \<and> distinct (map oe_ID xs) \<and>
        (\<forall>x \<in> set xs. outbox w (oe_ID x) = Some x \<and> oe_Status x = ''pending'') \<and>
        sorted (map oe_OccurredAt xs) \<and> length xs \<le> nat (sint n)"
    and fetch_err: "run_state (ob_FetchPending ob n) w = (Inl e, w') \<Longrightarrow>
        outbox w' = outbox w \<and> frame w' = frame w \<and> is_driver_error e"
    and published_ok: "run_state (ob_MarkPublished ob i) w = (Inr u, w') \<Longrightarrow>
        frame w' = frame w \<and>
        (\<exists>now. entries_updated (\<lambda>x. oe_ID x = i) (published_at now) (outbox w) (outbox w'))"
    and published_err: "run_state (ob_MarkPublished ob i) w = (Inl e, w') \<Longrightarrow>
        outbox w' = outbox w \<and> frame w' = frame w \<and> is_driver_error e"
    and failed_ok: "run_state (ob_MarkFailed ob i msg) w = (Inr u, w') \<Longrightarrow>
        frame w' = frame w \<and>
        (\<exists>x now y. outbox w i = Some x \<and> outbox w' = (outbox w)(i \<mapsto> y) \<and>
           (oe_Status x \<noteq> '''' \<longrightarrow> attempted msg x y) \<and>
           (countable_entry x \<longrightarrow> kept (failed_once msg now x) y))"
    and failed_err: "run_state (ob_MarkFailed ob i msg) w = (Inl e, w') \<Longrightarrow>
        outbox w' = outbox w \<and> frame w' = frame w"
    and requeue_ok: "run_state (ob_RequeueFailed ob) w = (Inr n, w') \<Longrightarrow>
        frame w' = frame w \<and> n = of_nat (card {k. \<exists>x. outbox w k = Some x \<and> oe_Status x = ''failed''}) \<and>
        (\<exists>now. entries_updated (\<lambda>x. oe_Status x = ''failed'') (requeued_at now) (outbox w) (outbox w'))"
    and requeue_err: "run_state (ob_RequeueFailed ob) w = (Inl e, w') \<Longrightarrow>
        outbox w' = outbox w \<and> frame w' = frame w \<and> is_driver_error e"

section \<open>The unit of work's contract\<close>

locale unit_of_work =
  runtime_codec R +
  repo: order_repository "tx_OrderRepo tx" orders rframe +
  ob: outbox_append "tx_OutboxStore tx" R outbox oframe
  for tx :: "'w UnitOfWorkTx" and R :: "('w, 'z) runtime_scheme"
    and orders :: "'w \<Rightarrow> OrderID \<Rightarrow> persisted option"
    and outbox :: "'w \<Rightarrow> uuid \<Rightarrow> OutboxEvent option"
    and rframe :: "'w \<Rightarrow> 'f" and oframe :: "'w \<Rightarrow> 'g" +
  fixes U :: "'w UnitOfWork"
    and same :: "'w \<Rightarrow> 'w \<Rightarrow> bool"
  assumes same_orders: "same w w' \<Longrightarrow> orders w' = orders w"
    and same_outbox: "same w w' \<Longrightarrow> outbox w' = outbox w"
    and rframe_outbox: "rframe w = rframe w' \<Longrightarrow> outbox w = outbox w'"
    and oframe_orders: "oframe w = oframe w' \<Longrightarrow> orders w = orders w'"
    and now_same: "run_state (time_Now R) w = (t, w') \<Longrightarrow> same w w'"
    and v7_same: "run_state (uuid_NewV7 R) w = (u, w') \<Longrightarrow> same w w'"
    and v7_new: "run_state (uuid_NewV7 R) w = (u, w') \<Longrightarrow> u \<noteq> 0 \<and> orders w (OrderID u) = None"
    and execute_ok: "run_state (uow_Execute U body) w = (Inr x, w') \<Longrightarrow>
        \<exists>w1 w2. same w w1 \<and> run_state (body tx) w1 = (Inr x, w2) \<and> same w2 w'"
    and execute_err: "run_state (uow_Execute U body) w = (Inl e, w') \<Longrightarrow>
        same w w' \<and>
        (is_driver_error e \<or> (\<exists>w1 w2. same w w1 \<and> run_state (body tx) w1 = (Inl e, w2)))"

section \<open>The read side's contracts\<close>

text \<open>
  What the read model says of an order and of one of its lines, leaving aside the
  timestamps, which the database may set.
\<close>

record view_row =
  vr_customer :: uuid
  vr_status :: string
  vr_total :: int64
  vr_count :: go_int

record line_row =
  lr_order :: uuid
  lr_product :: string
  lr_name :: string
  lr_quantity :: go_int
  lr_price :: int64
  lr_total :: int64

definition view_row_of :: "OrderView \<Rightarrow> view_row" where
  "view_row_of v = \<lparr>vr_customer = ov_CustomerID v, vr_status = ov_Status v, vr_total = ov_TotalAmount v,
     vr_count = ov_ItemCount v\<rparr>"

definition line_row_of :: "OrderItemView \<Rightarrow> line_row" where
  "line_row_of v = \<lparr>lr_order = iv_OrderID v, lr_product = iv_ProductID v, lr_name = iv_ProductName v,
     lr_quantity = iv_Quantity v, lr_price = iv_UnitPrice v, lr_total = iv_TotalPrice v\<rparr>"

text \<open>An upsert over an existing row writes only the fields that are not zero.\<close>

definition upsert_view :: "view_row \<Rightarrow> view_row option \<Rightarrow> view_row" where
  "upsert_view n old = (case old of None \<Rightarrow> n | Some r \<Rightarrow>
     \<lparr>vr_customer = nonzero 0 (vr_customer n) (vr_customer r), vr_status = nonzero '''' (vr_status n) (vr_status r),
      vr_total = nonzero 0 (vr_total n) (vr_total r), vr_count = nonzero 0 (vr_count n) (vr_count r)\<rparr>)"

definition upsert_line :: "line_row \<Rightarrow> line_row option \<Rightarrow> line_row" where
  "upsert_line n old = (case old of None \<Rightarrow> n | Some r \<Rightarrow>
     \<lparr>lr_order = nonzero 0 (lr_order n) (lr_order r), lr_product = nonzero '''' (lr_product n) (lr_product r),
      lr_name = nonzero '''' (lr_name n) (lr_name r), lr_quantity = nonzero 0 (lr_quantity n) (lr_quantity r),
      lr_price = nonzero 0 (lr_price n) (lr_price r), lr_total = nonzero 0 (lr_total n) (lr_total r)\<rparr>)"

text \<open>A status update: an empty status and a total that is not positive are left as they are.\<close>

definition restate :: "string \<Rightarrow> int64 \<Rightarrow> go_int \<Rightarrow> view_row \<Rightarrow> view_row" where
  "restate status amount n r =
     r\<lparr>vr_status := (if status \<noteq> '''' then status else vr_status r),
       vr_total := (if sint amount > 0 then amount else vr_total r), vr_count := n\<rparr>"

definition lines_of :: "(uuid \<Rightarrow> line_row option) \<Rightarrow> uuid \<Rightarrow> uuid set" where
  "lines_of m i = {k. \<exists>r. m k = Some r \<and> lr_order r = i}"

locale read_model =
  fixes rm :: "'w ReadModelStore"
    and views :: "'w \<Rightarrow> uuid \<Rightarrow> view_row option"
    and lines :: "'w \<Rightarrow> uuid \<Rightarrow> line_row option"
    and frame :: "'w \<Rightarrow> 'f"
  assumes lines_finite: "finite (dom (lines w))"
    and get_ok: "run_state (rm_GetOrderByID rm i) w = (Inr (v, is), w') \<Longrightarrow>
        views w' = views w \<and> lines w' = lines w \<and> frame w' = frame w \<and> ov_ID v = i \<and>
        views w i = Some (view_row_of v) \<and> distinct (map iv_ID is) \<and> iv_ID ` set is = lines_of (lines w) i \<and>
        (\<forall>x \<in> set is. lines w (iv_ID x) = Some (line_row_of x))"
    and get_err: "run_state (rm_GetOrderByID rm i) w = (Inl e, w') \<Longrightarrow>
        views w' = views w \<and> lines w' = lines w \<and> frame w' = frame w \<and>
        (e = ErrOrderNotFound \<and> views w i = None \<or> is_driver_error e)"
    and upsert_order_ok: "run_state (rm_UpsertOrderView rm v) w = (Inr u, w') \<Longrightarrow> ov_Status v \<noteq> '''' \<Longrightarrow>
        views w' = (views w)(ov_ID v \<mapsto> upsert_view (view_row_of v) (views w (ov_ID v))) \<and>
        lines w' = lines w \<and> frame w' = frame w"
    and upsert_order_err: "run_state (rm_UpsertOrderView rm v) w = (Inl e, w') \<Longrightarrow>
        views w' = views w \<and> lines w' = lines w \<and> frame w' = frame w \<and> is_driver_error e"
    and upsert_item_ok: "run_state (rm_UpsertOrderItemView rm x) w = (Inr u, w') \<Longrightarrow>
        lines w' = (lines w)(iv_ID x \<mapsto> upsert_line (line_row_of x) (lines w (iv_ID x))) \<and>
        views w' = views w \<and> frame w' = frame w"
    and upsert_item_err: "run_state (rm_UpsertOrderItemView rm x) w = (Inl e, w') \<Longrightarrow>
        views w' = views w \<and> lines w' = lines w \<and> frame w' = frame w \<and> is_driver_error e"
    and update_ok: "run_state (rm_UpdateOrderStatus rm i status amount) w = (Inr u, w') \<Longrightarrow>
        (\<And>r. views w i = Some r \<Longrightarrow> vr_status r \<noteq> '''') \<Longrightarrow>
        lines w' = lines w \<and> frame w' = frame w \<and>
        (\<exists>n. n \<in> {0, of_nat (card (lines_of (lines w) i))} \<and>
           views w' = (views w)(i := map_option (restate status amount n) (views w i)))"
    and update_err: "run_state (rm_UpdateOrderStatus rm i status amount) w = (Inl e, w') \<Longrightarrow>
        views w' = views w \<and> lines w' = lines w \<and> frame w' = frame w \<and> is_driver_error e"

locale processed_store =
  fixes ps :: "'w ProcessedEventStore"
    and processed :: "'w \<Rightarrow> (uuid \<times> string) set"
    and frame :: "'w \<Rightarrow> 'f"
  assumes IsProcessed_ok: "run_state (ps_IsProcessed ps i h) w = (Inr b, w') \<Longrightarrow>
        processed w' = processed w \<and> frame w' = frame w \<and> (b \<longleftrightarrow> (i, h) \<in> processed w)"
    and IsProcessed_err: "run_state (ps_IsProcessed ps i h) w = (Inl e, w') \<Longrightarrow>
        processed w' = processed w \<and> frame w' = frame w \<and> is_driver_error e"
    and MarkProcessed_ok: "run_state (ps_MarkProcessed ps i h) w = (Inr u, w') \<Longrightarrow>
        processed w' = insert (i, h) (processed w) \<and> frame w' = frame w"
    and MarkProcessed_err: "run_state (ps_MarkProcessed ps i h) w = (Inl e, w') \<Longrightarrow>
        processed w' = processed w \<and> frame w' = frame w \<and> is_driver_error e"
begin

lemma processed_after_mark:
  assumes "run_state (ps_MarkProcessed ps i h) w = (Inr u, w1)"
    and "run_state (ps_IsProcessed ps i h) w1 = (Inr b, w2)"
  shows b
  using MarkProcessed_ok [OF assms(1)] IsProcessed_ok [OF assms(2)] by simp

end

end
