(* ===== verification/Order_Repository.thy ===== *)
theory Order_Repository imports Ports Platform begin

text \<open>
  The mapper (\<^verbatim>\<open>persistence/mapper.go\<close>) and the GORM repository
  (\<^verbatim>\<open>persistence/order_repository.go\<close>).
\<close>

section \<open>Mapper\<close>

definition ToOrderModel :: "Order \<Rightarrow> OrderModel" where
  "ToOrderModel o1 =
     \<lparr>om_ID = order_uuid (o_id o1), om_CustomerID = customer_uuid (o_customerID o1),
      om_Status = o_status o1, om_TotalAmount = Amount (TotalAmount o1),
      om_Version = o_version o1, om_CreatedAt = o_createdAt o1, om_UpdatedAt = o_updatedAt o1\<rparr>"

definition ToOrderItemModel :: "Order \<Rightarrow> OrderItem \<Rightarrow> OrderItemModel" where
  "ToOrderItemModel o1 item =
     \<lparr>oim_ID = item_id item, oim_OrderID = order_uuid (o_id o1), oim_ProductID = item_productID item,
      oim_ProductName = item_productName item, oim_Quantity = item_quantity item,
      oim_UnitPrice = Amount (item_unitPrice item), oim_CreatedAt = time_zero\<rparr>"

definition ToOrderItemModels :: "Order \<Rightarrow> OrderItemModel list" where
  "ToOrderItemModels o1 = map (ToOrderItemModel o1) (o_items o1)"

definition ToDomainItem :: "OrderItemModel \<Rightarrow> OrderItem" where
  "ToDomainItem im = ReconstructOrderItem (oim_ID im) (oim_ProductID im) (oim_ProductName im)
     (oim_Quantity im) (oim_UnitPrice im)"

definition ToDomainOrder :: "OrderModel \<Rightarrow> OrderItemModel list \<Rightarrow> Order" where
  "ToDomainOrder m itemModels =
     ReconstructOrder (om_ID m) (om_CustomerID m) (om_Status m) (om_Version m) (om_CreatedAt m)
       (om_UpdatedAt m) (map ToDomainItem itemModels)"

section \<open>Repository\<close>

text \<open>
  The second half of \<^verbatim>\<open>Save\<close>: the items of the order are deleted and inserted again, then
  the version of the order in memory is bumped.
\<close>

definition GormOrderRepository_replaceItems ::
  "'w platform \<Rightarrow> Order \<Rightarrow> ('w, go_error + Order) state" where
  "GormOrderRepository_replaceItems E o1 = do {
     d \<leftarrow> g_Delete (pf_items E) (\<lambda>im. oim_OrderID im = om_ID (ToOrderModel o1));
     case d of
       Inl err \<Rightarrow> ret (Inl err)
     | Inr _ \<Rightarrow>
         if length (ToOrderItemModels o1) > 0 then do {
           r \<leftarrow> g_Create (pf_items E) (ToOrderItemModels o1);
           case r of
             Inl err \<Rightarrow> ret (Inl err)
           | Inr _ \<Rightarrow> ret (Inr (IncrementVersion o1))
         } else ret (Inr (IncrementVersion o1))
   }"

definition GormOrderRepository_Save ::
  "'w platform \<Rightarrow> Order \<Rightarrow> ('w, go_error + Order) state" where
  "GormOrderRepository_Save E o1 = (
     let model = ToOrderModel o1 in do {
       result \<leftarrow> g_Save (pf_orders E) (\<lambda>m. om_ID m = om_ID model \<and> om_Version m = om_Version model) model;
       case result of
         Inl err \<Rightarrow> ret (Inl err)
       | Inr rowsAffected \<Rightarrow>
           if rowsAffected = 0 then do {
             c \<leftarrow> g_Count (pf_orders E) (\<lambda>m. om_ID m = om_ID model);
             let count = (case c of Inl _ \<Rightarrow> 0 | Inr n \<Rightarrow> n);
             if sint count > 0 then ret (Inl ErrConcurrencyConflict)
             else do {
               r \<leftarrow> g_Create (pf_orders E) [model];
               case r of
                 Inl err \<Rightarrow> ret (Inl err)
               | Inr _ \<Rightarrow> GormOrderRepository_replaceItems E o1
             }
           } else GormOrderRepository_replaceItems E o1
     })"

definition GormOrderRepository_FindByID ::
  "'w platform \<Rightarrow> OrderID \<Rightarrow> ('w, go_error + Order) state" where
  "GormOrderRepository_FindByID E oid = do {
     r \<leftarrow> g_First (pf_orders E) (\<lambda>m. om_ID m = order_uuid oid);
     case r of
       Inl err \<Rightarrow>
         if errors_is err GormErrRecordNotFound then ret (Inl ErrOrderNotFound) else ret (Inl err)
     | Inr model \<Rightarrow> do {
         rs \<leftarrow> g_Find (pf_items E) (\<lambda>im. oim_OrderID im = om_ID model);
         case rs of
           Inl err \<Rightarrow> ret (Inl err)
         | Inr itemModels \<Rightarrow> ret (Inr (ToDomainOrder model itemModels))
       }
   }"

definition NewGormOrderRepository :: "'w platform \<Rightarrow> 'w Repository" where
  "NewGormOrderRepository E =
     \<lparr>repo_Save = GormOrderRepository_Save E, repo_FindByID = GormOrderRepository_FindByID E\<rparr>"

section \<open>Round trip through the mapper\<close>

lemma ToDomainItem_ToOrderItemModel [simp]: "ToDomainItem (ToOrderItemModel o1 i) = i"
  by (simp add: ToDomainItem_def ToOrderItemModel_def ReconstructOrderItem_def NewMoney_def)

lemma mapper_roundtrip_eq:
  "ToDomainOrder (ToOrderModel o1) (ToOrderItemModels o1) = o1\<lparr>o_events := []\<rparr>"
  by (simp add: ToDomainOrder_def ToOrderModel_def ToOrderItemModels_def ReconstructOrder_def
      OrderIDFrom_def NewCustomerID_def comp_def)

section \<open>The stored orders, abstractly\<close>

definition items_of :: "tables \<Rightarrow> uuid \<Rightarrow> OrderItem set" where
  "items_of t u = ToDomainItem ` rows_of (\<lambda>im. oim_OrderID im = u) (t_items t)"

definition stored_orders :: "tables \<Rightarrow> OrderID \<Rightarrow> persisted option" where
  "stored_orders t oid = map_option (\<lambda>m. \<lparr>p_customer = CustomerID (om_CustomerID m),
     p_status = om_Status m, p_version = om_Version m, p_items = items_of t (order_uuid oid)\<rparr>)
     (t_orders t (order_uuid oid))"

text \<open>What the repository leaves alone: every other table.\<close>

definition repo_frame :: "tables \<Rightarrow> tables" where
  "repo_frame t = t\<lparr>t_orders := Map.empty, t_items := Map.empty\<rparr>"

lemma stored_item_domain: "stored_item r r' \<Longrightarrow> ToDomainItem r' = ToDomainItem r \<and>
    oim_OrderID r' = oim_OrderID r \<and> oim_ID r' = oim_ID r"
  by (cases r; cases r') (auto simp: stored_item_def ToDomainItem_def)

lemma stored_order_fields:
  "stored_order r r' \<Longrightarrow> om_Status r \<noteq> '''' \<Longrightarrow> om_Version r \<noteq> 0 \<Longrightarrow>
     om_CustomerID r' = om_CustomerID r \<and> om_Status r' = om_Status r \<and> om_Version r' = om_Version r
     \<and> om_TotalAmount r' = om_TotalAmount r \<and> om_ID r' = om_ID r"
  by (cases r; cases r') (auto simp: stored_order_def)

lemma storable_model:
  "storable o1 \<Longrightarrow> om_Status (ToOrderModel o1) \<noteq> '''' \<and> om_Version (ToOrderModel o1) \<noteq> 0"
  by (simp add: storable_def ToOrderModel_def)

lemma ToOrderModel_ID [simp]: "om_ID (ToOrderModel o1) = order_uuid (o_id o1)"
  by (simp add: ToOrderModel_def)

lemma ToOrderItemModel_fields [simp]:
  "oim_ID (ToOrderItemModel o1 i) = item_id i" "oim_OrderID (ToOrderItemModel o1 i) = order_uuid (o_id o1)"
  by (simp_all add: ToOrderItemModel_def)

lemma stored_items_domain:
  "list_all2 stored_item (ToOrderItemModels o1) rs' \<Longrightarrow>
     map ToDomainItem rs' = o_items o1 \<and> (\<forall>r \<in> set rs'. oim_OrderID r = order_uuid (o_id o1))"
proof -
  have "list_all2 stored_item (map (ToOrderItemModel o1) is) rs' \<Longrightarrow>
     map ToDomainItem rs' = is \<and> (\<forall>r \<in> set rs'. oim_OrderID r = order_uuid (o_id o1))" for "is"
    by (induction "is" arbitrary: rs') (auto simp: list_all2_Cons1 dest!: stored_item_domain)
  then show "list_all2 stored_item (ToOrderItemModels o1) rs' \<Longrightarrow>
     map ToDomainItem rs' = o_items o1 \<and> (\<forall>r \<in> set rs'. oim_OrderID r = order_uuid (o_id o1))"
    by (simp add: ToOrderItemModels_def)
qed

section \<open>The contract holds\<close>

context gorm_platform begin

lemma FindByID_ok:
  assumes "run_state (GormOrderRepository_FindByID E i) w = (Inr o1, w')"
  shows "view w' = view w \<and> o_id o1 = i \<and> stored_orders (view w) i = Some (persist o1) \<and>
    distinct (o_items o1) \<and> o_events o1 = []"
proof -
  from assms obtain m w1 rs where
    1: "run_state (g_First (pf_orders E) (\<lambda>m. om_ID m = order_uuid i)) w = (Inr m, w1)" and
    2: "run_state (g_Find (pf_items E) (\<lambda>im. oim_OrderID im = om_ID m)) w1 = (Inr rs, w')" and
    o1: "o1 = ToDomainOrder m rs"
    by (auto simp: GormOrderRepository_FindByID_def split: prod.splits sum.splits if_splits)
  note F = orders.First_ok [OF 1] and G = items.Find_ok [OF 2]
  have "inj_on ToDomainItem (set rs)"
  proof (rule inj_onI)
    fix a b assume "a \<in> set rs" "b \<in> set rs" "ToDomainItem a = ToDomainItem b"
    moreover from this have "oim_ID a = oim_ID b"
      by (simp add: ToDomainItem_def ReconstructOrderItem_def)
    ultimately show "a = b" using G by (auto simp: distinct_map dest: inj_onD)
  qed
  then have "distinct (map ToDomainItem rs)" using G by (simp add: distinct_map)
  then show ?thesis using F G
    by (cases i) (auto simp: o1 ToDomainOrder_def ReconstructOrder_def stored_orders_def persist_def
        items_of_def OrderIDFrom_def NewCustomerID_def)
qed

lemma FindByID_err:
  assumes "run_state (GormOrderRepository_FindByID E i) w = (Inl e, w')"
  shows "view w' = view w \<and>
    (e = ErrOrderNotFound \<and> stored_orders (view w) i = None \<or> is_driver_error e)"
  using assms
  by (auto simp: GormOrderRepository_FindByID_def stored_orders_def orders.matching_key
      is_driver_error_iff split: prod.splits sum.splits if_splits
      dest!: orders.First_ok orders.First_err items.Find_err)

lemma replaceItems_ok:
  assumes "run_state (GormOrderRepository_replaceItems E o1) w = (Inr o2, w')"
  shows "o2 = IncrementVersion o1 \<and> distinct (map item_id (o_items o1)) \<and>
    (\<exists>m. view w' = (view w)\<lparr>t_items := m\<rparr>) \<and>
    items_of (view w') (order_uuid (o_id o1)) = set (o_items o1) \<and>
    (\<forall>u. u \<noteq> order_uuid (o_id o1) \<longrightarrow> items_of (view w') u = items_of (view w) u)"
proof -
  let ?P = "\<lambda>im. oim_OrderID im = order_uuid (o_id o1)"
  let ?m = "t_items (view w) |` (- matching ?P (t_items (view w)))"
  from assms obtain w1 where
    1: "run_state (g_Delete (pf_items E) ?P) w = (Inr (), w1)" and
    2: "(o_items o1 = [] \<and> w' = w1 \<or>
        run_state (g_Create (pf_items E) (ToOrderItemModels o1)) w1 = (Inr (), w')) \<and> o2 = IncrementVersion o1"
    by (auto simp: GormOrderRepository_replaceItems_def ToOrderItemModels_def
        split: prod.splits sum.splits if_splits)
  have v1: "view w1 = (view w)\<lparr>t_items := ?m\<rparr>" using items.Delete_ok [OF 1] by simp
  have ids: "map oim_ID (ToOrderItemModels o1) = map item_id (o_items o1)"
    by (simp add: ToOrderItemModels_def)
  have "\<exists>rs. view w' = (view w)\<lparr>t_items := ?m ++ map_of (map (\<lambda>r. (oim_ID r, r)) rs)\<rparr> \<and>
      list_all2 stored_item (ToOrderItemModels o1) rs \<and> distinct (map oim_ID rs) \<and>
      map oim_ID rs = map item_id (o_items o1) \<and>
      oim_ID ` set rs \<inter> dom ?m = {}"
  proof (cases "run_state (g_Create (pf_items E) (ToOrderItemModels o1)) w1 = (Inr (), w')")
    case True
    note C = items.Create_ok [OF True, simplified v1]
    from C obtain rs where
      "list_all2 stored_item (ToOrderItemModels o1) rs"
      "view w' = (view w)\<lparr>t_items := ?m ++ map_of (map (\<lambda>r. (oim_ID r, r)) rs)\<rparr>"
      by (simp add: v1) blast
    moreover from C have "distinct (map oim_ID (ToOrderItemModels o1))"
      "oim_ID ` set (ToOrderItemModels o1) \<inter> dom ?m = {}"
      by (simp_all add: v1)
    moreover from calculation(1) have keys: "map oim_ID rs = map oim_ID (ToOrderItemModels o1)"
      by (rule list_all2_key) (simp add: stored_item_domain)
    moreover from keys have "oim_ID ` set rs = oim_ID ` set (ToOrderItemModels o1)"
      by (metis set_map)
    ultimately show ?thesis by (intro exI [of _ rs]) (simp add: ids)
  next
    case False
    with 2 have none: "ToOrderItemModels o1 = []" and w': "w' = w1"
      by (auto simp: ToOrderItemModels_def)
    show ?thesis unfolding ids [symmetric] unfolding none w' v1 by (intro exI [of _ "[]"]) simp
  qed
  then obtain rs where rs: "view w' = (view w)\<lparr>t_items := ?m ++ map_of (map (\<lambda>r. (oim_ID r, r)) rs)\<rparr>"
      "list_all2 stored_item (ToOrderItemModels o1) rs" "distinct (map oim_ID rs)"
      "oim_ID ` set rs \<inter> dom ?m = {}" "map oim_ID rs = map item_id (o_items o1)" by blast
  note new = stored_items_domain [OF rs(2)]
  have all: "items_of (view w') u = ToDomainItem ` (rows_of (\<lambda>im. oim_OrderID im = u \<and> \<not> ?P im)
      (t_items (view w)) \<union> {r \<in> set rs. oim_OrderID r = u})" for u
    by (simp add: items_of_def rs(1) rows_of_insert [OF rs(3,4)] rows_of_delete)
  have "rows_of (\<lambda>im. ?P im \<and> \<not> ?P im) (t_items (view w)) = {}"
    by (simp add: rows_of_def)
  moreover have "{r \<in> set rs. ?P r} = set rs" using new by auto
  moreover have "ToDomainItem ` set rs = set (o_items o1)" using new by (metis set_map)
  ultimately have "items_of (view w') (order_uuid (o_id o1)) = set (o_items o1)"
    by (simp only: all) simp
  moreover have "items_of (view w') u = items_of (view w) u" if "u \<noteq> order_uuid (o_id o1)" for u
  proof -
    have none: "{r \<in> set rs. oim_OrderID r = u} = {}" using new that by auto
    have pred: "(\<lambda>im. oim_OrderID im = u \<and> \<not> ?P im) = (\<lambda>im. oim_OrderID im = u)"
      using that by auto
    show ?thesis unfolding all none pred by (simp add: items_of_def)
  qed
  moreover have "distinct (map item_id (o_items o1))" using rs(3,5) by simp
  ultimately show ?thesis using 2 rs(1) by blast
qed

lemma replaceItems_err:
  "run_state (GormOrderRepository_replaceItems E o1) w = (Inl e, w') \<Longrightarrow> is_driver_error e"
  by (auto simp: GormOrderRepository_replaceItems_def split: prod.splits sum.splits if_splits
      dest!: items.Delete_err items.Create_err)

text \<open>However \<^verbatim>\<open>Save\<close> stores the row (update, upsert or insert), the row is the order's.\<close>

lemma Save_row:
  assumes "run_state (GormOrderRepository_Save E o1) w = (Inr o2, w')"
  obtains r' w1 where
    "stored_order (ToOrderModel o1) r'"
    "view w1 = (view w)\<lparr>t_orders := (t_orders (view w))(order_uuid (o_id o1) \<mapsto> r')\<rparr>"
    "run_state (GormOrderRepository_replaceItems E o1) w1 = (Inr o2, w')"
proof -
  let ?S = "run_state (g_Save (pf_orders E) (\<lambda>m. om_ID m = om_ID (ToOrderModel o1) \<and>
    om_Version m = om_Version (ToOrderModel o1)) (ToOrderModel o1)) w"
  from assms obtain n w1 where S: "?S = (Inr n, w1)"
    by (auto simp: GormOrderRepository_Save_def Let_def split: prod.splits sum.splits)
  show thesis
  proof (cases "n = 0")
    case False
    then show thesis using assms S orders.Save_ok [OF S] that
      by (auto simp: GormOrderRepository_Save_def Let_def)
  next
    case True
    then have v1: "view w1 = view w" using orders.Save_ok [OF S] by auto
    from True S assms obtain c w2 w3 where
      c: "run_state (g_Count (pf_orders E) (\<lambda>m. om_ID m = om_ID (ToOrderModel o1))) w1 = (c, w2)" and
      C: "run_state (g_Create (pf_orders E) [ToOrderModel o1]) w2 = (Inr (), w3)" and
      R: "run_state (GormOrderRepository_replaceItems E o1) w3 = (Inr o2, w')"
      by (auto simp: GormOrderRepository_Save_def Let_def split: prod.splits sum.splits if_splits)
    have "view w2 = view w"
      using c v1 by (cases c) (auto dest: orders.Count_ok orders.Count_err)
    moreover from orders.Create_ok [OF C] obtain rs where
      "list_all2 stored_order [ToOrderModel o1] rs"
      "view w3 = (view w2)\<lparr>t_orders := t_orders (view w2) ++ map_of (map (\<lambda>r. (om_ID r, r)) rs)\<rparr>"
      by blast
    ultimately obtain r' where r': "stored_order (ToOrderModel o1) r'"
      "view w3 = (view w)\<lparr>t_orders := (t_orders (view w))(om_ID r' \<mapsto> r')\<rparr>"
      by (auto simp: list_all2_Cons1)
    then have "om_ID r' = order_uuid (o_id o1)" by (simp add: stored_order_def)
    with r'(2) have "view w3 = (view w)\<lparr>t_orders := (t_orders (view w))(order_uuid (o_id o1) \<mapsto> r')\<rparr>"
      by simp
    from that [OF r'(1) this R] show thesis .
  qed
qed

lemma Save_ok:
  assumes "run_state (GormOrderRepository_Save E o1) w = (Inr o2, w')" "storable o1"
  shows "stored_orders (view w') = (stored_orders (view w))(o_id o1 \<mapsto> persist o1) \<and>
    repo_frame (view w') = repo_frame (view w) \<and> distinct (map item_id (o_items o1)) \<and>
    o2 = IncrementVersion o1"
proof -
  from Save_row [OF assms(1)] obtain r' w1 where
    s: "stored_order (ToOrderModel o1) r'" and
    v1: "view w1 = (view w)\<lparr>t_orders := (t_orders (view w))(order_uuid (o_id o1) \<mapsto> r')\<rparr>" and
    R: "run_state (GormOrderRepository_replaceItems E o1) w1 = (Inr o2, w')" .
  from replaceItems_ok [OF R] obtain m where d: "distinct (map item_id (o_items o1))" and
    r: "o2 = IncrementVersion o1" "view w' = (view w1)\<lparr>t_items := m\<rparr>"
      "items_of (view w') (order_uuid (o_id o1)) = set (o_items o1)"
      "\<And>u. u \<noteq> order_uuid (o_id o1) \<Longrightarrow> items_of (view w') u = items_of (view w1) u" by blast
  have items1: "items_of (view w1) u = items_of (view w) u" for u
    by (simp add: items_of_def v1)
  have "stored_orders (view w') i = ((stored_orders (view w))(o_id o1 \<mapsto> persist o1)) i" for i
  proof (cases "i = o_id o1")
    case True
    then show ?thesis using r stored_order_fields [OF s] storable_model [OF assms(2)]
      by (simp add: stored_orders_def v1 persist_def) (simp add: ToOrderModel_def)
  next
    case False
    then have "order_uuid i \<noteq> order_uuid (o_id o1)" by (metis OrderID.exhaust_sel)
    with False show ?thesis using r items1 by (simp add: stored_orders_def v1)
  qed
  then show ?thesis using r d by (simp add: fun_eq_iff repo_frame_def v1)
qed

lemma Save_err:
  "run_state (GormOrderRepository_Save E o1) w = (Inl e, w') \<Longrightarrow>
     e = ErrConcurrencyConflict \<or> is_driver_error e"
  by (auto simp: GormOrderRepository_Save_def Let_def split: prod.splits sum.splits if_splits
      dest!: orders.Save_err orders.Create_err replaceItems_err)

text \<open>A save whose version is the stored one fails only in the database.\<close>

lemma Save_current:
  assumes "run_state (GormOrderRepository_Save E o1) w = (Inl e, w')"
    and "map_option p_version (stored_orders (view w) (o_id o1)) = Some (o_version o1)"
  shows "is_driver_error e"
proof -
  let ?P = "\<lambda>m. om_ID m = om_ID (ToOrderModel o1) \<and> om_Version m = om_Version (ToOrderModel o1)"
  from assms(2) obtain r0 where r0: "t_orders (view w) (order_uuid (o_id o1)) = Some r0" "om_Version r0 = o_version o1"
    by (auto simp: stored_orders_def)
  then have hit: "t_orders (view w) (om_ID (ToOrderModel o1)) = Some r0" "?P r0"
    using orders.table_key [OF r0(1)] by (simp_all add: ToOrderModel_def)
  obtain s w1 where S: "run_state (g_Save (pf_orders E) ?P (ToOrderModel o1)) w = (s, w1)" by fastforce
  show ?thesis
  proof (cases s)
    case (Inl e0)
    then show ?thesis using assms(1) S orders.Save_err [OF S [unfolded Inl]]
      by (auto simp: GormOrderRepository_Save_def Let_def)
  next
    case (Inr n)
    then have "n \<noteq> 0" using orders.Save_ok [OF S [unfolded Inr]] hit by auto
    then show ?thesis using assms(1) S Inr
      by (auto simp: GormOrderRepository_Save_def Let_def dest!: replaceItems_err)
  qed
qed

sublocale repo: order_repository "NewGormOrderRepository E" "\<lambda>w. stored_orders (view w)"
  "\<lambda>w. repo_frame (view w)"
  by unfold_locales
    (auto simp: NewGormOrderRepository_def distinct_map
      dest: FindByID_ok FindByID_err Save_ok Save_err)

end

lemmas repository_eval [go_defs] = ToOrderModel_def ToOrderItemModel_def ToOrderItemModels_def
  ToDomainItem_def ToDomainOrder_def GormOrderRepository_replaceItems_def GormOrderRepository_Save_def
  GormOrderRepository_FindByID_def NewGormOrderRepository_def

end
