(* ===== verification/Outbox_Store.thy ===== *)
theory Outbox_Store imports Ports Platform begin

text \<open>
  The outbox (\<^verbatim>\<open>persistence/outbox_store.go\<close>): appending domain events inside a
  transaction, and the relay's operations on the entries.
\<close>

section \<open>Operations\<close>

definition maxRetries :: int where
  "maxRetries = 10"

definition baseBackoffSecs :: int where
  "baseBackoffSecs = 2"

definition maxBackoffSecs :: int where
  "maxBackoffSecs = 300"

text \<open>One event becomes one row; marshalling errors come before the clock is read.\<close>

definition new_outbox_model :: "DomainEvent \<Rightarrow> json \<Rightarrow> time \<Rightarrow> uuid \<Rightarrow> OutboxEventModel" where
  "new_outbox_model e payload now u =
     \<lparr>oem_ID = u, oem_AggregateType = AggregateType e, oem_AggregateID = AggregateID e,
      oem_EventType = EventType e, oem_Payload = payload,
      oem_Metadata = marshal_EventMetadata \<lparr>em_CorrelationID = '''', em_CausationID = '''', em_UserID = ''''\<rparr>,
      oem_OccurredAt = OccurredAt e, oem_AvailableAt = now, oem_PublishedAt = None,
      oem_Status = ''pending'', oem_RetryCount = 0, oem_LastError = None\<rparr>"

fun append_models ::
  "'w platform \<Rightarrow> DomainEvent list \<Rightarrow> OutboxEventModel list \<Rightarrow> ('w, go_error + OutboxEventModel list) state" where
  "append_models E [] models = ret (Inr models)"
| "append_models E (e # events) models =
     (case marshal_event E e of
        Inl err \<Rightarrow> ret (Inl (ErrWrap ''marshal event payload: '' err))
      | Inr payload \<Rightarrow> do {
          now \<leftarrow> time_Now E;
          u \<leftarrow> uuid_NewV7 E;
          append_models E events (models @ [new_outbox_model e payload now u])
        })"

definition GormOutboxStore_Append :: "'w platform \<Rightarrow> DomainEvent list \<Rightarrow> ('w, go_error + unit) state" where
  "GormOutboxStore_Append E events = do {
     r \<leftarrow> append_models E events [];
     case r of
       Inl err \<Rightarrow> ret (Inl err)
     | Inr models \<Rightarrow> if length models = 0 then ret (Inr ()) else g_Create (pf_outbox E) models
   }"

definition to_port_event :: "OutboxEventModel \<Rightarrow> OutboxEvent" where
  "to_port_event m =
     \<lparr>oe_ID = oem_ID m, oe_AggregateType = oem_AggregateType m, oe_AggregateID = oem_AggregateID m,
      oe_EventType = oem_EventType m, oe_Payload = oem_Payload m, oe_Metadata = oem_Metadata m,
      oe_OccurredAt = oem_OccurredAt m, oe_AvailableAt = oem_AvailableAt m,
      oe_PublishedAt = oem_PublishedAt m, oe_Status = oem_Status m, oe_RetryCount = oem_RetryCount m,
      oe_LastError = oem_LastError m\<rparr>"

definition GormOutboxStore_FetchPending ::
  "'w platform \<Rightarrow> go_int \<Rightarrow> ('w, go_error + OutboxEvent list) state" where
  "GormOutboxStore_FetchPending E batchSize = do {
     r \<leftarrow> g_SelectSkipLocked (pf_outbox E)
       (\<lambda>now m. oem_Status m = ''pending'' \<and> oem_AvailableAt m \<le> now)
       (\<lambda>a b. oem_OccurredAt a \<le> oem_OccurredAt b) batchSize;
     case r of
       Inl err \<Rightarrow> ret (Inl err)
     | Inr models \<Rightarrow> ret (Inr (map to_port_event models))
   }"

definition GormOutboxStore_MarkPublished :: "'w platform \<Rightarrow> uuid \<Rightarrow> ('w, go_error + unit) state" where
  "GormOutboxStore_MarkPublished E i = do {
     now \<leftarrow> time_Now E;
     r \<leftarrow> g_Updates (pf_outbox E) (\<lambda>m. oem_ID m = i)
       (\<lambda>_ m. m\<lparr>oem_Status := ''published'', oem_PublishedAt := Some now\<rparr>);
     case r of Inl err \<Rightarrow> ret (Inl err) | Inr _ \<Rightarrow> ret (Inr ())
   }"

text \<open>
  The backoff in whole seconds.  \<^verbatim>\<open>math.Pow\<close> and \<^verbatim>\<open>math.Min\<close> are exact here: the retry
  count is below \<open>maxRetries\<close>, so the power fits a \<^verbatim>\<open>float64\<close>; a negative count gives a
  fraction that the conversion to \<^verbatim>\<open>time.Duration\<close> truncates.
\<close>

definition backoff_secs :: "go_int \<Rightarrow> int" where
  "backoff_secs retry =
     (if sint retry \<ge> 0 then min (2 ^ nat (sint retry) * baseBackoffSecs) maxBackoffSecs
      else baseBackoffSecs div 2 ^ nat (- sint retry))"

definition GormOutboxStore_MarkFailed ::
  "'w platform \<Rightarrow> uuid \<Rightarrow> string \<Rightarrow> ('w, go_error + unit) state" where
  "GormOutboxStore_MarkFailed E i errMsg = do {
     r \<leftarrow> g_First (pf_outbox E) (\<lambda>m. oem_ID m = i);
     case r of
       Inl err \<Rightarrow> ret (Inl err)
     | Inr model0 \<Rightarrow> do {
         let model = model0\<lparr>oem_RetryCount := oem_RetryCount model0 + 1, oem_LastError := Some errMsg\<rparr>;
         model \<leftarrow> (if sint (oem_RetryCount model) \<ge> maxRetries then ret (model\<lparr>oem_Status := ''failed''\<rparr>)
           else do {
             now \<leftarrow> time_Now E;
             ret (model\<lparr>oem_AvailableAt := now + backoff_secs (oem_RetryCount model) * 1000000\<rparr>)
           });
         s \<leftarrow> g_Save (pf_outbox E) (\<lambda>m. oem_ID m = oem_ID model) model;
         case s of Inl err \<Rightarrow> ret (Inl err) | Inr _ \<Rightarrow> ret (Inr ())
       }
   }"

definition GormOutboxStore_RequeueFailed :: "'w platform \<Rightarrow> ('w, go_error + int64) state" where
  "GormOutboxStore_RequeueFailed E = do {
     now \<leftarrow> time_Now E;
     g_Updates (pf_outbox E) (\<lambda>m. oem_Status m = ''failed'')
       (\<lambda>_ m. m\<lparr>oem_Status := ''pending'', oem_RetryCount := 0, oem_AvailableAt := now, oem_LastError := None\<rparr>)
   }"

definition NewGormOutboxStore :: "'w platform \<Rightarrow> 'w OutboxStore" where
  "NewGormOutboxStore E =
     \<lparr>ob_Append = GormOutboxStore_Append E, ob_FetchPending = GormOutboxStore_FetchPending E,
      ob_MarkPublished = GormOutboxStore_MarkPublished E, ob_MarkFailed = GormOutboxStore_MarkFailed E,
      ob_RequeueFailed = GormOutboxStore_RequeueFailed E\<rparr>"

section \<open>The entries, abstractly\<close>

definition stored_events :: "tables \<Rightarrow> uuid \<Rightarrow> OutboxEvent option" where
  "stored_events t u = map_option to_port_event (t_outbox t u)"

definition outbox_frame :: "tables \<Rightarrow> tables" where
  "outbox_frame t = t\<lparr>t_outbox := Map.empty\<rparr>"

lemma outbox_frame_put [simp]: "outbox_frame (t\<lparr>t_outbox := m\<rparr>) = outbox_frame t"
  by (simp add: outbox_frame_def)

lemma to_port_event_sel [simp]:
  "oe_ID (to_port_event m) = oem_ID m" "oe_Status (to_port_event m) = oem_Status m"
  "oe_RetryCount (to_port_event m) = oem_RetryCount m" "oe_OccurredAt (to_port_event m) = oem_OccurredAt m"
  "oe_AvailableAt (to_port_event m) = oem_AvailableAt m"
  by (simp_all add: to_port_event_def)

lemma stored_events_add:
  assumes "t' = t\<lparr>t_outbox := t_outbox t ++ map_of (map (\<lambda>r. (oem_ID r, r)) rs)\<rparr>"
  shows "stored_events t' =
    stored_events t ++ map_of (map (\<lambda>x. (oe_ID x, x)) (map to_port_event rs))"
proof (rule ext)
  fix u
  have "map_option to_port_event (map_of (map (\<lambda>r. (oem_ID r, r)) rs) u) =
      map_of (map (\<lambda>x. (oe_ID x, x)) (map to_port_event rs)) u"
    by (induction rs) auto
  then show "stored_events t' u =
      (stored_events t ++ map_of (map (\<lambda>x. (oe_ID x, x)) (map to_port_event rs))) u"
    unfolding assms stored_events_def
    by (auto simp: map_add_def split: option.splits)
qed

text \<open>What GORM may change of a row it stores is what \<open>kept\<close> allows.\<close>

lemma kept_stored: "stored_outbox r r' \<Longrightarrow> oem_Status r \<noteq> '''' \<Longrightarrow> kept (to_port_event r) (to_port_event r')"
  by (cases r; cases r') (auto simp: stored_outbox_def kept_def to_port_event_def)

lemma stored_outbox_ID: "stored_outbox r r' \<Longrightarrow> oem_ID r' = oem_ID r"
  by (simp add: stored_outbox_def)

lemma entry_for_kept: "entry_for R e x \<Longrightarrow> kept x y \<Longrightarrow> oe_OccurredAt x = OccurredAt e \<Longrightarrow> entry_for R e y"
  by (cases x; cases y) (simp add: entry_for_def kept_def)

section \<open>The contract holds\<close>

context gorm_platform begin

lemma append_models_ok:
  "run_state (append_models E evs ms) w = (Inr ms', w') \<Longrightarrow>
     view w' = view w \<and>
     (\<exists>new. ms' = ms @ new \<and> list_all2 (\<lambda>e m. entry_for E e (to_port_event m) \<and>
        oem_Status m \<noteq> '''' \<and> oem_OccurredAt m = OccurredAt e) evs new)"
proof (induction evs arbitrary: ms w)
  case (Cons e evs)
  from Cons.prems obtain j now w1 u w2 where
    j: "marshal_event E e = Inr j" and "run_state (time_Now E) w = (now, w1)"
    "run_state (uuid_NewV7 E) w1 = (u, w2)" and
    rest: "run_state (append_models E evs (ms @ [new_outbox_model e j now u])) w2 = (Inr ms', w')"
    by (auto split: sum.splits prod.splits)
  let ?m = "new_outbox_model e j now u"
  have m: "entry_for E e (to_port_event ?m)" "oem_Status ?m \<noteq> ''''" "oem_OccurredAt ?m = OccurredAt e"
    using j by (simp_all add: entry_for_def to_port_event_def new_outbox_model_def)
  have "view w2 = view w"
    using now_pure v7_pure \<open>run_state (time_Now E) w = _\<close> \<open>run_state (uuid_NewV7 E) w1 = _\<close> by metis
  moreover from Cons.IH [OF rest] obtain new where "view w' = view w2" "ms' = (ms @ [?m]) @ new"
    "list_all2 (\<lambda>e m. entry_for E e (to_port_event m) \<and> oem_Status m \<noteq> '''' \<and>
       oem_OccurredAt m = OccurredAt e) evs new" by blast
  ultimately show ?case by (intro conjI exI [of _ "?m # new"]) (simp_all add: m)
qed simp

lemma append_models_err:
  "run_state (append_models E evs ms) w = (Inl e, w') \<Longrightarrow>
     view w' = view w \<and> (\<exists>s. e = ErrWrap ''marshal event payload: '' (ErrJSON s))"
  by (induction evs arbitrary: ms w)
     (auto split: sum.splits prod.splits dest!: marshal_event_error, (metis now_pure v7_pure)+)

lemma Append_ok:
  assumes "run_state (GormOutboxStore_Append E evs) w = (Inr u, w')"
  shows "outbox_frame (view w') = outbox_frame (view w) \<and>
    (\<exists>xs. list_all2 (entry_for E) evs xs \<and> distinct (map oe_ID xs) \<and>
       oe_ID ` set xs \<inter> dom (stored_events (view w)) = {} \<and>
       stored_events (view w') = stored_events (view w) ++ map_of (map (\<lambda>x. (oe_ID x, x)) xs))"
proof -
  from assms obtain ms w1 where A: "run_state (append_models E evs []) w = (Inr ms, w1)" and
    C: "ms = [] \<and> w' = w1 \<or> run_state (g_Create (pf_outbox E) ms) w1 = (Inr (), w')"
    by (auto simp: GormOutboxStore_Append_def split: prod.splits sum.splits if_splits)
  from append_models_ok [OF A] have v1: "view w1 = view w" and
    ms: "list_all2 (\<lambda>e m. entry_for E e (to_port_event m) \<and> oem_Status m \<noteq> '''' \<and>
       oem_OccurredAt m = OccurredAt e) evs ms" by auto
  show ?thesis
  proof (cases "run_state (g_Create (pf_outbox E) ms) w1 = (Inr (), w')")
    case True
    from outbox.Create_ok [OF True] obtain rs where c: "distinct (map oem_ID ms)"
      "oem_ID ` set ms \<inter> dom (t_outbox (view w)) = {}" "list_all2 stored_outbox ms rs"
      "view w' = (view w)\<lparr>t_outbox := t_outbox (view w) ++ map_of (map (\<lambda>r. (oem_ID r, r)) rs)\<rparr>"
      unfolding v1 by blast
    have keys: "map oem_ID rs = map oem_ID ms"
      using c(3) stored_outbox_ID by (rule list_all2_key)
    then have dom: "oem_ID ` set rs = oem_ID ` set ms" by (metis set_map)
    have "list_all2 (\<lambda>e r. entry_for E e (to_port_event r)) evs rs"
      using ms c(3) by (rule list_all2_trans [rotated 1]) (auto intro: entry_for_kept kept_stored)
    then have "list_all2 (entry_for E) evs (map to_port_event rs)" by (simp add: list_all2_conv_all_nth)
    moreover have "distinct (map oe_ID (map to_port_event rs))"
      using c(1) keys by (simp add: comp_def)
    moreover have "oe_ID ` set (map to_port_event rs) \<inter> dom (stored_events (view w)) = {}"
      using c(2) dom by (auto simp: stored_events_def image_image dom_def)
    ultimately show ?thesis using stored_events_add [OF c(4)] c(4)
      by (intro conjI exI [of _ "map to_port_event rs"]) (auto simp del: map_map)
  next
    case False
    with C have "ms = []" "w' = w1" by auto
    with ms v1 show ?thesis by (intro conjI exI [of _ "[]"]) simp_all
  qed
qed

lemma Append_err:
  "run_state (GormOutboxStore_Append E evs) w = (Inl e, w') \<Longrightarrow>
     (\<exists>p e'. e = ErrWrap p e' \<and> (\<exists>s. e' = ErrJSON s)) \<or> is_driver_error e"
  by (auto simp: GormOutboxStore_Append_def split: prod.splits sum.splits if_splits
      dest!: append_models_err outbox.Create_err)

lemma FetchPending_ok:
  assumes "run_state (GormOutboxStore_FetchPending E n) w = (Inr xs, w')" "sint n \<ge> 0"
  shows "view w' = view w \<and> distinct (map oe_ID xs) \<and>
    (\<forall>x \<in> set xs. stored_events (view w) (oe_ID x) = Some x \<and> oe_Status x = ''pending'') \<and>
    sorted (map oe_OccurredAt xs) \<and> length xs \<le> nat (sint n)"
proof -
  from assms(1) obtain ms where S: "run_state (g_SelectSkipLocked (pf_outbox E)
       (\<lambda>now m. oem_Status m = ''pending'' \<and> oem_AvailableAt m \<le> now)
       (\<lambda>a b. oem_OccurredAt a \<le> oem_OccurredAt b) n) w = (Inr ms, w')" and
    xs: "xs = map to_port_event ms"
    by (auto simp: GormOutboxStore_FetchPending_def split: prod.splits sum.splits)
  have "total_preorder (\<lambda>a b. oem_OccurredAt a \<le> oem_OccurredAt b)"
    by (auto simp: total_preorder_def)
  from outbox.SelectSkipLocked_ok [OF S assms(2) this] obtain now where
    F: "view w' = view w" "set ms \<subseteq> rows_of (\<lambda>m. oem_Status m = ''pending'' \<and> oem_AvailableAt m \<le> now)
      (t_outbox (view w))" "distinct (map oem_ID ms)"
      "sorted_wrt (\<lambda>a b. oem_OccurredAt a \<le> oem_OccurredAt b) ms" "length ms \<le> nat (sint n)" by blast
  have "stored_events (view w) (oem_ID m) = Some (to_port_event m) \<and> oem_Status m = ''pending''"
    if "m \<in> set ms" for m
    using F(2) that outbox.table_key by (fastforce simp: rows_of_def stored_events_def)
  then show ?thesis using F by (simp add: xs comp_def sorted_map)
qed

lemma FetchPending_err:
  "run_state (GormOutboxStore_FetchPending E n) w = (Inl e, w') \<Longrightarrow> view w' = view w \<and> is_driver_error e"
  by (auto simp: GormOutboxStore_FetchPending_def split: prod.splits sum.splits
      dest!: outbox.SelectSkipLocked_err)

text \<open>How an update of the table shows in the entries.\<close>

lemma stored_events_updated:
  assumes "updated stored_outbox P f (t_outbox (view w)) m'" "view w' = (view w)\<lparr>t_outbox := m'\<rparr>"
    and f: "\<And>m. oem_Status (f m) \<noteq> ''''" "\<And>m. to_port_event (f m) = g (to_port_event m)"
    and P: "\<And>m. P m = Q (to_port_event m)"
  shows "entries_updated Q g (stored_events (view w)) (stored_events (view w'))"
  unfolding entries_updated_def
proof
  fix k
  show "case stored_events (view w) k of None \<Rightarrow> stored_events (view w') k = None
    | Some x \<Rightarrow> if Q x then \<exists>y. stored_events (view w') k = Some y \<and> kept (g x) y
               else stored_events (view w') k = Some x"
  proof (cases "t_outbox (view w) k")
    case (Some m)
    show ?thesis
    proof (cases "P m")
      case True
      with updated_hit [OF assms(1) Some] obtain r where "m' k = Some r" "stored_outbox (f m) r" by blast
      then show ?thesis using True Some f kept_stored [of "f m" r]
        by (simp add: stored_events_def assms(2) P)
    next
      case False
      with updated_other [OF assms(1) Some] Some show ?thesis by (simp add: stored_events_def assms(2) P)
    qed
  next
    case None
    with updated_None [OF assms(1)] show ?thesis by (simp add: stored_events_def assms(2))
  qed
qed

lemma MarkPublished_ok:
  assumes "run_state (GormOutboxStore_MarkPublished E i) w = (Inr u, w')"
  shows "outbox_frame (view w') = outbox_frame (view w) \<and>
    (\<exists>now. entries_updated (\<lambda>x. oe_ID x = i) (published_at now) (stored_events (view w)) (stored_events (view w')))"
proof -
  from assms obtain now w1 n where
    N: "run_state (time_Now E) w = (now, w1)" and
    U: "run_state (g_Updates (pf_outbox E) (\<lambda>m. oem_ID m = i)
       (\<lambda>_ m. m\<lparr>oem_Status := ''published'', oem_PublishedAt := Some now\<rparr>)) w1 = (Inr n, w')"
    by (auto simp: GormOutboxStore_MarkPublished_def split: prod.splits sum.splits)
  have v1: "view w1 = view w" using N by (rule now_pure)
  from outbox.Updates_ok [OF U] obtain m' where m':
    "updated stored_outbox (\<lambda>m. oem_ID m = i) (\<lambda>m. m\<lparr>oem_Status := ''published'', oem_PublishedAt := Some now\<rparr>)
       (t_outbox (view w)) m'" "view w' = (view w)\<lparr>t_outbox := m'\<rparr>"
    by (auto simp: v1)
  show ?thesis using stored_events_updated [OF m', of "published_at now" "\<lambda>x. oe_ID x = i"] m'(2)
    by (auto simp: published_at_def to_port_event_def)
qed

lemma MarkPublished_err:
  "run_state (GormOutboxStore_MarkPublished E i) w = (Inl e, w') \<Longrightarrow> view w' = view w \<and> is_driver_error e"
  by (auto simp: GormOutboxStore_MarkPublished_def split: prod.splits sum.splits
      dest!: outbox.Updates_err now_pure)

lemma RequeueFailed_ok:
  assumes "run_state (GormOutboxStore_RequeueFailed E) w = (Inr n, w')"
  shows "outbox_frame (view w') = outbox_frame (view w) \<and>
    n = of_nat (card {k. \<exists>x. stored_events (view w) k = Some x \<and> oe_Status x = ''failed''}) \<and>
    (\<exists>now. entries_updated (\<lambda>x. oe_Status x = ''failed'') (requeued_at now)
       (stored_events (view w)) (stored_events (view w')))"
proof -
  let ?f = "\<lambda>now m. m\<lparr>oem_Status := ''pending'', oem_RetryCount := 0, oem_AvailableAt := now, oem_LastError := None\<rparr>"
  from assms obtain now w1 where
    N: "run_state (time_Now E) w = (now, w1)" and
    U: "run_state (g_Updates (pf_outbox E) (\<lambda>m. oem_Status m = ''failed'') (\<lambda>_. ?f now)) w1 = (Inr n, w')"
    by (auto simp: GormOutboxStore_RequeueFailed_def split: prod.splits sum.splits)
  have v1: "view w1 = view w" using N by (rule now_pure)
  from outbox.Updates_ok [OF U] obtain m' where m':
    "updated stored_outbox (\<lambda>m. oem_Status m = ''failed'') (?f now) (t_outbox (view w)) m'"
    "view w' = (view w)\<lparr>t_outbox := m'\<rparr>" and
    n: "n = of_nat (card (matching (\<lambda>m. oem_Status m = ''failed'') (t_outbox (view w))))"
    by (auto simp: v1)
  have "{k. \<exists>x. stored_events (view w) k = Some x \<and> oe_Status x = ''failed''} =
      matching (\<lambda>m. oem_Status m = ''failed'') (t_outbox (view w))"
    by (auto simp: stored_events_def matching_def)
  then show ?thesis using stored_events_updated [OF m', of "requeued_at now" "\<lambda>x. oe_Status x = ''failed''"] m'(2) n
    by (auto simp: requeued_at_def to_port_event_def)
qed

lemma RequeueFailed_err:
  "run_state (GormOutboxStore_RequeueFailed E) w = (Inl e, w') \<Longrightarrow> view w' = view w \<and> is_driver_error e"
  by (auto simp: GormOutboxStore_RequeueFailed_def split: prod.splits sum.splits
      dest!: outbox.Updates_err now_pure)

text \<open>The backoff of the code is the contract's delay.\<close>

lemma backoff_secs_delay: "sint r \<ge> 0 \<Longrightarrow> backoff_secs r = retry_delay (nat (sint r))"
  by (simp add: backoff_secs_def retry_delay_def baseBackoffSecs_def maxBackoffSecs_def)

text \<open>The row \<^verbatim>\<open>MarkFailed\<close> saves.\<close>

lemma MarkFailed_row:
  assumes "run_state (GormOutboxStore_MarkFailed E i msg) w = (Inr u, w')"
  obtains m now m' w1 n where "view w1 = view w" "t_outbox (view w) i = Some m" "oem_ID m = i"
    "oem_ID m' = i"
    "oem_Status m \<noteq> '''' \<longrightarrow> oem_Status m' \<noteq> '''' \<and> (\<exists>c at st. st \<in> {oem_Status m, ''failed''} \<and> to_port_event m' = (to_port_event m)
        \<lparr>oe_RetryCount := c, oe_LastError := Some msg, oe_AvailableAt := at, oe_Status := st\<rparr>)"
    "countable_entry (to_port_event m) \<longrightarrow> to_port_event m' = failed_once msg now (to_port_event m)
        \<and> oem_Status m' \<noteq> ''''"
    "sint (oem_RetryCount m + 1) < maxRetries \<longrightarrow> (\<exists>wa wb.
        run_state (g_First (pf_outbox E) (\<lambda>m. oem_ID m = i)) w = (Inr m, wa) \<and> run_state (time_Now E) wa = (now, wb))"
    "run_state (g_Save (pf_outbox E) (\<lambda>r. oem_ID r = i) m') w1 = (Inr n, w')"
proof -
  from assms obtain m w1 where
    F: "run_state (g_First (pf_outbox E) (\<lambda>m. oem_ID m = i)) w = (Inr m, w1)"
    by (auto simp: GormOutboxStore_MarkFailed_def split: prod.splits sum.splits)
  let ?m1 = "m\<lparr>oem_RetryCount := oem_RetryCount m + 1, oem_LastError := Some msg\<rparr>"
  have v1: "view w1 = view w" "t_outbox (view w) i = Some m" "oem_ID m = i"
    using outbox.First_ok [OF F] by auto
  have next_count: "countable_entry (to_port_event m) \<Longrightarrow>
      sint (oem_RetryCount m + 1) = sint (oem_RetryCount m) + 1"
    by (subst sint_add_exact) (simp_all add: countable_entry_def)
  have shape: "to_port_event (?m1\<lparr>oem_Status := st\<rparr>) = (to_port_event m)\<lparr>oe_RetryCount := oem_RetryCount m + 1,
      oe_LastError := Some msg, oe_AvailableAt := oem_AvailableAt m, oe_Status := st\<rparr>"
    "to_port_event (?m1\<lparr>oem_AvailableAt := t\<rparr>) = (to_port_event m)\<lparr>oe_RetryCount := oem_RetryCount m + 1,
      oe_LastError := Some msg, oe_AvailableAt := t, oe_Status := oem_Status m\<rparr>" for st t
    by (simp_all add: to_port_event_def)
  show thesis
  proof (cases "sint (oem_RetryCount ?m1) \<ge> maxRetries")
    case True
    with assms F obtain n where
      "run_state (g_Save (pf_outbox E) (\<lambda>r. oem_ID r = i) (?m1\<lparr>oem_Status := ''failed''\<rparr>)) w1 = (Inr n, w')"
      by (auto simp: GormOutboxStore_MarkFailed_def Let_def v1(3) split: prod.splits sum.splits)
    with True v1 show thesis
      using shape(1) [of "''failed''"]
      by (intro that [where m' = "?m1\<lparr>oem_Status := ''failed''\<rparr>" and m = m])
        (blast | auto simp: failed_once_def to_port_event_def maxRetries_def max_retries_def)+
  next
    case False
    with assms F obtain now w2 n where N: "run_state (time_Now E) w1 = (now, w2)" and
      "run_state (g_Save (pf_outbox E) (\<lambda>r. oem_ID r = i)
        (?m1\<lparr>oem_AvailableAt := now + backoff_secs (oem_RetryCount ?m1) * 1000000\<rparr>)) w2 = (Inr n, w')"
      by (auto simp: GormOutboxStore_MarkFailed_def Let_def v1(3) split: prod.splits sum.splits)
    moreover from now_pure [OF N] v1 have "view w2 = view w" by simp
    moreover have "countable_entry (to_port_event m) \<Longrightarrow>
        to_port_event (?m1\<lparr>oem_AvailableAt := now + backoff_secs (oem_RetryCount ?m1) * 1000000\<rparr>)
          = failed_once msg now (to_port_event m)"
      using False next_count backoff_secs_delay
      by (auto simp: failed_once_def to_port_event_def maxRetries_def max_retries_def countable_entry_def)
    moreover have "countable_entry (to_port_event m) \<Longrightarrow> oem_Status m \<noteq> ''''"
      by (simp add: countable_entry_def)
    moreover have "oem_Status m \<noteq> '''' \<longrightarrow>
        oem_Status (?m1\<lparr>oem_AvailableAt := now + backoff_secs (oem_RetryCount ?m1) * 1000000\<rparr>) \<noteq> '''' \<and>
        (\<exists>c at st. st \<in> {oem_Status m, ''failed''} \<and> to_port_event (?m1\<lparr>oem_AvailableAt := now + backoff_secs (oem_RetryCount ?m1) * 1000000\<rparr>)
          = (to_port_event m)\<lparr>oe_RetryCount := c, oe_LastError := Some msg, oe_AvailableAt := at, oe_Status := st\<rparr>)"
      using shape(2) by auto
    moreover have "run_state (g_First (pf_outbox E) (\<lambda>m. oem_ID m = i)) w = (Inr m, w1)" by (rule F)
    ultimately show thesis using v1
      by (intro that [where m' = "?m1\<lparr>oem_AvailableAt := now + backoff_secs (oem_RetryCount ?m1) * 1000000\<rparr>"
            and now = now and n = n and m = m]) auto
  qed
qed

lemma MarkFailed_ok:
  assumes "run_state (GormOutboxStore_MarkFailed E i msg) w = (Inr u, w')"
  shows "outbox_frame (view w') = outbox_frame (view w) \<and>
    (\<exists>x now y. stored_events (view w) i = Some x \<and>
       stored_events (view w') = (stored_events (view w))(i \<mapsto> y) \<and>
       (oe_Status x \<noteq> '''' \<longrightarrow> attempted msg x y) \<and>
       (countable_entry x \<longrightarrow> kept (failed_once msg now x) y) \<and>
       (sint (oe_RetryCount x + 1) < maxRetries \<longrightarrow> (\<exists>m wa wb.
          run_state (g_First (pf_outbox E) (\<lambda>m. oem_ID m = i)) w = (Inr m, wa) \<and>
          run_state (time_Now E) wa = (now, wb))))"
proof -
  from MarkFailed_row [OF assms] obtain m now m' w1 n where v1: "view w1 = view w" and
    m: "t_outbox (view w) i = Some m" "oem_ID m = i" "oem_ID m' = i" and
    shape: "oem_Status m \<noteq> '''' \<longrightarrow> oem_Status m' \<noteq> '''' \<and> (\<exists>c at st. st \<in> {oem_Status m, ''failed''} \<and> to_port_event m' = (to_port_event m)
        \<lparr>oe_RetryCount := c, oe_LastError := Some msg, oe_AvailableAt := at, oe_Status := st\<rparr>)" and
    step: "countable_entry (to_port_event m) \<longrightarrow> to_port_event m' = failed_once msg now (to_port_event m)
        \<and> oem_Status m' \<noteq> ''''" and
    clock: "sint (oem_RetryCount m + 1) < maxRetries \<longrightarrow> (\<exists>wa wb.
        run_state (g_First (pf_outbox E) (\<lambda>m. oem_ID m = i)) w = (Inr m, wa) \<and> run_state (time_Now E) wa = (now, wb))" and
    S: "run_state (g_Save (pf_outbox E) (\<lambda>r. oem_ID r = i) m') w1 = (Inr n, w')" .
  have to_status: "oe_Status (to_port_event m) = oem_Status m" by (simp add: to_port_event_def)
  from outbox.Save_ok [OF S] m obtain r where r: "stored_outbox m' r"
    "view w' = (view w)\<lparr>t_outbox := (t_outbox (view w))(i \<mapsto> r)\<rparr>"
    by (auto simp: v1)
  have "stored_events (view w') = (stored_events (view w))(i \<mapsto> to_port_event r)"
    by (auto simp: r(2) stored_events_def)
  moreover have "countable_entry (to_port_event m) \<longrightarrow>
      kept (failed_once msg now (to_port_event m)) (to_port_event r)"
    using step r(1) by (metis kept_stored)
  moreover have "oem_Status m \<noteq> '''' \<longrightarrow> attempted msg (to_port_event m) (to_port_event r)"
    unfolding attempted_def to_status using shape r(1) by (metis kept_stored)
  moreover have "oe_RetryCount (to_port_event m) = oem_RetryCount m" by (simp add: to_port_event_def)
  ultimately show ?thesis using m(1) r(2) clock
    by (intro conjI exI [of _ "to_port_event m"] exI [of _ now] exI [of _ "to_port_event r"])
      (auto simp: stored_events_def)
qed

lemma MarkFailed_err:
  "run_state (GormOutboxStore_MarkFailed E i msg) w = (Inl e, w') \<Longrightarrow> view w' = view w"
  by (auto simp: GormOutboxStore_MarkFailed_def Let_def split: prod.splits sum.splits if_splits
      dest!: outbox.First_err outbox.First_ok outbox.Save_err now_pure)

sublocale ob: outbox_store "NewGormOutboxStore E" E "\<lambda>w. stored_events (view w)"
  "\<lambda>w. outbox_frame (view w)"
proof (unfold_locales, goal_cases)
  case (3 w i x) then show ?case using outbox.table_key by (auto simp: stored_events_def)
next
  case (8 i msg w u w') then show ?case using MarkFailed_ok [of i msg w u w'] by (simp add: NewGormOutboxStore_def) blast
next
  case 9 then show ?case by (auto simp: NewGormOutboxStore_def dest: MarkFailed_err)
next
  case (10 w n w') then show ?case using RequeueFailed_ok [of w n w'] by (simp add: NewGormOutboxStore_def)
qed (auto simp: NewGormOutboxStore_def dest: Append_ok Append_err FetchPending_ok FetchPending_err
      MarkPublished_ok MarkPublished_err MarkFailed_ok RequeueFailed_ok RequeueFailed_err)

end

lemmas outbox_eval [go_defs] = maxRetries_def baseBackoffSecs_def maxBackoffSecs_def new_outbox_model_def
  GormOutboxStore_Append_def to_port_event_def GormOutboxStore_FetchPending_def
  GormOutboxStore_MarkPublished_def backoff_secs_def GormOutboxStore_MarkFailed_def
  GormOutboxStore_RequeueFailed_def NewGormOutboxStore_def

end
