(* ===== verification/Unit_Of_Work.thy ===== *)
theory Unit_Of_Work imports Order_Repository Outbox_Store begin

text \<open>
  The unit of work (\<^verbatim>\<open>persistence/unit_of_work.go\<close>): the repository and the outbox scoped to
  one database transaction.
\<close>

definition gormUnitOfWorkTx :: "'w platform \<Rightarrow> 'w UnitOfWorkTx" where
  "gormUnitOfWorkTx E =
     \<lparr>tx_OrderRepo = NewGormOrderRepository E, tx_OutboxStore = NewGormOutboxStore E\<rparr>"

definition GormUnitOfWork_Execute ::
  "'w platform \<Rightarrow> ('w UnitOfWorkTx \<Rightarrow> ('w, go_error + string) state) \<Rightarrow> ('w, go_error + string) state" where
  "GormUnitOfWork_Execute E fn = pf_Transaction E (fn (gormUnitOfWorkTx E))"

definition NewGormUnitOfWork :: "'w platform \<Rightarrow> 'w UnitOfWork" where
  "NewGormUnitOfWork E = \<lparr>uow_Execute = GormUnitOfWork_Execute E\<rparr>"

lemma repo_frame_outbox: "repo_frame t = repo_frame t' \<Longrightarrow> t_outbox t = t_outbox t'"
  by (cases t; cases t') (simp add: repo_frame_def)

lemma outbox_frame_orders:
  "outbox_frame t = outbox_frame t' \<Longrightarrow> t_orders t = t_orders t' \<and> t_items t = t_items t'"
  by (cases t; cases t') (simp add: outbox_frame_def)

context gorm_platform begin

sublocale uow: unit_of_work "gormUnitOfWorkTx E" E "\<lambda>w. stored_orders (view w)"
  "\<lambda>w. stored_events (view w)" "\<lambda>w. repo_frame (view w)" "\<lambda>w. outbox_frame (view w)"
  "NewGormUnitOfWork E" "\<lambda>w w'. view w' = view w"
proof (rule unit_of_work.intro)
  show "runtime_codec E" by (rule runtime_codec_axioms)
  show "order_repository (tx_OrderRepo (gormUnitOfWorkTx E)) (\<lambda>w. stored_orders (view w))
      (\<lambda>w. repo_frame (view w))"
    using repo.order_repository_axioms by (simp add: gormUnitOfWorkTx_def)
  show "outbox_append (tx_OutboxStore (gormUnitOfWorkTx E)) E (\<lambda>w. stored_events (view w))
      (\<lambda>w. outbox_frame (view w))"
    using ob.outbox_append_axioms by (simp add: gormUnitOfWorkTx_def)
  show "unit_of_work_axioms (gormUnitOfWorkTx E) E (\<lambda>w. stored_orders (view w))
     (\<lambda>w. stored_events (view w)) (\<lambda>w. repo_frame (view w)) (\<lambda>w. outbox_frame (view w))
     (NewGormUnitOfWork E) (\<lambda>w w'. view w' = view w)"
  proof (unfold_locales, goal_cases)
    case (3 w w') then show ?case using repo_frame_outbox [of "view w" "view w'"]
      by (intro ext) (simp add: stored_events_def)
  next
    case (4 w w') then show ?case
      using outbox_frame_orders [of "view w" "view w'"]
      by (intro ext) (simp add: stored_orders_def items_of_def)
  next
    case (7 w u w') then show ?case using v7_fresh [of w u w'] by (simp add: stored_orders_def domIff)
  next
    case (8 body w x w') then show ?case
      using Transaction_ok [of "body (gormUnitOfWorkTx E)" w x w']
      by (auto simp: NewGormUnitOfWork_def GormUnitOfWork_Execute_def)
  next
    case (9 body w e w') then show ?case
      using Transaction_err [of "body (gormUnitOfWorkTx E)" w e w']
      by (auto simp: NewGormUnitOfWork_def GormUnitOfWork_Execute_def)
  qed (simp_all add: now_pure v7_pure)
qed

end

lemmas uow_eval [go_defs] = gormUnitOfWorkTx_def GormUnitOfWork_Execute_def NewGormUnitOfWork_def

end
