(* ===== verification/Commands.thy ===== *)
theory Commands imports Ports begin

text \<open>
  The command handlers (\<^verbatim>\<open>internal/application/command/*.go\<close>), over any unit of work, and
  what they do to the stored orders and the outbox under its contract.
\<close>

section \<open>Handlers\<close>

record CreateOrder =
  cco_CustomerID :: string

record AddItemToOrder =
  cai_OrderID :: string
  cai_ProductID :: string
  cai_ProductName :: string
  cai_Quantity :: go_int
  cai_UnitPrice :: int64

record ConfirmOrder =
  ccf_OrderID :: string

text \<open>
  The tail the three handlers share: the pending events are collected, the order is saved,
  and the events are appended to the outbox, all in the transaction's scope.
\<close>

definition save_and_append :: "'w UnitOfWorkTx \<Rightarrow> Order \<Rightarrow> ('w, go_error + Order) state" where
  "save_and_append tx o1 = (case Events o1 of (events, o2) \<Rightarrow> do {
     s \<leftarrow> repo_Save (tx_OrderRepo tx) o2;
     case s of
       Inl err \<Rightarrow> ret (Inl (ErrWrap ''save order: '' err))
     | Inr o3 \<Rightarrow> do {
         a \<leftarrow> ob_Append (tx_OutboxStore tx) events;
         case a of
           Inl err \<Rightarrow> ret (Inl (ErrWrap ''append outbox events: '' err))
         | Inr _ \<Rightarrow> ret (Inr o3)
       }
   })"

definition CreateOrderHandler_Handle ::
  "('w, 'z) runtime_scheme \<Rightarrow> 'w UnitOfWork \<Rightarrow> CreateOrder \<Rightarrow> ('w, go_error + string) state" where
  "CreateOrderHandler_Handle R uow cmd =
     (case ParseCustomerID R (cco_CustomerID cmd) of
        Inl err \<Rightarrow> ret (Inl (ErrWrap ''create order: '' err))
      | Inr customerID \<Rightarrow> uow_Execute uow (\<lambda>tx. do {
          n \<leftarrow> NewOrder R customerID;
          case n of
            Inl err \<Rightarrow> ret (Inl err)
          | Inr o1 \<Rightarrow> do {
              s \<leftarrow> save_and_append tx o1;
              case s of
                Inl err \<Rightarrow> ret (Inl err)
              | Inr o2 \<Rightarrow> ret (Inr (OrderID_String R (o_id o2)))
            }
        }))"

definition AddItemHandler_Handle ::
  "('w, 'z) runtime_scheme \<Rightarrow> 'w UnitOfWork \<Rightarrow> AddItemToOrder \<Rightarrow> ('w, go_error + unit) state" where
  "AddItemHandler_Handle R uow cmd =
     (case ParseOrderID R (cai_OrderID cmd) of
        Inl err \<Rightarrow> ret (Inl (ErrWrap ''add item: '' err))
      | Inr orderID \<Rightarrow> do {
          r \<leftarrow> uow_Execute uow (\<lambda>tx. do {
            f \<leftarrow> repo_FindByID (tx_OrderRepo tx) orderID;
            case f of
              Inl err \<Rightarrow> ret (Inl err)
            | Inr o1 \<Rightarrow> do {
                a \<leftarrow> AddItem R o1 (cai_ProductID cmd) (cai_ProductName cmd) (cai_Quantity cmd)
                       (NewMoney (cai_UnitPrice cmd));
                case a of
                  Inl err \<Rightarrow> ret (Inl err)
                | Inr o2 \<Rightarrow> do {
                    s \<leftarrow> save_and_append tx o2;
                    case s of Inl err \<Rightarrow> ret (Inl err) | Inr _ \<Rightarrow> ret (Inr '''')
                  }
              }
          });
          ret (case r of Inl err \<Rightarrow> Inl err | Inr _ \<Rightarrow> Inr ())
        })"

definition ConfirmOrderHandler_Handle ::
  "('w, 'z) runtime_scheme \<Rightarrow> 'w UnitOfWork \<Rightarrow> ConfirmOrder \<Rightarrow> ('w, go_error + unit) state" where
  "ConfirmOrderHandler_Handle R uow cmd =
     (case ParseOrderID R (ccf_OrderID cmd) of
        Inl err \<Rightarrow> ret (Inl (ErrWrap ''confirm order: '' err))
      | Inr orderID \<Rightarrow> do {
          r \<leftarrow> uow_Execute uow (\<lambda>tx. do {
            f \<leftarrow> repo_FindByID (tx_OrderRepo tx) orderID;
            case f of
              Inl err \<Rightarrow> ret (Inl err)
            | Inr o1 \<Rightarrow> do {
                a \<leftarrow> Confirm R o1;
                case a of
                  Inl err \<Rightarrow> ret (Inl err)
                | Inr o2 \<Rightarrow> do {
                    s \<leftarrow> save_and_append tx o2;
                    case s of Inl err \<Rightarrow> ret (Inl err) | Inr _ \<Rightarrow> ret (Inr '''')
                  }
              }
          });
          ret (case r of Inl err \<Rightarrow> Inl err | Inr _ \<Rightarrow> Inr ())
        })"

section \<open>Specification\<close>

text \<open>\<open>announced R ev m m'\<close>: the outbox gained exactly one entry, which announces \<open>ev\<close>.\<close>

definition announced ::
  "('w, 'z) runtime_scheme \<Rightarrow> DomainEvent \<Rightarrow> (uuid \<Rightarrow> OutboxEvent option) \<Rightarrow> (uuid \<Rightarrow> OutboxEvent option) \<Rightarrow> bool" where
  "announced R ev m m' \<longleftrightarrow> (\<exists>x. entry_for R ev x \<and> m (oe_ID x) = None \<and> m' = m(oe_ID x \<mapsto> x))"

text \<open>What each command does to the stored orders, and the event it announces.\<close>

definition exact_sum :: "OrderItem set \<Rightarrow> int" where
  "exact_sum is = (\<Sum>i\<in>is. exact_price i)"

definition create_effect ::
  "('w, 'z) runtime_scheme \<Rightarrow> CreateOrder \<Rightarrow> OrderID \<Rightarrow> (OrderID \<Rightarrow> persisted option)
     \<Rightarrow> (OrderID \<Rightarrow> persisted option) \<Rightarrow> DomainEvent \<Rightarrow> bool" where
  "create_effect R cmd oid m m' ev \<longleftrightarrow>
     (\<exists>cid at. ParseCustomerID R (cco_CustomerID cmd) = Inr cid \<and> \<not> CustomerID_IsZero cid \<and>
        m oid = None \<and>
        m' = m(oid \<mapsto> \<lparr>p_customer = cid, p_status = StatusDraft, p_version = 1, p_items = {}\<rparr>) \<and>
        ev = EvOrderCreated \<lparr>oc_ID = OrderID_String R oid, oc_CustomerID = CustomerID_String R cid,
          oc_Status = StatusDraft, oc_OccurredAt = at\<rparr>)"

definition add_effect ::
  "('w, 'z) runtime_scheme \<Rightarrow> AddItemToOrder \<Rightarrow> (OrderID \<Rightarrow> persisted option)
     \<Rightarrow> (OrderID \<Rightarrow> persisted option) \<Rightarrow> DomainEvent \<Rightarrow> bool" where
  "add_effect R cmd m m' ev \<longleftrightarrow>
     (\<exists>oid p item at. ParseOrderID R (cai_OrderID cmd) = Inr oid \<and> m oid = Some p \<and>
        p_status p = StatusDraft \<and> item_ok item \<and> item \<notin> p_items p \<and>
        item_productID item = cai_ProductID cmd \<and> item_productName item = cai_ProductName cmd \<and>
        item_quantity item = cai_Quantity cmd \<and> item_unitPrice item = NewMoney (cai_UnitPrice cmd) \<and>
        m' = m(oid \<mapsto> p\<lparr>p_items := insert item (p_items p)\<rparr>) \<and>
        ev = EvOrderItemAdded \<lparr>oia_OrderID = OrderID_String R oid, oia_ItemID = uuid_String R (item_id item),
          oia_ProductID = cai_ProductID cmd, oia_ProductName = cai_ProductName cmd,
          oia_Quantity = cai_Quantity cmd, oia_UnitPrice = cai_UnitPrice cmd, oia_OccurredAt = at\<rparr>)"

definition confirm_effect ::
  "('w, 'z) runtime_scheme \<Rightarrow> ConfirmOrder \<Rightarrow> (OrderID \<Rightarrow> persisted option)
     \<Rightarrow> (OrderID \<Rightarrow> persisted option) \<Rightarrow> DomainEvent \<Rightarrow> bool" where
  "confirm_effect R cmd m m' ev \<longleftrightarrow>
     (\<exists>oid p at. ParseOrderID R (ccf_OrderID cmd) = Inr oid \<and> m oid = Some p \<and>
        p_status p = StatusDraft \<and> p_items p \<noteq> {} \<and>
        m' = m(oid \<mapsto> p\<lparr>p_status := StatusConfirmed\<rparr>) \<and>
        ev = EvOrderConfirmed \<lparr>ocf_OrderID = OrderID_String R oid,
          ocf_TotalAmount = word_of_int (exact_sum (p_items p)), ocf_OccurredAt = at\<rparr>)"

lemma exact_total_sum: "distinct is \<Longrightarrow> exact_total is = exact_sum (set is)"
  by (simp add: exact_total_def exact_sum_def sum_list_distinct_conv_sum_set)

text \<open>The closure of the two handlers that change an existing order, for any operation.\<close>

definition modify_order ::
  "OrderID \<Rightarrow> (Order \<Rightarrow> ('w, go_error + Order) state) \<Rightarrow> 'w UnitOfWorkTx \<Rightarrow> ('w, go_error + string) state" where
  "modify_order oid f tx = do {
     r \<leftarrow> repo_FindByID (tx_OrderRepo tx) oid;
     case r of
       Inl err \<Rightarrow> ret (Inl err)
     | Inr o1 \<Rightarrow> do {
         a \<leftarrow> f o1;
         case a of
           Inl err \<Rightarrow> ret (Inl err)
         | Inr o2 \<Rightarrow> do {
             s \<leftarrow> save_and_append tx o2;
             case s of Inl err \<Rightarrow> ret (Inl err) | Inr _ \<Rightarrow> ret (Inr '''')
           }
       }
   }"

lemma AddItemHandler_Handle_modify:
  "AddItemHandler_Handle R uow cmd =
     (case ParseOrderID R (cai_OrderID cmd) of
        Inl err \<Rightarrow> ret (Inl (ErrWrap ''add item: '' err))
      | Inr orderID \<Rightarrow> do {
          r \<leftarrow> uow_Execute uow (modify_order orderID (\<lambda>o1. AddItem R o1 (cai_ProductID cmd)
            (cai_ProductName cmd) (cai_Quantity cmd) (NewMoney (cai_UnitPrice cmd))));
          ret (case r of Inl err \<Rightarrow> Inl err | Inr _ \<Rightarrow> Inr ())
        })"
  unfolding AddItemHandler_Handle_def modify_order_def [abs_def] by (rule refl)

lemma ConfirmOrderHandler_Handle_modify:
  "ConfirmOrderHandler_Handle R uow cmd =
     (case ParseOrderID R (ccf_OrderID cmd) of
        Inl err \<Rightarrow> ret (Inl (ErrWrap ''confirm order: '' err))
      | Inr orderID \<Rightarrow> do {
          r \<leftarrow> uow_Execute uow (modify_order orderID (Confirm R));
          ret (case r of Inl err \<Rightarrow> Inl err | Inr _ \<Rightarrow> Inr ())
        })"
  unfolding ConfirmOrderHandler_Handle_def modify_order_def [abs_def] by (rule refl)

section \<open>The handlers meet the specification\<close>

text \<open>The domain operations change neither the stored orders nor the outbox.\<close>

context unit_of_work begin

lemma now_pure2: "run_state (time_Now R) w = (t, w') \<Longrightarrow> orders w' = orders w \<and> outbox w' = outbox w"
  using now_same same_orders same_outbox by blast

lemma v7_pure2: "run_state (uuid_NewV7 R) w = (u, w') \<Longrightarrow> orders w' = orders w \<and> outbox w' = outbox w"
  using v7_same same_orders same_outbox by blast

lemma NewOrder_pure:
  "run_state (NewOrder R cid) w = (r, w') \<Longrightarrow>
     orders w' = orders w \<and> outbox w' = outbox w \<and>
     (case r of Inl _ \<Rightarrow> True | Inr o1 \<Rightarrow> orders w (o_id o1) = None)"
  by (auto simp: NewOrder_def NewOrderID_def NewOrderCreated_def raise_event_def
      split: if_splits prod.splits dest!: now_pure2 dest: v7_pure2 v7_new)

lemma AddItem_pure:
  "run_state (AddItem R o1 pid pname q u) w = (r, w') \<Longrightarrow> orders w' = orders w \<and> outbox w' = outbox w"
  by (auto simp: AddItem_def NewOrderItem_def NewOrderItemAdded_def
      split: if_splits prod.splits dest!: now_pure2 v7_pure2)

lemma Confirm_pure:
  "run_state (Confirm R o1) w = (r, w') \<Longrightarrow> orders w' = orders w \<and> outbox w' = outbox w"
  by (auto simp: Confirm_def NewOrderConfirmed_def Let_def
      split: if_splits prod.splits dest!: now_pure2)

lemma save_and_append_ok:
  assumes "run_state (save_and_append tx o1) w = (Inr o2, w')" "storable o1" "o_events o1 = [ev]"
  shows "orders w' = (orders w)(o_id o1 \<mapsto> persist o1) \<and> distinct (o_items o1) \<and> o_id o2 = o_id o1 \<and>
    announced R ev (outbox w) (outbox w')"
proof -
  let ?o = "o1\<lparr>o_events := []\<rparr>"
  from assms(1,3) obtain w1 u where
    S: "run_state (repo_Save (tx_OrderRepo tx) ?o) w = (Inr o2, w1)" and
    A: "run_state (ob_Append (tx_OutboxStore tx) [ev]) w1 = (Inr u, w')"
    by (auto simp: save_and_append_def Events_def split: prod.splits sum.splits)
  have "storable ?o" using assms(2) by (simp add: storable_def)
  note s = repo.save_ok [OF S this]
  from ob.append_ok [OF A] obtain x where x: "oframe w' = oframe w1" "entry_for R ev x"
    "outbox w1 (oe_ID x) = None" "outbox w' = (outbox w1)(oe_ID x \<mapsto> x)"
    by (auto simp: list_all2_Cons1 domIff)
  moreover have "orders w' = orders w1" using x(1) by (rule oframe_orders)
  moreover have "outbox w1 = outbox w" using s by (intro rframe_outbox) simp
  ultimately show ?thesis using s
    by (auto simp: announced_def persist_def IncrementVersion_def)
qed

lemma added_storable [simp]: "storable (added R o1 i now at) = storable o1"
  by (simp add: storable_def added_def)

lemma confirmed_storable: "storable o1 \<Longrightarrow> storable (confirmed R o1 now at)"
  by (simp add: storable_def confirmed_def)

lemma Create_ok:
  assumes "run_state (CreateOrderHandler_Handle R U cmd) w = (Inr s, w')"
  shows "\<exists>oid ev. s = OrderID_String R oid \<and> create_effect R cmd oid (orders w) (orders w') ev \<and>
    announced R ev (outbox w) (outbox w')"
proof -
  from assms obtain cid where cid: "ParseCustomerID R (cco_CustomerID cmd) = Inr cid"
    by (auto simp: CreateOrderHandler_Handle_def split: sum.splits)
  let ?body = "\<lambda>tx. do { n \<leftarrow> NewOrder R cid; case n of Inl err \<Rightarrow> ret (Inl err)
     | Inr o1 \<Rightarrow> do { s \<leftarrow> save_and_append tx o1; case s of Inl err \<Rightarrow> ret (Inl err)
        | Inr o2 \<Rightarrow> ret (Inr (OrderID_String R (o_id o2))) } }"
  from assms cid have "run_state (uow_Execute U ?body) w = (Inr s, w')"
    by (simp add: CreateOrderHandler_Handle_def)
  from execute_ok [OF this] obtain w1 w2 where same: "same w w1" "same w2 w'" and
    B: "run_state (?body tx) w1 = (Inr s, w2)" by blast
  from B obtain o1 w3 o2 where
    N: "run_state (NewOrder R cid) w1 = (Inr o1, w3)" and
    S: "run_state (save_and_append tx o1) w3 = (Inr o2, w2)" and s: "s = OrderID_String R (o_id o2)"
    by (auto split: prod.splits sum.splits)
  from NewOrder_okE [OF N] obtain oid now at where o1: "\<not> CustomerID_IsZero cid"
    "o1 = \<lparr>o_id = oid, o_customerID = cid, o_status = StatusDraft, o_items = [], o_version = 1,
       o_createdAt = now, o_updatedAt = now, o_events = [EvOrderCreated \<lparr>oc_ID = OrderID_String R oid,
         oc_CustomerID = CustomerID_String R cid, oc_Status = StatusDraft, oc_OccurredAt = at\<rparr>]\<rparr>" .
  from save_and_append_ok [OF S] o1(2) NewOrder_pure [OF N] same s cid o1(1) show ?thesis
    by (intro exI [of _ oid] exI conjI)
      (auto simp: storable_def create_effect_def persist_def same_orders same_outbox)
qed

lemma Create_err:
  "run_state (CreateOrderHandler_Handle R U cmd) w = (Inl e, w') \<Longrightarrow>
     orders w' = orders w \<and> outbox w' = outbox w"
  by (auto simp: CreateOrderHandler_Handle_def same_orders same_outbox split: sum.splits dest!: execute_err)

lemma modify_err:
  "run_state (uow_Execute U (modify_order oid f)) w = (Inl e, w') \<Longrightarrow>
     orders w' = orders w \<and> outbox w' = outbox w"
  by (auto simp: same_orders same_outbox dest!: execute_err)

lemma modify_ok:
  assumes "run_state (uow_Execute U (modify_order oid f)) w = (Inr s, w')"
    and pure: "\<And>o1 r w w'. run_state (f o1) w = (r, w') \<Longrightarrow> orders w' = orders w \<and> outbox w' = outbox w"
  obtains o1 o2 w1 w2 w3 where
    "o_id o1 = oid" "orders w oid = Some (persist o1)" "distinct (o_items o1)" "o_events o1 = []"
    "run_state (f o1) w1 = (Inr o2, w2)"
    "\<And>ev. storable o2 \<Longrightarrow> o_events o2 = [ev] \<Longrightarrow>
       orders w' = (orders w)(o_id o2 \<mapsto> persist o2) \<and> distinct (o_items o2) \<and>
       announced R ev (outbox w) (outbox w')"
proof -
  from execute_ok [OF assms(1)] obtain w1 w2 where same: "same w w1" "same w2 w'" and
    B: "run_state (modify_order oid f tx) w1 = (Inr s, w2)" by blast
  from B obtain o1 w3 o2 w4 o3 where
    F: "run_state (repo_FindByID (tx_OrderRepo tx) oid) w1 = (Inr o1, w3)" and
    M: "run_state (f o1) w3 = (Inr o2, w4)" and
    S: "run_state (save_and_append tx o2) w4 = (Inr o3, w2)"
    by (auto simp: modify_order_def split: prod.splits sum.splits)
  note f = repo.find_ok [OF F]
  have "orders w4 = orders w" "outbox w4 = outbox w"
    using pure [OF M] f same same_orders same_outbox rframe_outbox by metis+
  then show thesis
    using f M save_and_append_ok [OF S] same
    by (intro that [of o1 w3 o2 w4]) (simp_all add: same_orders same_outbox)
qed

lemma Add_ok:
  assumes "run_state (AddItemHandler_Handle R U cmd) w = (Inr u, w')"
    and versions: "\<And>i p. orders w i = Some p \<Longrightarrow> p_version p \<noteq> 0"
  shows "\<exists>ev. add_effect R cmd (orders w) (orders w') ev \<and> announced R ev (outbox w) (outbox w')"
proof -
  let ?f = "\<lambda>o1. AddItem R o1 (cai_ProductID cmd) (cai_ProductName cmd) (cai_Quantity cmd)
    (NewMoney (cai_UnitPrice cmd))"
  from assms(1) obtain oid s where P: "ParseOrderID R (cai_OrderID cmd) = Inr oid" and
    E: "run_state (uow_Execute U (modify_order oid ?f)) w = (Inr s, w')"
    by (auto simp: AddItemHandler_Handle_modify split: sum.splits prod.splits)
  show ?thesis
  proof (rule modify_ok [OF E AddItem_pure])
    fix o1 o2 w1 w2
    assume o1: "o_id o1 = oid" "orders w oid = Some (persist o1)" "o_events o1 = []"
      and M: "run_state (?f o1) w1 = (Inr o2, w2)"
      and step: "\<And>ev. storable o2 \<Longrightarrow> o_events o2 = [ev] \<Longrightarrow>
       orders w' = (orders w)(o_id o2 \<mapsto> persist o2) \<and> distinct (o_items o2) \<and>
       announced R ev (outbox w) (outbox w')"
    from AddItem_okE [OF M] obtain item now at where o2: "o_status o1 = StatusDraft" "item_ok item"
      "item_productID item = cai_ProductID cmd" "item_productName item = cai_ProductName cmd"
      "item_quantity item = cai_Quantity cmd" "item_unitPrice item = NewMoney (cai_UnitPrice cmd)"
      "o2 = added R o1 item now at" .
    have "o_version o1 \<noteq> 0" using versions [OF o1(2)] by (simp add: persist_def)
    then have "storable o2" using o2 by (simp add: storable_def added_def)
    from step [OF this] o1 have "orders w' = (orders w)(oid \<mapsto> persist o2)" "distinct (o_items o2)"
      "announced R (last (o_events o2)) (outbox w) (outbox w')"
      by (auto simp: o2(7) added_def)
    then show ?thesis using P o1 o2
      by (intro exI [of _ "last (o_events o2)"])
        (auto simp: add_effect_def added_def persist_def)
  qed
qed

lemma Add_err:
  "run_state (AddItemHandler_Handle R U cmd) w = (Inl e, w') \<Longrightarrow>
     orders w' = orders w \<and> outbox w' = outbox w"
  by (auto simp: AddItemHandler_Handle_modify split: sum.splits prod.splits dest!: modify_err)

lemma Confirm_ok:
  assumes "run_state (ConfirmOrderHandler_Handle R U cmd) w = (Inr u, w')"
    and versions: "\<And>i p. orders w i = Some p \<Longrightarrow> p_version p \<noteq> 0"
  shows "\<exists>ev. confirm_effect R cmd (orders w) (orders w') ev \<and> announced R ev (outbox w) (outbox w')"
proof -
  from assms(1) obtain oid s where P: "ParseOrderID R (ccf_OrderID cmd) = Inr oid" and
    E: "run_state (uow_Execute U (modify_order oid (Confirm R))) w = (Inr s, w')"
    by (auto simp: ConfirmOrderHandler_Handle_modify split: sum.splits prod.splits)
  show ?thesis
  proof (rule modify_ok [OF E Confirm_pure])
    fix o1 o2 w1 w2
    assume o1: "o_id o1 = oid" "orders w oid = Some (persist o1)" "o_events o1 = []" "distinct (o_items o1)"
      and M: "run_state (Confirm R o1) w1 = (Inr o2, w2)"
      and step: "\<And>ev. storable o2 \<Longrightarrow> o_events o2 = [ev] \<Longrightarrow>
       orders w' = (orders w)(o_id o2 \<mapsto> persist o2) \<and> distinct (o_items o2) \<and>
       announced R ev (outbox w) (outbox w')"
    from Confirm_okE [OF M] obtain now at where o2: "o_status o1 = StatusDraft" "o_items o1 \<noteq> []"
      "o2 = confirmed R o1 now at" .
    have "o_version o1 \<noteq> 0" using versions [OF o1(2)] by (simp add: persist_def)
    then have "storable o2" using o2 by (simp add: storable_def confirmed_def)
    from step [OF this] o1 have "orders w' = (orders w)(oid \<mapsto> persist o2)"
      "announced R (last (o_events o2)) (outbox w) (outbox w')"
      by (auto simp: o2(3) confirmed_def)
    then show ?thesis using P o1 o2
      by (intro exI [of _ "last (o_events o2)"])
        (auto simp: confirm_effect_def confirmed_def persist_def Amount_TotalAmount exact_total_sum)
  qed
qed

lemma Confirm_err:
  "run_state (ConfirmOrderHandler_Handle R U cmd) w = (Inl e, w') \<Longrightarrow>
     orders w' = orders w \<and> outbox w' = outbox w"
  by (auto simp: ConfirmOrderHandler_Handle_modify split: sum.splits prod.splits dest!: modify_err)

end

lemmas commands_eval [go_defs] = save_and_append_def CreateOrderHandler_Handle_def
  AddItemHandler_Handle_def ConfirmOrderHandler_Handle_def

end
