(* ===== verification/Command_History.thy ===== *)
theory Command_History imports Commands begin

text \<open>
  What holds of the stored orders and the outbox after any sequence of commands,
  interleaved with any steps of the rest of the system that leave the orders and the
  log of events alone.
\<close>

section \<open>Histories\<close>

inductive commands_run ::
  "('w, 'z) runtime_scheme \<Rightarrow> 'w UnitOfWork \<Rightarrow> ('w \<Rightarrow> 'w \<Rightarrow> bool) \<Rightarrow> 'w \<Rightarrow> 'w \<Rightarrow> bool"
  for R U env w0 where
  start: "commands_run R U env w0 w0"
| create: "commands_run R U env w0 w \<Longrightarrow> run_state (CreateOrderHandler_Handle R U c) w = (r, w')
     \<Longrightarrow> commands_run R U env w0 w'"
| add_item: "commands_run R U env w0 w \<Longrightarrow> run_state (AddItemHandler_Handle R U a) w = (ra, w')
     \<Longrightarrow> commands_run R U env w0 w'"
| confirm_order: "commands_run R U env w0 w \<Longrightarrow> run_state (ConfirmOrderHandler_Handle R U f) w = (rf, w')
     \<Longrightarrow> commands_run R U env w0 w'"
| other: "commands_run R U env w0 w \<Longrightarrow> env w w' \<Longrightarrow> commands_run R U env w0 w'"

section \<open>The log of events\<close>

text \<open>The entries of one order and one type, whatever their delivery state.\<close>

definition entries ::
  "('w, 'z) runtime_scheme \<Rightarrow> (uuid \<Rightarrow> OutboxEvent option) \<Rightarrow> OrderID \<Rightarrow> string \<Rightarrow> uuid set" where
  "entries R ob oid ty = {k. \<exists>x. ob k = Some x \<and> oe_AggregateID x = OrderID_String R oid \<and> oe_EventType x = ty}"

definition log_key :: "OutboxEvent \<Rightarrow> string \<times> string \<times> json" where
  "log_key x = (oe_AggregateID x, oe_EventType x, oe_Payload x)"

definition same_log :: "(uuid \<Rightarrow> OutboxEvent option) \<Rightarrow> (uuid \<Rightarrow> OutboxEvent option) \<Rightarrow> bool" where
  "same_log ob ob' \<longleftrightarrow> (\<forall>k. map_option log_key (ob' k) = map_option log_key (ob k))"

text \<open>An order in the store.  Its version is the initial one: \<^verbatim>\<open>Save\<close> bumps only the copy in memory.\<close>

definition row_ok :: "persisted \<Rightarrow> bool" where
  "row_ok p \<longleftrightarrow> p_version p = 1 \<and> p_status p \<in> {StatusDraft, StatusConfirmed} \<and>
     (p_status p = StatusConfirmed \<longrightarrow> p_items p \<noteq> {}) \<and> finite (p_items p) \<and>
     (\<forall>i \<in> p_items p. item_ok i) \<and> \<not> CustomerID_IsZero (p_customer p)"

text \<open>
  The log agrees with the orders: one \<^verbatim>\<open>OrderCreated\<close> per order, one \<^verbatim>\<open>OrderItemAdded\<close> per
  item, one \<^verbatim>\<open>OrderConfirmed\<close> if and only if the order is confirmed, announcing the total of
  its items; and nothing for orders that are not stored.
\<close>

definition log_counts ::
  "('w, 'z) runtime_scheme \<Rightarrow> (uuid \<Rightarrow> OutboxEvent option) \<Rightarrow> OrderID \<Rightarrow> persisted \<Rightarrow> bool" where
  "log_counts R ob oid p \<longleftrightarrow>
     card (entries R ob oid ''OrderCreated'') = 1 \<and>
     card (entries R ob oid ''OrderItemAdded'') = card (p_items p) \<and>
     card (entries R ob oid ''OrderConfirmed'') = (if p_status p = StatusConfirmed then 1 else 0)"

definition announces_total ::
  "('w, 'z) runtime_scheme \<Rightarrow> (uuid \<Rightarrow> OutboxEvent option) \<Rightarrow> OrderID \<Rightarrow> persisted \<Rightarrow> bool" where
  "announces_total R ob oid p \<longleftrightarrow>
     (\<forall>k \<in> entries R ob oid ''OrderConfirmed''. \<exists>x at. ob k = Some x \<and>
        marshal_event R (EvOrderConfirmed \<lparr>ocf_OrderID = OrderID_String R oid,
          ocf_TotalAmount = word_of_int (exact_sum (p_items p)), ocf_OccurredAt = at\<rparr>) = Inr (oe_Payload x))"

definition log_ok ::
  "('w, 'z) runtime_scheme \<Rightarrow> (OrderID \<Rightarrow> persisted option) \<Rightarrow> (uuid \<Rightarrow> OutboxEvent option) \<Rightarrow> bool" where
  "log_ok R m ob \<longleftrightarrow> finite (dom ob) \<and>
     (\<forall>oid. case m oid of
        None \<Rightarrow> \<forall>ty. entries R ob oid ty = {}
      | Some p \<Rightarrow> row_ok p \<and> log_counts R ob oid p \<and> announces_total R ob oid p)"

lemma entries_dom: "entries R ob oid ty \<subseteq> dom ob"
  by (auto simp: entries_def)

lemma log_okD:
  assumes "log_ok R m ob"
  shows "m oid = None \<Longrightarrow> entries R ob oid ty = {}"
    and "m oid = Some p \<Longrightarrow> row_ok p \<and> log_counts R ob oid p \<and> announces_total R ob oid p"
    and "finite (entries R ob oid ty)"
  using assms finite_subset [OF entries_dom, of ob R oid ty]
  by (auto simp: log_ok_def split: option.splits dest: spec [of _ oid])

lemma same_log_sym: "same_log ob ob' \<Longrightarrow> same_log ob' ob"
  by (simp add: same_log_def)

lemma same_logE:
  assumes "same_log ob ob'" "ob k = Some x"
  obtains y where "ob' k = Some y" "oe_AggregateID y = oe_AggregateID x" "oe_EventType y = oe_EventType x"
    "oe_Payload y = oe_Payload x"
proof -
  have "map_option log_key (ob' k) = map_option log_key (ob k)"
    using assms(1) by (simp add: same_log_def)
  with assms(2) that show thesis by (cases "ob' k") (auto simp: log_key_def)
qed

lemma same_log_entries: "same_log ob ob' \<Longrightarrow> entries R ob' oid ty = entries R ob oid ty"
proof -
  have "same_log ob1 ob2 \<Longrightarrow> entries R ob1 oid ty \<subseteq> entries R ob2 oid ty" for ob1 ob2
    by (auto simp: entries_def elim!: same_logE)
  then show "same_log ob ob' \<Longrightarrow> entries R ob' oid ty = entries R ob oid ty"
    using same_log_sym by blast
qed

lemma same_log_dom: "same_log ob ob' \<Longrightarrow> dom ob' = dom ob"
proof -
  have "same_log ob1 ob2 \<Longrightarrow> dom ob1 \<subseteq> dom ob2" for ob1 ob2 by (auto elim!: same_logE)
  then show "same_log ob ob' \<Longrightarrow> dom ob' = dom ob" using same_log_sym by blast
qed

lemma same_log_total:
  assumes "same_log ob ob'" "announces_total R ob oid p"
  shows "announces_total R ob' oid p"
  unfolding announces_total_def
proof
  fix k assume "k \<in> entries R ob' oid ''OrderConfirmed''"
  then obtain x at where "ob k = Some x" "marshal_event R (EvOrderConfirmed
      \<lparr>ocf_OrderID = OrderID_String R oid, ocf_TotalAmount = word_of_int (exact_sum (p_items p)),
       ocf_OccurredAt = at\<rparr>) = Inr (oe_Payload x)"
    using assms by (auto simp: announces_total_def same_log_entries)
  moreover from same_logE [OF assms(1) this(1)] obtain y where "ob' k = Some y" "oe_Payload y = oe_Payload x" .
  ultimately show "\<exists>x at. ob' k = Some x \<and> marshal_event R (EvOrderConfirmed
      \<lparr>ocf_OrderID = OrderID_String R oid, ocf_TotalAmount = word_of_int (exact_sum (p_items p)),
       ocf_OccurredAt = at\<rparr>) = Inr (oe_Payload x)" by auto
qed

lemma log_okI:
  "finite (dom ob) \<Longrightarrow> (\<And>oid ty. m oid = None \<Longrightarrow> entries R ob oid ty = {}) \<Longrightarrow>
   (\<And>oid p. m oid = Some p \<Longrightarrow> row_ok p \<and> log_counts R ob oid p \<and> announces_total R ob oid p) \<Longrightarrow>
   log_ok R m ob"
  by (simp add: log_ok_def split: option.splits)

lemma log_ok_dom: "log_ok R m ob \<Longrightarrow> finite (dom ob)"
  by (simp add: log_ok_def)

lemma same_log_ok:
  assumes "same_log ob ob'" "log_ok R m ob"
  shows "log_ok R m ob'"
proof (rule log_okI)
  show "finite (dom ob')" using log_ok_dom [OF assms(2)] same_log_dom [OF assms(1)] by simp
next
  fix oid ty assume "m oid = None"
  with log_okD(1) [OF assms(2)] show "entries R ob' oid ty = {}" by (simp add: same_log_entries [OF assms(1)])
next
  fix oid p assume "m oid = Some p"
  with log_okD(2) [OF assms(2)] show "row_ok p \<and> log_counts R ob' oid p \<and> announces_total R ob' oid p"
    by (simp add: log_counts_def same_log_entries [OF assms(1)] same_log_total [OF assms(1)])
qed

section \<open>One more event\<close>

lemma announced_insert:
  assumes "announced R ev ob ob'"
  shows "\<exists>k x. ob k = None \<and> ob' = ob(k \<mapsto> x) \<and> entry_for R ev x \<and>
    (\<forall>oid ty. k \<notin> entries R ob oid ty) \<and>
    (\<forall>oid ty. entries R ob' oid ty = (if AggregateID ev = OrderID_String R oid \<and> EventType ev = ty
       then insert k (entries R ob oid ty) else entries R ob oid ty))"
proof -
  from assms obtain x where x: "entry_for R ev x" "ob (oe_ID x) = None" "ob' = ob(oe_ID x \<mapsto> x)"
    by (auto simp: announced_def)
  have "entries R ob' oid ty = (if AggregateID ev = OrderID_String R oid \<and> EventType ev = ty
        then insert (oe_ID x) (entries R ob oid ty) else entries R ob oid ty)" for oid ty
    using x by (auto simp: entries_def entry_for_def)
  moreover have "oe_ID x \<notin> entries R ob oid ty" for oid ty using x(2) by (simp add: entries_def)
  ultimately show ?thesis using x by blast
qed

lemma announced_other:
  "announced R ev ob ob' \<Longrightarrow> AggregateID ev \<noteq> OrderID_String R oid \<or> EventType ev \<noteq> ty \<Longrightarrow>
     entries R ob' oid ty = entries R ob oid ty"
  using announced_insert [of R ev ob ob'] by auto

lemma announced_card:
  "announced R ev ob ob' \<Longrightarrow> AggregateID ev = OrderID_String R oid \<Longrightarrow> EventType ev = ty \<Longrightarrow>
     finite (entries R ob oid ty) \<Longrightarrow> card (entries R ob' oid ty) = Suc (card (entries R ob oid ty))"
  using announced_insert [of R ev ob ob'] by auto

lemma announced_finite: "announced R ev ob ob' \<Longrightarrow> finite (dom ob) \<Longrightarrow> finite (dom ob')"
  by (auto simp: announced_def)

lemma announced_keep: "announced R ev ob ob' \<Longrightarrow> ob k = Some x \<Longrightarrow> ob' k = Some x"
  by (auto simp: announced_def)

lemma announced_total_kept:
  assumes "announced R ev ob ob'" "announces_total R ob oid p"
    and "AggregateID ev \<noteq> OrderID_String R oid \<or> EventType ev \<noteq> ''OrderConfirmed''"
  shows "announces_total R ob' oid p"
  using assms(2) announced_keep [OF assms(1)]
  unfolding announces_total_def announced_other [OF assms(1,3)] by blast

lemma announces_total_none: "entries R ob oid ''OrderConfirmed'' = {} \<Longrightarrow> announces_total R ob oid p"
  by (simp add: announces_total_def)

context runtime_codec begin

lemma OrderID_String_inj: "OrderID_String R i = OrderID_String R j \<longleftrightarrow> i = j"
  using uuid_String_inj by (cases i; cases j) (auto simp: OrderID_String_def)

lemma log_ok_step:
  assumes ok: "log_ok R m ob" and ann: "announced R ev ob ob'" and agg: "AggregateID ev = OrderID_String R oid"
    and p: "row_ok p" "log_counts R ob' oid p" "announces_total R ob' oid p"
  shows "log_ok R (m(oid \<mapsto> p)) ob'"
proof -
  have ne: "oid' \<noteq> oid \<Longrightarrow> AggregateID ev \<noteq> OrderID_String R oid'" for oid'
    by (simp add: agg OrderID_String_inj)
  have e: "oid' \<noteq> oid \<Longrightarrow> entries R ob' oid' ty = entries R ob oid' ty" for oid' ty
    using announced_other [OF ann] ne by blast
  show ?thesis
  proof (rule log_okI)
    show "finite (dom ob')" using announced_finite [OF ann] log_ok_dom [OF ok] .
  next
    fix oid' ty assume "(m(oid \<mapsto> p)) oid' = None"
    then show "entries R ob' oid' ty = {}" using log_okD(1) [OF ok] e by (simp split: if_splits)
  next
    fix oid' p' assume *: "(m(oid \<mapsto> p)) oid' = Some p'"
    show "row_ok p' \<and> log_counts R ob' oid' p' \<and> announces_total R ob' oid' p'"
    proof (cases "oid' = oid")
      case True
      with * p show ?thesis by simp
    next
      case False
      then show ?thesis using log_okD(2) [OF ok, of oid' p'] * e announced_total_kept [OF ann] ne
        by (simp add: log_counts_def)
    qed
  qed
qed

lemma log_ok_create:
  assumes "create_effect R cmd oid m m' ev" "announced R ev ob ob'" "log_ok R m ob"
  shows "log_ok R m' ob'"
proof -
  from assms(1) obtain cid at where c: "\<not> CustomerID_IsZero cid" "m oid = None"
    "m' = m(oid \<mapsto> \<lparr>p_customer = cid, p_status = StatusDraft, p_version = 1, p_items = {}\<rparr>)"
    "AggregateID ev = OrderID_String R oid" "EventType ev = ''OrderCreated''"
    by (auto simp: create_effect_def)
  have none: "entries R ob oid ty = {}" for ty using log_okD(1) [OF assms(3) c(2)] .
  have "entries R ob' oid ty = {}" if "ty \<noteq> ''OrderCreated''" for ty
    using announced_other [OF assms(2), of oid ty] that none by (simp add: c)
  then show ?thesis unfolding c(3) using announced_card [OF assms(2) c(4,5)] c(1) none
    by (intro log_ok_step [OF assms(3,2) c(4)])
      (simp_all add: row_ok_def log_counts_def announces_total_none)
qed

lemma log_ok_add:
  assumes "add_effect R cmd m m' ev" "announced R ev ob ob'" "log_ok R m ob"
  shows "log_ok R m' ob'"
proof -
  from assms(1) obtain oid p item where c: "m oid = Some p" "p_status p = StatusDraft" "item_ok item"
    "item \<notin> p_items p" "m' = m(oid \<mapsto> p\<lparr>p_items := insert item (p_items p)\<rparr>)"
    "AggregateID ev = OrderID_String R oid" "EventType ev = ''OrderItemAdded''"
    by (auto simp: add_effect_def)
  note ok = log_okD(2) [OF assms(3) c(1)] and fin = log_okD(3) [OF assms(3)]
  have old: "entries R ob' oid ty = entries R ob oid ty" if "ty \<noteq> ''OrderItemAdded''" for ty
    using announced_other [OF assms(2), of oid ty] that by (simp add: c)
  have none: "entries R ob oid ''OrderConfirmed'' = {}"
    using ok c(2) fin [of oid "''OrderConfirmed''"] by (simp add: log_counts_def)
  show ?thesis unfolding c(5) using announced_card [OF assms(2) c(6,7) fin] ok c(2,3,4) old none
    by (intro log_ok_step [OF assms(3,2) c(6)])
      (auto simp: row_ok_def log_counts_def announces_total_none)
qed

lemma log_ok_confirm:
  assumes "confirm_effect R cmd m m' ev" "announced R ev ob ob'" "log_ok R m ob"
  shows "log_ok R m' ob'"
proof -
  from assms(1) obtain oid p at where c: "m oid = Some p" "p_status p = StatusDraft" "p_items p \<noteq> {}"
    "m' = m(oid \<mapsto> p\<lparr>p_status := StatusConfirmed\<rparr>)"
    "ev = EvOrderConfirmed \<lparr>ocf_OrderID = OrderID_String R oid,
       ocf_TotalAmount = word_of_int (exact_sum (p_items p)), ocf_OccurredAt = at\<rparr>"
    by (auto simp: confirm_effect_def)
  then have agg: "AggregateID ev = OrderID_String R oid" "EventType ev = ''OrderConfirmed''" by simp_all
  note ok = log_okD(2) [OF assms(3) c(1)] and fin = log_okD(3) [OF assms(3)]
  have old: "entries R ob' oid ty = entries R ob oid ty" if "ty \<noteq> ''OrderConfirmed''" for ty
    using announced_other [OF assms(2), of oid ty] that by (simp add: agg)
  have none: "entries R ob oid ''OrderConfirmed'' = {}"
    using ok c(2) fin [of oid "''OrderConfirmed''"] by (simp add: log_counts_def)
  from announced_insert [OF assms(2)] obtain k x where "ob' = ob(k \<mapsto> x)" "entry_for R ev x"
    "entries R ob' oid ''OrderConfirmed'' = {k}" by (auto simp: agg none)
  then have "announces_total R ob' oid (p\<lparr>p_status := StatusConfirmed\<rparr>)"
    by (auto simp: announces_total_def entry_for_def c(5))
  then show ?thesis unfolding c(4) using announced_card [OF assms(2) agg fin] ok c(3) old none
    by (intro log_ok_step [OF assms(3,2) agg(1)])
      (auto simp: row_ok_def log_counts_def)
qed

end

section \<open>The invariant of every history\<close>

text \<open>What a later state of an order keeps of an earlier one.\<close>

definition evolves :: "persisted \<Rightarrow> persisted \<Rightarrow> bool" where
  "evolves p p' \<longleftrightarrow> p_customer p' = p_customer p \<and> p_items p \<subseteq> p_items p' \<and>
     (p_status p = StatusConfirmed \<longrightarrow> p' = p)"

lemma evolves_refl: "evolves p p"
  by (simp add: evolves_def)

lemma evolves_trans: "evolves p q \<Longrightarrow> evolves q r \<Longrightarrow> evolves p r"
  by (auto simp: evolves_def)

lemma create_evolves:
  "create_effect R c i m m' ev \<Longrightarrow> m oid = Some p \<Longrightarrow> \<exists>p'. m' oid = Some p' \<and> evolves p p'"
  by (auto simp: create_effect_def evolves_def)

lemma add_evolves:
  "add_effect R c m m' ev \<Longrightarrow> m oid = Some p \<Longrightarrow> \<exists>p'. m' oid = Some p' \<and> evolves p p'"
  by (auto simp: add_effect_def evolves_def)

lemma confirm_evolves:
  "confirm_effect R c m m' ev \<Longrightarrow> m oid = Some p \<Longrightarrow> \<exists>p'. m' oid = Some p' \<and> evolves p p'"
  by (cases "m' oid = Some p") (auto simp: confirm_effect_def evolves_def split: if_splits)

lemma log_ok_version: "log_ok R m ob \<Longrightarrow> m oid = Some p \<Longrightarrow> p_version p \<noteq> 0"
  using log_okD(2) [of R m ob oid p] by (simp add: row_ok_def)

context unit_of_work begin

lemma history_step:
  assumes "log_ok R (orders w) (outbox w)"
  shows "run_state (CreateOrderHandler_Handle R U c) w = (r, w') \<Longrightarrow>
      log_ok R (orders w') (outbox w') \<and> (\<forall>oid p. orders w oid = Some p \<longrightarrow> (\<exists>p'. orders w' oid = Some p' \<and> evolves p p'))"
    and "run_state (AddItemHandler_Handle R U a) w = (ra, w') \<Longrightarrow>
      log_ok R (orders w') (outbox w') \<and> (\<forall>oid p. orders w oid = Some p \<longrightarrow> (\<exists>p'. orders w' oid = Some p' \<and> evolves p p'))"
    and "run_state (ConfirmOrderHandler_Handle R U f) w = (rf, w') \<Longrightarrow>
      log_ok R (orders w') (outbox w') \<and> (\<forall>oid p. orders w oid = Some p \<longrightarrow> (\<exists>p'. orders w' oid = Some p' \<and> evolves p p'))"
proof -
  note versions = log_ok_version [OF assms]
  show "run_state (CreateOrderHandler_Handle R U c) w = (r, w') \<Longrightarrow>
      log_ok R (orders w') (outbox w') \<and> (\<forall>oid p. orders w oid = Some p \<longrightarrow> (\<exists>p'. orders w' oid = Some p' \<and> evolves p p'))"
    using assms by (cases r) (auto dest!: Create_err Create_ok intro: log_ok_create create_evolves evolves_refl)
  show "run_state (AddItemHandler_Handle R U a) w = (ra, w') \<Longrightarrow>
      log_ok R (orders w') (outbox w') \<and> (\<forall>oid p. orders w oid = Some p \<longrightarrow> (\<exists>p'. orders w' oid = Some p' \<and> evolves p p'))"
    using assms by (cases ra) (auto dest!: Add_err Add_ok [OF _ versions] intro: log_ok_add add_evolves evolves_refl)
  show "run_state (ConfirmOrderHandler_Handle R U f) w = (rf, w') \<Longrightarrow>
      log_ok R (orders w') (outbox w') \<and> (\<forall>oid p. orders w oid = Some p \<longrightarrow> (\<exists>p'. orders w' oid = Some p' \<and> evolves p p'))"
    using assms by (cases rf) (auto dest!: Confirm_err Confirm_ok [OF _ versions] intro: log_ok_confirm confirm_evolves evolves_refl)
qed

lemma history_invariant:
  assumes "commands_run R U env w0 w"
    and env: "\<And>w w'. env w w' \<Longrightarrow> orders w' = orders w \<and> same_log (outbox w) (outbox w')"
    and init: "log_ok R (orders w0) (outbox w0)"
  shows "log_ok R (orders w) (outbox w) \<and>
    (\<forall>oid p. orders w0 oid = Some p \<longrightarrow> (\<exists>p'. orders w oid = Some p' \<and> evolves p p'))"
  using assms(1)
proof (induction rule: commands_run.induct)
  case start
  then show ?case using init by (auto intro: evolves_refl)
next
  case (create w c r w')
  then show ?case using history_step(1) [of w c r w'] by (meson evolves_trans)
next
  case (add_item w a ra w')
  then show ?case using history_step(2) [of w a ra w'] by (meson evolves_trans)
next
  case (confirm_order w f rf w')
  then show ?case using history_step(3) [of w f rf w'] by (meson evolves_trans)
next
  case (other w w')
  then show ?case using env [of w w'] same_log_ok by metis
qed

end

end
