(* ===== verification/Scenario.thy ===== *)
theory Scenario imports Mem_Platform Unit_Of_Work Command_History begin

text \<open>
  A concrete run on the in-memory platform, on which the witnesses evaluate the theorems:
  an order is created, gets an item, and is confirmed.
\<close>

definition sc_uow :: "mem UnitOfWork" where
  "sc_uow = NewGormUnitOfWork mem_platform"

definition sc_create :: CreateOrder where
  "sc_create = \<lparr>cco_CustomerID = ''uuuuuuu''\<rparr>"

definition sc_add :: AddItemToOrder where
  "sc_add = \<lparr>cai_OrderID = ''u'', cai_ProductID = ''p'', cai_ProductName = ''pen'',
     cai_Quantity = 3, cai_UnitPrice = 500\<rparr>"

definition sc_confirm :: ConfirmOrder where
  "sc_confirm = \<lparr>ccf_OrderID = ''u''\<rparr>"

lemmas sc_eval = Let_def sc_uow_def sc_create_def sc_add_def sc_confirm_def mem_eval go_defs

text \<open>The database after each command.\<close>

definition sc_entry :: "uuid \<Rightarrow> string \<Rightarrow> (string \<Rightarrow> json option) \<Rightarrow> time \<Rightarrow> OutboxEventModel" where
  "sc_entry u ty payload at =
     \<lparr>oem_ID = u, oem_AggregateType = ''Order'', oem_AggregateID = ''u'', oem_EventType = ty,
      oem_Payload = JObj payload,
      oem_Metadata = marshal_EventMetadata \<lparr>em_CorrelationID = '''', em_CausationID = '''', em_UserID = ''''\<rparr>,
      oem_OccurredAt = at, oem_AvailableAt = at + 1, oem_PublishedAt = None,
      oem_Status = ''pending'', oem_RetryCount = 0, oem_LastError = None\<rparr>"

definition sc_e1 :: OutboxEventModel where
  "sc_e1 = sc_entry 2 ''OrderCreated'' [''id'' \<mapsto> JStr ''u'', ''customer_id'' \<mapsto> JStr (unary CHR ''u'' 7),
     ''status'' \<mapsto> JStr ''DRAFT'', ''occurred_at'' \<mapsto> JStr (unary CHR ''t'' 2)] 2"

definition sc_row :: "string \<Rightarrow> int64 \<Rightarrow> time \<Rightarrow> OrderModel" where
  "sc_row status amount at = \<lparr>om_ID = 1, om_CustomerID = 7, om_Status = status, om_TotalAmount = amount,
     om_Version = 1, om_CreatedAt = 1, om_UpdatedAt = at\<rparr>"

definition sc_w1 :: mem where
  "sc_w1 = mem_empty\<lparr>m_clock := 4, m_orders := [sc_row ''DRAFT'' 0 1], m_outbox := [sc_e1]\<rparr>"

lemma sc_create_run:
  "run_state (CreateOrderHandler_Handle mem_platform sc_uow sc_create) mem_empty = (Inr ''u'', sc_w1)"
  by (simp add: sc_eval sc_w1_def sc_row_def sc_e1_def sc_entry_def)

definition sc_e2 :: OutboxEventModel where
  "sc_e2 = sc_entry 4 ''OrderItemAdded'' [''order_id'' \<mapsto> JStr ''u'', ''item_id'' \<mapsto> JStr (unary CHR ''u'' 3),
     ''product_id'' \<mapsto> JStr ''p'', ''product_name'' \<mapsto> JStr ''pen'', ''quantity'' \<mapsto> JNum 3,
     ''unit_price'' \<mapsto> JNum 500, ''occurred_at'' \<mapsto> JStr (unary CHR ''t'' 5)] 5"

definition sc_item :: OrderItemModel where
  "sc_item = \<lparr>oim_ID = 3, oim_OrderID = 1, oim_ProductID = ''p'', oim_ProductName = ''pen'',
     oim_Quantity = 3, oim_UnitPrice = 500, oim_CreatedAt = time_zero\<rparr>"

definition sc_w2 :: mem where
  "sc_w2 = mem_empty\<lparr>m_clock := 7, m_orders := [sc_row ''DRAFT'' 1500 4], m_items := [sc_item],
     m_outbox := [sc_e2, sc_e1]\<rparr>"

definition sc_e3 :: OutboxEventModel where
  "sc_e3 = sc_entry 5 ''OrderConfirmed'' [''order_id'' \<mapsto> JStr ''u'', ''total_amount'' \<mapsto> JNum 1500,
     ''occurred_at'' \<mapsto> JStr (unary CHR ''t'' 8)] 8"

definition sc_w3 :: mem where
  "sc_w3 = mem_empty\<lparr>m_clock := 10, m_orders := [sc_row ''CONFIRMED'' 1500 7], m_items := [sc_item],
     m_outbox := [sc_e3, sc_e2, sc_e1]\<rparr>"

lemmas sc_worlds = sc_w1_def sc_w2_def sc_w3_def sc_row_def sc_item_def sc_e1_def sc_e2_def sc_e3_def
  sc_entry_def

lemma sc_add_run:
  "run_state (AddItemHandler_Handle mem_platform sc_uow sc_add) sc_w1 = (Inr (), sc_w2)"
  by (simp add: sc_eval sc_worlds)

lemma sc_confirm_run:
  "run_state (ConfirmOrderHandler_Handle mem_platform sc_uow sc_confirm) sc_w2 = (Inr (), sc_w3)"
  by (simp add: sc_eval sc_worlds)

end
