(* ===== verification/Domain_Properties.thy ===== *)
theory Domain_Properties imports Scenario begin

text \<open>
  The properties of the domain layer: the aggregate, its money arithmetic, its events and
  their JSON form, and the mapper.  The witnesses run on the in-memory platform.
\<close>

section \<open>A concrete life of an order\<close>

definition sc_created_order :: Order where
  "sc_created_order = \<lparr>o_id = OrderID 1, o_customerID = CustomerID 7, o_status = StatusDraft,
     o_items = [], o_version = 1, o_createdAt = 1, o_updatedAt = 1,
     o_events = [EvOrderCreated \<lparr>oc_ID = ''u'', oc_CustomerID = unary CHR ''u'' 7,
       oc_Status = StatusDraft, oc_OccurredAt = 2\<rparr>]\<rparr>"

definition sc_line :: "go_int \<Rightarrow> int64 \<Rightarrow> OrderItem" where
  "sc_line q u = \<lparr>item_id = 1, item_productID = ''p'', item_productName = ''pen'',
     item_quantity = q, item_unitPrice = Money u\<rparr>"

definition sc_filled_order :: "go_int \<Rightarrow> int64 \<Rightarrow> Order" where
  "sc_filled_order q u = added mem_platform sc_created_order (sc_line q u) 1 2"

definition sc_closed_order :: "go_int \<Rightarrow> int64 \<Rightarrow> Order" where
  "sc_closed_order q u = confirmed mem_platform (sc_filled_order q u) 1 2"

lemma sc_lifecycle:
  assumes "sint q > 0" "sint u > 0"
  shows "lifecycle mem_platform [] (sc_closed_order q u)"
proof -
  have "\<exists>w. run_state (NewOrder mem_platform (CustomerID 7)) mem_empty = (Inr sc_created_order, w)"
    by (simp add: sc_created_order_def mem_eval go_defs)
  then have 1: "lifecycle mem_platform [] sc_created_order" by (blast intro: lifecycle.new)
  have "\<exists>w. run_state (AddItem mem_platform sc_created_order ''p'' ''pen'' q (Money u)) mem_empty
      = (Inr (sc_filled_order q u), w)"
    using assms by (simp add: sc_filled_order_def added_def sc_line_def sc_created_order_def mem_eval go_defs)
  with 1 have 2: "lifecycle mem_platform [] (sc_filled_order q u)" by (blast intro: lifecycle.add)
  have "\<exists>w. run_state (Confirm mem_platform (sc_filled_order q u)) mem_empty = (Inr (sc_closed_order q u), w)"
    by (simp add: sc_closed_order_def confirmed_def sc_filled_order_def added_def sc_line_def
        sc_created_order_def mem_eval go_defs Let_def)
  with 2 show ?thesis by (blast intro: lifecycle.confirm)
qed

section \<open>The aggregate\<close>

text \<open>C7: Every order reached from \<^verbatim>\<open>NewOrder\<close> through the aggregate's methods satisfies the
  aggregate's invariant: it is in status DRAFT or CONFIRMED, a confirmed order has items,
  every item has positive quantity and price, and the customer is not the nil identifier.\<close>

theorem aggregate_invariant:
  "lifecycle R drained o1 \<Longrightarrow> order_inv o1"
  by (rule lifecycle_inv)

theorem aggregate_invariant_witness: "order_inv (sc_closed_order 3 500)"
  by (rule aggregate_invariant [OF sc_lifecycle]) simp_all

text \<open>C8: The events of an order, those already collected followed by those pending, replay to
  exactly the state of the order: identifiers, status, item lines in order, and total.\<close>

theorem aggregate_refines_events:
  "lifecycle R drained o1 \<Longrightarrow> replay (drained @ o_events o1) = Some (order_abs R o1)"
  by (rule lifecycle_replay)

theorem aggregate_refines_events_witness:
  "replay ([] @ o_events (sc_closed_order 3 500)) = Some (order_abs mem_platform (sc_closed_order 3 500))"
  by (rule aggregate_refines_events [OF sc_lifecycle]) simp_all

text \<open>\<^verbatim>\<open>AddItem\<close> checks modifiability, then the quantity, then the price; it fails with
  the first violated check and no effect, and otherwise appends exactly one item with the
  given data and exactly one event that announces it.\<close>

theorem add_item_outcome:
  "case AddItem_error o1 q u of
     Some e \<Rightarrow> run_state (AddItem R o1 pid pname q u) w = (Inl e, w)
   | None \<Rightarrow> \<exists>item now at w'. run_state (AddItem R o1 pid pname q u) w = (Inr (added R o1 item now at), w') \<and>
       item_ok item \<and> item_productID item = pid \<and> item_productName item = pname \<and>
       item_quantity item = q \<and> item_unitPrice item = u"
proof (cases "AddItem_error o1 q u")
  case None
  from AddItem_succeeds [OF None, of R pid pname w] obtain o2 w' where
    run: "run_state (AddItem R o1 pid pname q u) w = (Inr o2, w')" by blast
  then show ?thesis using None by (auto elim!: AddItem_okE)
next
  case (Some e)
  then show ?thesis using AddItem_fails [OF Some] by simp
qed

text \<open>\<^verbatim>\<open>Confirm\<close> fails on an order that is not a draft, then on an order without items,
  with no effect; otherwise the order becomes CONFIRMED, nothing else of it changes but the
  update time, and one event announces its total.\<close>

theorem confirm_outcome:
  "case Confirm_error o1 of
     Some e \<Rightarrow> run_state (Confirm R o1) w = (Inl e, w)
   | None \<Rightarrow> \<exists>now at w'. run_state (Confirm R o1) w = (Inr (confirmed R o1 now at), w')"
proof (cases "Confirm_error o1")
  case None
  from Confirm_succeeds [OF None, of R w] obtain o2 w' where
    run: "run_state (Confirm R o1) w = (Inr o2, w')" by blast
  then show ?thesis using None by (auto elim!: Confirm_okE)
next
  case (Some e)
  then show ?thesis using Confirm_fails [OF Some] by simp
qed

section \<open>Money\<close>

text \<open>The total of an order is the exact sum of price times quantity over its items, as
  long as that sum fits in an \<^verbatim>\<open>int64\<close>.\<close>

theorem total_amount_exact:
  assumes "list_all item_ok (o_items o1)" "exact_total (o_items o1) < 2 ^ 63"
  shows "sint (Amount (TotalAmount o1)) = exact_total (o_items o1)"
  unfolding Amount_TotalAmount using exact_total_nonneg [OF assms(1)] assms(2)
  by (intro sint_of_int_id) simp_all

theorem total_amount_exact_witness:
  "sint (Amount (TotalAmount (sc_filled_order 3 500))) = 1500"
proof -
  have items: "o_items (sc_filled_order 3 500) = [sc_line 3 500]"
    by (simp add: sc_filled_order_def added_def sc_created_order_def)
  show ?thesis
    using total_amount_exact [of "sc_filled_order 3 500"]
    by (simp add: items item_ok_def sc_line_def IsPositive_def exact_total_def exact_price_def)
qed

text \<open>C38: Nothing bounds that sum: an order whose items all pass the checks of \<^verbatim>\<open>AddItem\<close> can be
  confirmed with a negative total, announced as such.\<close>

theorem confirmed_total_overflows:
  "\<exists>o1. lifecycle mem_platform [] o1 \<and> o_status o1 = StatusConfirmed \<and>
     list_all item_ok (o_items o1) \<and> sint (Amount (TotalAmount o1)) < 0 \<and>
     (\<exists>e. EvOrderConfirmed e \<in> set (o_events o1) \<and> sint (ocf_TotalAmount e) < 0)"
proof (intro exI conjI)
  let ?o = "sc_closed_order 2 4611686018427387904"
  show "lifecycle mem_platform [] ?o" by (rule sc_lifecycle) simp_all
  show "o_status ?o = StatusConfirmed" by (simp add: sc_closed_order_def confirmed_def)
  show "list_all item_ok (o_items ?o)"
    by (simp add: sc_closed_order_def confirmed_def sc_filled_order_def added_def sc_created_order_def
        sc_line_def item_ok_def IsPositive_def)
  show "sint (Amount (TotalAmount ?o)) < 0"
    by (simp add: Amount_TotalAmount sc_closed_order_def confirmed_def sc_filled_order_def added_def
        sc_created_order_def sc_line_def exact_total_def exact_price_def)
  let ?e = "\<lparr>ocf_OrderID = ''u'', ocf_TotalAmount = 9223372036854775808, ocf_OccurredAt = 2\<rparr>"
  show "EvOrderConfirmed ?e \<in> set (o_events ?o)"
    by (simp add: sc_closed_order_def confirmed_def sc_filled_order_def added_def sc_created_order_def
        sc_line_def Amount_TotalAmount exact_total_def exact_price_def OrderID_String_def mem_eval)
  show "sint (ocf_TotalAmount ?e) < 0" by simp
qed

section \<open>Representations\<close>

text \<open>C36: An event written to the outbox as JSON and decoded by its event type, as the projection
  decodes it, is the event that was raised.\<close>

theorem event_json_roundtrip:
  assumes "runtime_codec R" "marshal_event R ev = Inr j"
  shows "unmarshal_event R (EventType ev) j = Inr ev"
  using assms by (rule runtime_codec.event_roundtrip_laws)

theorem event_json_roundtrip_witness:
  "unmarshal_event mem_platform ''OrderConfirmed''
     (JObj [''order_id'' \<mapsto> JStr ''u'', ''total_amount'' \<mapsto> JNum 1500, ''occurred_at'' \<mapsto> JStr ''t''])
   = Inr (EvOrderConfirmed \<lparr>ocf_OrderID = ''u'', ocf_TotalAmount = 1500, ocf_OccurredAt = 1\<rparr>)"
  using event_json_roundtrip [OF mem.runtime_codec_axioms,
      of "EvOrderConfirmed \<lparr>ocf_OrderID = ''u'', ocf_TotalAmount = 1500, ocf_OccurredAt = 1\<rparr>"]
  by (simp add: mem_eval marshal_OrderConfirmed_def)

text \<open>Mapping an order and its items to rows and back gives the order, without its pending
  events.\<close>

theorem mapper_roundtrip:
  "ToDomainOrder (ToOrderModel o1) (ToOrderItemModels o1) = o1\<lparr>o_events := []\<rparr>"
  by (rule mapper_roundtrip_eq)

end
