(* ===== verification/Messaging.thy ===== *)
theory Messaging imports Ports begin

text \<open>
  The event buses (\<^verbatim>\<open>infrastructure/messaging/*.go\<close>).  A bus keeps its handlers per event
  type in the order of their registration.  The Kafka writer is a parameter.
\<close>

section \<open>Handlers\<close>

text \<open>\<^verbatim>\<open>map[string][]port.EventHandler\<close>: a missing key and an empty slice are treated alike.\<close>

type_synonym 'w handlers = "string \<Rightarrow> 'w EventHandler list"

definition no_handlers :: "'w handlers" where
  "no_handlers = (\<lambda>_. [])"

definition Subscribe :: "'w handlers \<Rightarrow> string \<Rightarrow> 'w EventHandler \<Rightarrow> 'w handlers" where
  "Subscribe b eventType handler = b(eventType := b eventType @ [handler])"

text \<open>The loop that stops at the first error, which it wraps.\<close>

fun dispatch :: "string \<Rightarrow> 'w EventHandler list \<Rightarrow> OutboxEvent \<Rightarrow> ('w, go_error + unit) state" where
  "dispatch prefix [] event = ret (Inr ())"
| "dispatch prefix (handler # hs) event = do {
     r \<leftarrow> handler event;
     case r of
       Inl err \<Rightarrow> ret (Inl (ErrWrap (prefix @ oe_EventType event @ '': '') err))
     | Inr _ \<Rightarrow> dispatch prefix hs event
   }"

section \<open>The in-memory bus\<close>

definition InMemoryEventBus_Publish :: "'w handlers \<Rightarrow> OutboxEvent \<Rightarrow> ('w, go_error + unit) state" where
  "InMemoryEventBus_Publish b event =
     (if b (oe_EventType event) = [] then ret (Inr ())
      else dispatch ''handler error for '' (b (oe_EventType event)) event)"

section \<open>The Kafka bus\<close>

text \<open>The configuration; durations in nanoseconds.\<close>

record KafkaConfig =
  kc_Brokers :: "string list"
  kc_Topic :: string
  kc_ConsumerGroup :: string
  kc_BatchSize :: go_int
  kc_BatchTimeout :: int64
  kc_MinBytes :: go_int
  kc_MaxBytes :: go_int
  kc_MaxWait :: int64

definition DefaultKafkaConfig :: KafkaConfig where
  "DefaultKafkaConfig =
     \<lparr>kc_Brokers = [''localhost:9092''], kc_Topic = ''order-events'',
      kc_ConsumerGroup = ''order-projection'', kc_BatchSize = 100,
      kc_BatchTimeout = 10 * 1000000, kc_MinBytes = 1, kc_MaxBytes = push_bit 20 10,
      kc_MaxWait = 500 * 1000000\<rparr>"

text \<open>
  The writer and the reader of the Kafka client, by the settings the service gives them.  The hash
  balancer sends the messages of one key to one partition.
\<close>

record kafka_writer =
  kw_Addr :: "string list"
  kw_Topic :: string
  kw_Balancer :: string
  kw_BatchSize :: go_int
  kw_BatchTimeout :: int64
  kw_RequiredAcks :: string
  kw_Async :: bool

definition kafka_writer_of :: "KafkaConfig \<Rightarrow> kafka_writer" where
  "kafka_writer_of cfg =
     \<lparr>kw_Addr = kc_Brokers cfg, kw_Topic = kc_Topic cfg, kw_Balancer = ''Hash'', kw_BatchSize = kc_BatchSize cfg,
      kw_BatchTimeout = kc_BatchTimeout cfg, kw_RequiredAcks = ''RequireAll'', kw_Async = False\<rparr>"

definition NewKafkaEventBus :: "KafkaConfig \<Rightarrow> kafka_writer \<times> 'w handlers" where
  "NewKafkaEventBus cfg = (kafka_writer_of cfg, no_handlers)"

definition KafkaEventBus_Close :: "(kafka_writer \<Rightarrow> ('w, go_error + unit) state) \<Rightarrow> kafka_writer \<Rightarrow> ('w, go_error + unit) state" where
  "KafkaEventBus_Close closeWriter w = closeWriter w"

record reader_config =
  rd_Brokers :: "string list"
  rd_Topic :: string
  rd_GroupID :: string
  rd_MinBytes :: go_int
  rd_MaxBytes :: go_int
  rd_MaxWait :: int64

definition NewKafkaReader :: "KafkaConfig \<Rightarrow> reader_config" where
  "NewKafkaReader cfg =
     \<lparr>rd_Brokers = kc_Brokers cfg, rd_Topic = kc_Topic cfg, rd_GroupID = kc_ConsumerGroup cfg,
      rd_MinBytes = kc_MinBytes cfg, rd_MaxBytes = kc_MaxBytes cfg, rd_MaxWait = kc_MaxWait cfg\<rparr>"

record KafkaMessage =
  km_EventID :: string
  km_AggregateType :: string
  km_AggregateID :: string
  km_EventType :: string
  km_Payload :: json
  km_Metadata :: json
  km_OccurredAt :: time

text \<open>
  A raw message without bytes, which is no document: every decoder refuses it, as it refuses
  the empty input.
\<close>

definition raw_nil :: json where
  "raw_nil = JFloat ''''"

definition marshal_raw :: "json \<Rightarrow> json" where
  "marshal_raw j = (case j of JFloat s \<Rightarrow> (if s = '''' then JNull else j) | _ \<Rightarrow> j)"

definition decode_raw :: "json option \<Rightarrow> json" where
  "decode_raw j = (case j of None \<Rightarrow> raw_nil | Some d \<Rightarrow> d)"

definition marshal_KafkaMessage ::
  "('w, 'z) runtime_scheme \<Rightarrow> KafkaMessage \<Rightarrow> go_error + json" where
  "marshal_KafkaMessage R m =
     (case time_MarshalText R (km_OccurredAt m) of
        Inl err \<Rightarrow> Inl err
      | Inr t \<Rightarrow> Inr (JObj [''event_id'' \<mapsto> JStr (km_EventID m), ''aggregate_type'' \<mapsto> JStr (km_AggregateType m),
          ''aggregate_id'' \<mapsto> JStr (km_AggregateID m), ''event_type'' \<mapsto> JStr (km_EventType m),
          ''payload'' \<mapsto> marshal_raw (km_Payload m), ''metadata'' \<mapsto> marshal_raw (km_Metadata m),
          ''occurred_at'' \<mapsto> JStr t]))"

definition unmarshal_KafkaMessage ::
  "('w, 'z) runtime_scheme \<Rightarrow> json \<Rightarrow> go_error + KafkaMessage" where
  "unmarshal_KafkaMessage R j =
     (case decode_object j of Inl e \<Rightarrow> Inl e | Inr m \<Rightarrow>
      case decode_string (m ''event_id'') of Inl e \<Rightarrow> Inl e | Inr i \<Rightarrow>
      case decode_string (m ''aggregate_type'') of Inl e \<Rightarrow> Inl e | Inr aty \<Rightarrow>
      case decode_string (m ''aggregate_id'') of Inl e \<Rightarrow> Inl e | Inr aid \<Rightarrow>
      case decode_string (m ''event_type'') of Inl e \<Rightarrow> Inl e | Inr ty \<Rightarrow>
      case decode_time R (m ''occurred_at'') of Inl e \<Rightarrow> Inl e | Inr t \<Rightarrow>
        Inr \<lparr>km_EventID = i, km_AggregateType = aty, km_AggregateID = aid, km_EventType = ty,
          km_Payload = decode_raw (m ''payload''), km_Metadata = decode_raw (m ''metadata''),
          km_OccurredAt = t\<rparr>)"

text \<open>What \<^verbatim>\<open>kafka.Message\<close> carries: the key, the value and the headers.\<close>

record kafka_message =
  msg_Key :: string
  msg_Value :: json
  msg_Headers :: "(string \<times> string) list"

text \<open>The local handlers' errors are logged, not returned, and do not stop the loop.\<close>

fun dispatchLocal :: "'w EventHandler list \<Rightarrow> OutboxEvent \<Rightarrow> ('w, unit) state" where
  "dispatchLocal [] event = ret ()"
| "dispatchLocal (handler # hs) event = do { r \<leftarrow> handler event; dispatchLocal hs event }"

definition KafkaEventBus_Publish ::
  "('w, 'z) runtime_scheme \<Rightarrow> (kafka_message \<Rightarrow> ('w, go_error + unit) state) \<Rightarrow> 'w handlers \<Rightarrow> OutboxEvent
     \<Rightarrow> ('w, go_error + unit) state" where
  "KafkaEventBus_Publish R WriteMessages b event =
     (case marshal_KafkaMessage R
         \<lparr>km_EventID = uuid_String R (oe_ID event), km_AggregateType = oe_AggregateType event,
          km_AggregateID = oe_AggregateID event, km_EventType = oe_EventType event,
          km_Payload = oe_Payload event, km_Metadata = oe_Metadata event,
          km_OccurredAt = oe_OccurredAt event\<rparr> of
        Inl err \<Rightarrow> ret (Inl (ErrWrap ''marshal kafka message: '' err))
      | Inr value \<Rightarrow> do {
          r \<leftarrow> WriteMessages \<lparr>msg_Key = oe_AggregateID event, msg_Value = value,
            msg_Headers = [(''event_type'', oe_EventType event), (''aggregate_type'', oe_AggregateType event),
              (''event_id'', uuid_String R (oe_ID event))]\<rparr>;
          case r of
            Inl err \<Rightarrow> ret (Inl (ErrWrap ''write kafka message: '' err))
          | Inr _ \<Rightarrow> do { dispatchLocal (b (oe_EventType event)) event; ret (Inr ()) }
        })"

definition KafkaEventBus_HandleMessage :: "'w handlers \<Rightarrow> OutboxEvent \<Rightarrow> ('w, go_error + unit) state" where
  "KafkaEventBus_HandleMessage b event =
     (if b (oe_EventType event) = [] then ret (Inr ())
      else dispatch ''kafka handler error for '' (b (oe_EventType event)) event)"

section \<open>The NATS bus\<close>

definition NATSEventBus_Publish :: "OutboxEvent \<Rightarrow> ('w, go_error + unit) state" where
  "NATSEventBus_Publish event = ret (Inl (ErrText ''nats publisher not implemented''))"

definition NATSEventBus_Subscribe :: "'w handlers \<Rightarrow> string \<Rightarrow> 'w EventHandler \<Rightarrow> 'w handlers" where
  "NATSEventBus_Subscribe b eventType handler = b"

lemmas messaging_eval [go_defs] = no_handlers_def Subscribe_def InMemoryEventBus_Publish_def
  DefaultKafkaConfig_def kafka_writer_of_def NewKafkaEventBus_def KafkaEventBus_Close_def NewKafkaReader_def marshal_KafkaMessage_def unmarshal_KafkaMessage_def KafkaEventBus_Publish_def
  KafkaEventBus_HandleMessage_def NATSEventBus_Publish_def NATSEventBus_Subscribe_def

section \<open>Facts\<close>

text \<open>A predicate of the world that every handler keeps is kept by every dispatch.\<close>

lemma dispatch_invariant:
  assumes "\<And>h w r w'. h \<in> set hs \<Longrightarrow> run_state (h x) w = (r, w') \<Longrightarrow> I w \<Longrightarrow> I w'"
    and "run_state (dispatch p hs x) w = (r, w')" "I w"
  shows "I w'"
  using assms
proof (induction hs arbitrary: w)
  case (Cons h hs)
  from Cons.prems(2) obtain r1 w1 where h: "run_state (h x) w = (r1, w1)" and
    rest: "(case r1 of Inl err \<Rightarrow> w' = w1 | Inr _ \<Rightarrow> run_state (dispatch p hs x) w1 = (r, w'))"
    by (auto split: prod.splits sum.splits)
  have "I w1" using Cons.prems(1) [of h w r1 w1] h Cons.prems(3) by simp
  then show ?case using rest Cons.IH [of w1] Cons.prems(1) by (auto split: sum.splits)
qed simp

lemma dispatchLocal_invariant:
  assumes "\<And>h w r w'. h \<in> set hs \<Longrightarrow> run_state (h x) w = (r, w') \<Longrightarrow> I w \<Longrightarrow> I w'"
    and "run_state (dispatchLocal hs x) w = (u, w')" "I w"
  shows "I w'"
  using assms by (induction hs arbitrary: w) (fastforce split: prod.splits)+

lemma Publish_invariant:
  assumes "\<And>h w r w'. h \<in> set (b (oe_EventType x)) \<Longrightarrow> run_state (h x) w = (r, w') \<Longrightarrow> I w \<Longrightarrow> I w'"
    and "run_state (InMemoryEventBus_Publish b x) w = (r, w')" "I w"
  shows "I w'"
  using dispatch_invariant [of "b (oe_EventType x)" x I] assms
  by (auto simp: InMemoryEventBus_Publish_def split: if_splits)

lemma Subscribe_same [simp]: "Subscribe b ty h ty = b ty @ [h]"
  by (simp add: Subscribe_def)

lemma Subscribe_other [simp]: "ty' \<noteq> ty \<Longrightarrow> Subscribe b ty h ty' = b ty'"
  by (simp add: Subscribe_def)

text \<open>The outcome of a dispatch: the first error, wrapped, or none.\<close>

lemma dispatch_single:
  "dispatch p [h] x = do { r \<leftarrow> h x; case r of
     Inl err \<Rightarrow> ret (Inl (ErrWrap (p @ oe_EventType x @ '': '') err)) | Inr _ \<Rightarrow> ret (Inr ()) }"
  by simp

end
