(* ===== verification/Projection.thy ===== *)
theory Projection imports Ports begin

text \<open>
  The projection (\<^verbatim>\<open>internal/application/projection/order_projection.go\<close>): it reads
  domain events from outbox entries and keeps the read model, once per event.
\<close>

section \<open>The handler\<close>

definition HandlerName :: string where
  "HandlerName = ''OrderProjection''"

definition handleOrderCreated ::
  "('w, 'z) runtime_scheme \<Rightarrow> 'w ReadModelStore \<Rightarrow> OutboxEvent \<Rightarrow> ('w, go_error + unit) state" where
  "handleOrderCreated R rm event =
     (case unmarshal_OrderCreated R (oe_Payload event) of
        Inl err \<Rightarrow> ret (Inl (ErrWrap ''unmarshal OrderCreated: '' err))
      | Inr e \<Rightarrow> rm_UpsertOrderView rm
          \<lparr>ov_ID = parse_ignoring R (oc_ID e), ov_CustomerID = parse_ignoring R (oc_CustomerID e),
           ov_Status = oc_Status e, ov_TotalAmount = 0, ov_ItemCount = 0,
           ov_CreatedAt = oc_OccurredAt e, ov_UpdatedAt = oc_OccurredAt e\<rparr>)"

definition handleOrderItemAdded ::
  "('w, 'z) runtime_scheme \<Rightarrow> 'w ReadModelStore \<Rightarrow> OutboxEvent \<Rightarrow> ('w, go_error + unit) state" where
  "handleOrderItemAdded R rm event =
     (case unmarshal_OrderItemAdded R (oe_Payload event) of
        Inl err \<Rightarrow> ret (Inl (ErrWrap ''unmarshal OrderItemAdded: '' err))
      | Inr e \<Rightarrow>
          let orderID = parse_ignoring R (oia_OrderID e);
              itemID = parse_ignoring R (oia_ItemID e);
              totalPrice = oia_UnitPrice e * oia_Quantity e
          in do {
            now \<leftarrow> time_Now R;
            u \<leftarrow> rm_UpsertOrderItemView rm
              \<lparr>iv_ID = itemID, iv_OrderID = orderID, iv_ProductID = oia_ProductID e,
               iv_ProductName = oia_ProductName e, iv_Quantity = oia_Quantity e,
               iv_UnitPrice = oia_UnitPrice e, iv_TotalPrice = totalPrice, iv_CreatedAt = now\<rparr>;
            case u of
              Inl err \<Rightarrow> ret (Inl err)
            | Inr _ \<Rightarrow> do {
                g \<leftarrow> rm_GetOrderByID rm orderID;
                case g of
                  Inl err \<Rightarrow> ret (Inl (ErrWrap ''get order for recalc: '' err))
                | Inr (_, items) \<Rightarrow>
                    rm_UpdateOrderStatus rm orderID ''''
                      (fold (\<lambda>it newTotal. newTotal + iv_TotalPrice it) items 0)
              }
          })"

definition handleOrderConfirmed ::
  "('w, 'z) runtime_scheme \<Rightarrow> 'w ReadModelStore \<Rightarrow> OutboxEvent \<Rightarrow> ('w, go_error + unit) state" where
  "handleOrderConfirmed R rm event =
     (case unmarshal_OrderConfirmed R (oe_Payload event) of
        Inl err \<Rightarrow> ret (Inl (ErrWrap ''unmarshal OrderConfirmed: '' err))
      | Inr e \<Rightarrow> rm_UpdateOrderStatus rm (parse_ignoring R (ocf_OrderID e)) ''CONFIRMED'' (ocf_TotalAmount e))"

text \<open>The switch on the event type; \<^verbatim>\<open>None\<close> for a type it does not know.\<close>

definition projection_switch ::
  "('w, 'z) runtime_scheme \<Rightarrow> 'w ReadModelStore \<Rightarrow> OutboxEvent \<Rightarrow> ('w, go_error + unit) state option" where
  "projection_switch R rm event =
     (if oe_EventType event = ''OrderCreated'' then Some (handleOrderCreated R rm event)
      else if oe_EventType event = ''OrderItemAdded'' then Some (handleOrderItemAdded R rm event)
      else if oe_EventType event = ''OrderConfirmed'' then Some (handleOrderConfirmed R rm event)
      else None)"

definition OrderProjectionHandler_Handle ::
  "('w, 'z) runtime_scheme \<Rightarrow> 'w ReadModelStore \<Rightarrow> 'w ProcessedEventStore \<Rightarrow> OutboxEvent
     \<Rightarrow> ('w, go_error + unit) state" where
  "OrderProjectionHandler_Handle R rm ps event = do {
     p \<leftarrow> ps_IsProcessed ps (oe_ID event) HandlerName;
     case p of
       Inl err \<Rightarrow> ret (Inl (ErrWrap ''check processed event: '' err))
     | Inr processed \<Rightarrow>
         if processed then ret (Inr ())
         else (case projection_switch R rm event of
           None \<Rightarrow> ret (Inr ())
         | Some handle \<Rightarrow> do {
             r \<leftarrow> handle;
             case r of
               Inl err \<Rightarrow> ret (Inl err)
             | Inr _ \<Rightarrow> do {
                 m \<leftarrow> ps_MarkProcessed ps (oe_ID event) HandlerName;
                 case m of
                   Inl err \<Rightarrow> ret (Inl (ErrWrap ''mark processed: '' err))
                 | Inr _ \<Rightarrow> ret (Inr ())
               }
           })
   }"

lemmas projection_eval [go_defs] = HandlerName_def handleOrderCreated_def handleOrderItemAdded_def
  handleOrderConfirmed_def projection_switch_def OrderProjectionHandler_Handle_def

section \<open>Specification\<close>

text \<open>
  What one domain event does to the views and lines.  The item count may stay zero when
  counting failed, so it is one of two values.
\<close>

definition lines_total :: "(uuid \<Rightarrow> line_row option) \<Rightarrow> uuid \<Rightarrow> int64" where
  "lines_total L i = (\<Sum>k\<in>lines_of L i. lr_total (the (L k)))"

definition counted :: "(uuid \<Rightarrow> line_row option) \<Rightarrow> uuid \<Rightarrow> go_int set" where
  "counted L i = {0, of_nat (card (lines_of L i))}"

definition line_of_event :: "('w, 'z) runtime_scheme \<Rightarrow> OrderItemAdded \<Rightarrow> line_row" where
  "line_of_event R e = \<lparr>lr_order = parse_ignoring R (oia_OrderID e), lr_product = oia_ProductID e,
     lr_name = oia_ProductName e, lr_quantity = oia_Quantity e, lr_price = oia_UnitPrice e,
     lr_total = oia_UnitPrice e * oia_Quantity e\<rparr>"

fun projected ::
  "('w, 'z) runtime_scheme \<Rightarrow> DomainEvent \<Rightarrow> (uuid \<Rightarrow> view_row option) \<Rightarrow> (uuid \<Rightarrow> line_row option)
     \<Rightarrow> (uuid \<Rightarrow> view_row option) \<Rightarrow> (uuid \<Rightarrow> line_row option) \<Rightarrow> bool" where
  "projected R (EvOrderCreated e) V L V' L' \<longleftrightarrow>
     (let i = parse_ignoring R (oc_ID e) in
      V' = V(i \<mapsto> upsert_view \<lparr>vr_customer = parse_ignoring R (oc_CustomerID e), vr_status = oc_Status e,
        vr_total = 0, vr_count = 0\<rparr> (V i)) \<and> L' = L)"
| "projected R (EvOrderItemAdded e) V L V' L' \<longleftrightarrow>
     (let i = parse_ignoring R (oia_OrderID e); k = parse_ignoring R (oia_ItemID e) in
      L' = L(k \<mapsto> upsert_line (line_of_event R e) (L k)) \<and>
      (\<exists>r n. V i = Some r \<and> n \<in> counted L' i \<and> V' = V(i \<mapsto> restate '''' (lines_total L' i) n r)))"
| "projected R (EvOrderConfirmed e) V L V' L' \<longleftrightarrow>
     (let i = parse_ignoring R (ocf_OrderID e) in
      L' = L \<and> (\<exists>n \<in> counted L i.
        V' = V(i := map_option (restate ''CONFIRMED'' (ocf_TotalAmount e) n) (V i))))"

text \<open>The views the specification is about have a status, and so do the events.\<close>

definition statuses_ok :: "(uuid \<Rightarrow> view_row option) \<Rightarrow> bool" where
  "statuses_ok V \<longleftrightarrow> (\<forall>i r. V i = Some r \<longrightarrow> vr_status r \<noteq> '''')"

fun event_status_ok :: "DomainEvent \<Rightarrow> bool" where
  "event_status_ok (EvOrderCreated e) = (oc_Status e \<noteq> '''')"
| "event_status_ok _ = True"

text \<open>An entry carries a domain event: its type and payload decode to it.\<close>

definition carries :: "('w, 'z) runtime_scheme \<Rightarrow> OutboxEvent \<Rightarrow> DomainEvent \<Rightarrow> bool" where
  "carries R x ev \<longleftrightarrow> unmarshal_event R (oe_EventType x) (oe_Payload x) = Inr ev"

locale projection_stores =
  runtime_codec R +
  rm: read_model rm views lines rframe +
  ps: processed_store ps processed pframe
  for R :: "('w, 'z) runtime_scheme" and rm :: "'w ReadModelStore" and ps :: "'w ProcessedEventStore"
    and views :: "'w \<Rightarrow> uuid \<Rightarrow> view_row option" and lines :: "'w \<Rightarrow> uuid \<Rightarrow> line_row option"
    and processed :: "'w \<Rightarrow> (uuid \<times> string) set"
    and rframe :: "'w \<Rightarrow> 'f" and pframe :: "'w \<Rightarrow> 'g" +
  assumes rframe_processed: "rframe w = rframe w' \<Longrightarrow> processed w = processed w'"
    and pframe_read: "pframe w = pframe w' \<Longrightarrow> views w = views w' \<and> lines w = lines w'"
    and now_read: "run_state (time_Now R) w = (t, w') \<Longrightarrow>
          views w' = views w \<and> lines w' = lines w \<and> processed w' = processed w"

section \<open>The handler meets the specification\<close>

lemma fold_sum: "fold (\<lambda>x t. t + (f x :: int64)) xs a = a + (\<Sum>x\<leftarrow>xs. f x)"
  by (induction xs arbitrary: a) (simp_all add: add.assoc)

lemma carriesE:
  assumes "carries R x ev"
  obtains (created) e where "ev = EvOrderCreated e" "oe_EventType x = ''OrderCreated''"
      "unmarshal_OrderCreated R (oe_Payload x) = Inr e"
  | (added) e where "ev = EvOrderItemAdded e" "oe_EventType x = ''OrderItemAdded''"
      "unmarshal_OrderItemAdded R (oe_Payload x) = Inr e"
  | (confirmed) e where "ev = EvOrderConfirmed e" "oe_EventType x = ''OrderConfirmed''"
      "unmarshal_OrderConfirmed R (oe_Payload x) = Inr e"
  using assms by (auto simp: carries_def unmarshal_event_def split: if_splits sum.splits)

context projection_stores begin

lemma handleOrderCreated_ok:
  assumes "run_state (handleOrderCreated R rm x) w = (Inr u, w')"
    and e: "unmarshal_OrderCreated R (oe_Payload x) = Inr e" "oc_Status e \<noteq> ''''"
  shows "projected R (EvOrderCreated e) (views w) (lines w) (views w') (lines w') \<and> rframe w' = rframe w"
proof -
  have "run_state (rm_UpsertOrderView rm \<lparr>ov_ID = parse_ignoring R (oc_ID e),
      ov_CustomerID = parse_ignoring R (oc_CustomerID e), ov_Status = oc_Status e, ov_TotalAmount = 0,
      ov_ItemCount = 0, ov_CreatedAt = oc_OccurredAt e, ov_UpdatedAt = oc_OccurredAt e\<rparr>) w = (Inr u, w')"
    using assms(1) by (simp add: handleOrderCreated_def e)
  from rm.upsert_order_ok [OF this] e(2) show ?thesis by (simp add: Let_def view_row_of_def)
qed

lemma lines_total_fold:
  assumes "run_state (rm_GetOrderByID rm i) w = (Inr (v, items), w')"
  shows "fold (\<lambda>it t. t + iv_TotalPrice it) items 0 = lines_total (lines w) i"
proof -
  note g = rm.get_ok [OF assms]
  have "(\<Sum>x\<leftarrow>items. iv_TotalPrice x) = (\<Sum>x\<in>set items. iv_TotalPrice x)"
    using g by (simp add: sum_list_distinct_conv_sum_set distinct_map)
  also have "\<dots> = (\<Sum>k\<in>iv_ID ` set items. lr_total (the (lines w k)))"
    using g by (subst sum.reindex) (auto simp: distinct_map line_row_of_def intro!: sum.cong)
  finally show ?thesis using g by (simp add: lines_total_def fold_sum)
qed

lemma handleOrderItemAdded_ok:
  assumes "run_state (handleOrderItemAdded R rm x) w = (Inr u, w')"
    and e: "unmarshal_OrderItemAdded R (oe_Payload x) = Inr e" and ok: "statuses_ok (views w)"
  shows "projected R (EvOrderItemAdded e) (views w) (lines w) (views w') (lines w') \<and>
    processed w' = processed w"
proof -
  let ?i = "parse_ignoring R (oia_OrderID e)"
  let ?v = "\<lambda>now. \<lparr>iv_ID = parse_ignoring R (oia_ItemID e), iv_OrderID = ?i,
    iv_ProductID = oia_ProductID e, iv_ProductName = oia_ProductName e, iv_Quantity = oia_Quantity e,
    iv_UnitPrice = oia_UnitPrice e, iv_TotalPrice = oia_UnitPrice e * oia_Quantity e, iv_CreatedAt = now\<rparr>"
  from assms(1) e obtain now w1 w2 v items w3 where
    N: "run_state (time_Now R) w = (now, w1)" and
    U: "run_state (rm_UpsertOrderItemView rm (?v now)) w1 = (Inr (), w2)" and
    G: "run_state (rm_GetOrderByID rm ?i) w2 = (Inr (v, items), w3)" and
    S: "run_state (rm_UpdateOrderStatus rm ?i '''' (fold (\<lambda>it t. t + iv_TotalPrice it) items 0)) w3 = (Inr u, w')"
    by (auto simp: handleOrderItemAdded_def Let_def split: prod.splits sum.splits)
  note n = now_read [OF N] and up = rm.upsert_item_ok [OF U] and g = rm.get_ok [OF G]
  have status: "\<And>r. views w3 ?i = Some r \<Longrightarrow> vr_status r \<noteq> ''''"
    using ok n up g by (auto simp: statuses_ok_def)
  note s = rm.update_ok [OF S status, unfolded lines_total_fold [OF G]]
  have "line_row_of (?v now) = line_of_event R e" by (simp add: line_row_of_def line_of_event_def)
  moreover have "processed w' = processed w"
    using n up g s rframe_processed by metis
  ultimately show ?thesis using n up g s
    by (auto simp: Let_def counted_def)
qed

lemma handleOrderConfirmed_ok:
  assumes "run_state (handleOrderConfirmed R rm x) w = (Inr u, w')"
    and e: "unmarshal_OrderConfirmed R (oe_Payload x) = Inr e" and ok: "statuses_ok (views w)"
  shows "projected R (EvOrderConfirmed e) (views w) (lines w) (views w') (lines w') \<and> rframe w' = rframe w"
proof -
  have S: "run_state (rm_UpdateOrderStatus rm (parse_ignoring R (ocf_OrderID e)) ''CONFIRMED''
      (ocf_TotalAmount e)) w = (Inr u, w')"
    using assms(1) by (simp add: handleOrderConfirmed_def e)
  have "\<And>r. views w (parse_ignoring R (ocf_OrderID e)) = Some r \<Longrightarrow> vr_status r \<noteq> ''''"
    using ok by (auto simp: statuses_ok_def)
  from rm.update_ok [OF S this] show ?thesis by (auto simp: Let_def counted_def)
qed

lemma Handle_skips:
  assumes "run_state (OrderProjectionHandler_Handle R rm ps x) w = (r, w')"
    and "(oe_ID x, HandlerName) \<in> processed w"
  shows "(r = Inr () \<or> (\<exists>e. r = Inl (ErrWrap ''check processed event: '' e) \<and> is_driver_error e)) \<and>
    views w' = views w \<and> lines w' = lines w \<and> processed w' = processed w"
proof -
  obtain p w1 where P: "run_state (ps_IsProcessed ps (oe_ID x) HandlerName) w = (p, w1)" by fastforce
  show ?thesis
  proof (cases p)
    case (Inl e)
    then show ?thesis using assms(1) P ps.IsProcessed_err [of "oe_ID x" HandlerName w e w1]
        pframe_read [of w1 w] by (auto simp: OrderProjectionHandler_Handle_def)
  next
    case (Inr b)
    then show ?thesis using assms P ps.IsProcessed_ok [of "oe_ID x" HandlerName w b w1]
        pframe_read [of w1 w] by (auto simp: OrderProjectionHandler_Handle_def)
  qed
qed

lemma Handle_unknown:
  assumes "run_state (OrderProjectionHandler_Handle R rm ps x) w = (r, w')"
    and "projection_switch R rm x = None"
  shows "views w' = views w \<and> lines w' = lines w \<and> processed w' = processed w"
proof -
  obtain p w1 where P: "run_state (ps_IsProcessed ps (oe_ID x) HandlerName) w = (p, w1)" by fastforce
  have "w' = w1" using assms P
    by (auto simp: OrderProjectionHandler_Handle_def split: sum.splits if_splits)
  then show ?thesis using P ps.IsProcessed_err ps.IsProcessed_ok pframe_read [of w1 w] by (cases p) blast+
qed

lemma Handle_projects:
  assumes "run_state (OrderProjectionHandler_Handle R rm ps x) w = (Inr u, w')"
    and "(oe_ID x, HandlerName) \<notin> processed w" "carries R x ev" "event_status_ok ev" "statuses_ok (views w)"
  shows "projected R ev (views w) (lines w) (views w') (lines w') \<and>
    processed w' = insert (oe_ID x, HandlerName) (processed w)"
proof -
  from assms(1,2) obtain w1 h w2 where
    P: "run_state (ps_IsProcessed ps (oe_ID x) HandlerName) w = (Inr False, w1)" and
    sw: "projection_switch R rm x = Some h" and H: "run_state h w1 = (Inr (), w2)" and
    M: "run_state (ps_MarkProcessed ps (oe_ID x) HandlerName) w2 = (Inr (), w')"
    using assms(3) by (elim carriesE)
      (auto simp: OrderProjectionHandler_Handle_def projection_switch_def
        split: sum.splits prod.splits if_splits dest!: ps.IsProcessed_ok)
  note p = ps.IsProcessed_ok [OF P] and m = ps.MarkProcessed_ok [OF M]
  have w1: "views w1 = views w" "lines w1 = lines w" "processed w1 = processed w"
    using p pframe_read [of w1 w] by auto
  have "projected R ev (views w1) (lines w1) (views w2) (lines w2) \<and> processed w2 = processed w1"
    using assms(3)
  proof (cases rule: carriesE)
    case (created e)
    with sw H assms(4) handleOrderCreated_ok [of x w1 "()" w2 e] rframe_processed [of w2 w1]
    show ?thesis by (simp add: projection_switch_def)
  next
    case (added e)
    with sw H assms(5) w1 handleOrderItemAdded_ok [of x w1 "()" w2 e]
    show ?thesis by (simp add: projection_switch_def)
  next
    case (confirmed e)
    with sw H assms(5) w1 handleOrderConfirmed_ok [of x w1 "()" w2 e] rframe_processed [of w2 w1]
    show ?thesis by (simp add: projection_switch_def)
  qed
  then show ?thesis using w1 m pframe_read [of w' w2] by simp
qed

end

end
