(* ===== verification/Workers.thy ===== *)
theory Workers imports Messaging Projection begin

text \<open>
  The background workers (\<^verbatim>\<open>infrastructure/worker/*.go\<close>): the relay that publishes the
  outbox, the Kafka consumer, and the wiring of the projection.  Logging is left out; a
  batch yields the increments of its two counters.
\<close>

section \<open>The outbox relay\<close>

type_synonym 'w publisher = "OutboxEvent \<Rightarrow> ('w, go_error + unit) state"

fun process_events :: "'w OutboxStore \<Rightarrow> 'w publisher \<Rightarrow> OutboxEvent list \<Rightarrow> ('w, nat \<times> nat) state" where
  "process_events ob publish [] = ret (0, 0)"
| "process_events ob publish (event # events) = do {
     p \<leftarrow> publish event;
     case p of
       Inl err \<Rightarrow> do {
         m \<leftarrow> ob_MarkFailed ob (oe_ID event) (error_text err);
         (ok, failed) \<leftarrow> process_events ob publish events;
         ret (ok, failed + 1)
       }
     | Inr _ \<Rightarrow> do {
         m \<leftarrow> ob_MarkPublished ob (oe_ID event);
         case m of
           Inl err \<Rightarrow> process_events ob publish events
         | Inr _ \<Rightarrow> do {
             (ok, failed) \<leftarrow> process_events ob publish events;
             ret (ok + 1, failed)
           }
       }
   }"

definition OutboxWorker_processBatch ::
  "'w OutboxStore \<Rightarrow> 'w publisher \<Rightarrow> go_int \<Rightarrow> ('w, nat \<times> nat) state" where
  "OutboxWorker_processBatch ob publish batchSize = do {
     f \<leftarrow> ob_FetchPending ob batchSize;
     case f of
       Inl err \<Rightarrow> ret (0, 0)
     | Inr events \<Rightarrow> if length events = 0 then ret (0, 0) else process_events ob publish events
   }"

text \<open>
  The polling loop.  \<open>wait\<close> is the \<^verbatim>\<open>select\<close>: it yields whether the context was cancelled,
  otherwise the ticker fired; a round yields whether the loop goes on.  \<^verbatim>\<open>time.NewTicker\<close> panics
  unless the interval is positive.  \<^verbatim>\<open>None\<close>: \<^verbatim>\<open>Run\<close> does not return.
\<close>

definition OutboxWorker_poll ::
  "('w, bool) state \<Rightarrow> 'w OutboxStore \<Rightarrow> 'w publisher \<Rightarrow> go_int \<Rightarrow> ('w, bool) state" where
  "OutboxWorker_poll wait ob publish batchSize = do {
     cancelled \<leftarrow> wait;
     if cancelled then ret False
     else do { c \<leftarrow> OutboxWorker_processBatch ob publish batchSize; ret True }
   }"

definition OutboxWorker_Run ::
  "('w, bool) state \<Rightarrow> 'w OutboxStore \<Rightarrow> 'w publisher \<Rightarrow> go_int \<Rightarrow> int64 \<Rightarrow> 'w \<Rightarrow> ((string + unit) \<times> 'w) option" where
  "OutboxWorker_Run wait ob publish batchSize pollInterval w =
     (if sint pollInterval \<le> 0 then Some (Inl ''non-positive interval for NewTicker'', w)
      else map_option (Pair (Inr ())) (forever (OutboxWorker_poll wait ob publish batchSize) w))"

section \<open>The projection's subscriptions\<close>

definition ProjectionWorker_Setup :: "'w handlers \<Rightarrow> 'w EventHandler \<Rightarrow> 'w handlers" where
  "ProjectionWorker_Setup bus handle =
     Subscribe (Subscribe (Subscribe bus ''OrderCreated'' handle) ''OrderItemAdded'' handle)
       ''OrderConfirmed'' handle"

section \<open>The Kafka consumer\<close>

text \<open>
  A fetched message with its offset.  The reader is a parameter: \<open>kr_FetchMessage\<close>,
  \<open>kr_CommitMessages\<close> and \<open>kr_Close\<close> are its methods, \<open>kr_Done\<close> polls the context and
  \<open>kr_Sleep\<close> waits one second.
\<close>

record consumed_message =
  cm_Value :: json
  cm_Offset :: nat

record 'w kafka_reader =
  kr_Done :: "('w, bool) state"
  kr_FetchMessage :: "('w, go_error + consumed_message) state"
  kr_CommitMessages :: "consumed_message \<Rightarrow> ('w, go_error + unit) state"
  kr_Close :: "('w, go_error + unit) state"
  kr_Sleep :: "('w, unit) state"

definition parseMessage ::
  "('w, 'z) runtime_scheme \<Rightarrow> json \<Rightarrow> go_error + OutboxEvent" where
  "parseMessage R value =
     (case unmarshal_KafkaMessage R value of
        Inl err \<Rightarrow> Inl err
      | Inr km \<Rightarrow>
          (case uuid_Parse R (km_EventID km) of
             Inl err \<Rightarrow> Inl err
           | Inr eventID \<Rightarrow> Inr
               \<lparr>oe_ID = eventID, oe_AggregateType = km_AggregateType km, oe_AggregateID = km_AggregateID km,
                oe_EventType = km_EventType km, oe_Payload = km_Payload km, oe_Metadata = km_Metadata km,
                oe_OccurredAt = km_OccurredAt km, oe_AvailableAt = time_zero, oe_PublishedAt = None,
                oe_Status = ''published'', oe_RetryCount = 0, oe_LastError = None\<rparr>))"

text \<open>One iteration of the loop; it yields whether the loop goes on.\<close>

definition KafkaConsumerWorker_iteration ::
  "('w, 'z) runtime_scheme \<Rightarrow> 'w kafka_reader \<Rightarrow> 'w handlers \<Rightarrow> ('w, bool) state" where
  "KafkaConsumerWorker_iteration R reader b = do {
     stop \<leftarrow> kr_Done reader;
     if stop then do { c \<leftarrow> kr_Close reader; ret False }
     else do {
       f \<leftarrow> kr_FetchMessage reader;
       case f of
         Inl err \<Rightarrow> do {
           cancelled \<leftarrow> kr_Done reader;
           if cancelled then ret False else do { kr_Sleep reader; ret True }
         }
       | Inr msg \<Rightarrow>
           (case parseMessage R (cm_Value msg) of
              Inl err \<Rightarrow> do { c \<leftarrow> kr_CommitMessages reader msg; ret True }
            | Inr event \<Rightarrow> do {
                h \<leftarrow> KafkaEventBus_HandleMessage b event;
                case h of
                  Inl err \<Rightarrow> do { kr_Sleep reader; ret True }
                | Inr _ \<Rightarrow> do { c \<leftarrow> kr_CommitMessages reader msg; ret True }
              })
     }
   }"

definition KafkaConsumerWorker_Run ::
  "('w, 'z) runtime_scheme \<Rightarrow> 'w kafka_reader \<Rightarrow> 'w handlers \<Rightarrow> 'w \<Rightarrow> 'w option" where
  "KafkaConsumerWorker_Run R reader b = forever (KafkaConsumerWorker_iteration R reader b)"

lemmas workers_eval [go_defs] = OutboxWorker_Run_def OutboxWorker_poll_def OutboxWorker_processBatch_def ProjectionWorker_Setup_def parseMessage_def
  KafkaConsumerWorker_iteration_def

section \<open>What a batch does to the outbox\<close>

text \<open>
  An entry after a batch: as before, or, when it was pending, published, or counted as
  failed once more.
\<close>

definition relayed :: "OutboxEvent \<Rightarrow> OutboxEvent \<Rightarrow> bool" where
  "relayed x y \<longleftrightarrow> y = x \<or> oe_Status x = ''pending'' \<and>
     ((\<exists>now. kept (published_at now x) y) \<or>
      (\<exists>msg now. attempted msg x y \<and> (countable_entry x \<longrightarrow> kept (failed_once msg now x) y)))"

definition relays ::
  "(uuid \<Rightarrow> OutboxEvent option) \<Rightarrow> (uuid \<Rightarrow> OutboxEvent option) \<Rightarrow> uuid set \<Rightarrow> bool" where
  "relays m m' K \<longleftrightarrow> (\<forall>k. k \<notin> K \<longrightarrow> m' k = m k) \<and>
     (\<forall>k \<in> K. \<exists>x y. m k = Some x \<and> m' k = Some y \<and> relayed x y)"

text \<open>A delivery outcome: published, or failed once more.\<close>

lemma kept_published: "kept (published_at now x) y \<Longrightarrow> oe_Status y = ''published'' \<and> oe_ID y = oe_ID x"
  by (cases x; cases y) (simp add: kept_def published_at_def)

lemma entries_updated_one:
  assumes "entries_updated (\<lambda>x. oe_ID x = i) g m m'" "\<And>k x. m k = Some x \<Longrightarrow> oe_ID x = k"
  shows "k \<noteq> i \<Longrightarrow> m' k = m k" "m i = Some x \<Longrightarrow> \<exists>y. m' i = Some y \<and> kept (g x) y"
proof -
  have *: "case m k of None \<Rightarrow> m' k = None
      | Some x \<Rightarrow> if oe_ID x = i then \<exists>y. m' k = Some y \<and> kept (g x) y else m' k = Some x" for k
    using assms(1) by (simp add: entries_updated_def)
  show "k \<noteq> i \<Longrightarrow> m' k = m k" using *[of k] assms(2) [of k] by (cases "m k") auto
  show "m i = Some x \<Longrightarrow> \<exists>y. m' i = Some y \<and> kept (g x) y" using *[of i] assms(2) [of i x] by simp
qed

lemma relays_step:
  assumes "m k = Some x" "m1 = m(k \<mapsto> y)" "relayed x y" "relays m1 m' K" "k \<notin> K"
  shows "relays m m' (insert k K)"
  unfolding relays_def
proof (intro conjI allI impI ballI)
  fix i assume "i \<notin> insert k K"
  then show "m' i = m i" using assms(2,4) by (simp add: relays_def)
next
  fix i assume i: "i \<in> insert k K"
  show "\<exists>x y. m i = Some x \<and> m' i = Some y \<and> relayed x y"
  proof (cases "i = k")
    case True
    with assms have "m' k = Some y" by (simp add: relays_def)
    with True assms(1,3) show ?thesis by blast
  next
    case False
    with i have "i \<in> K" by simp
    with assms(4) obtain x' y' where "m1 i = Some x'" "m' i = Some y'" "relayed x' y'"
      unfolding relays_def by blast
    with False assms(2) show ?thesis by auto
  qed
qed

lemma relays_refl:
  "(\<And>k. k \<in> K \<Longrightarrow> \<exists>x. m k = Some x) \<Longrightarrow> relays m m K"
  by (fastforce simp: relays_def relayed_def)

context outbox_store begin

text \<open>The publisher delivers elsewhere: it leaves the outbox alone.\<close>

lemma process_events_relays:
  assumes publish: "\<And>x w r w'. run_state (publish x) w = (r, w') \<Longrightarrow> outbox w' = outbox w"
    and "run_state (process_events ob publish xs) w = (c, w')"
    and "distinct (map oe_ID xs)" "\<forall>x \<in> set xs. outbox w (oe_ID x) = Some x \<and> oe_Status x = ''pending''"
  shows "relays (outbox w) (outbox w') (oe_ID ` set xs)"
  using assms(2-4)
proof (induction xs arbitrary: w c)
  case Nil
  then show ?case by (simp add: relays_def)
next
  case (Cons x xs)
  from Cons.prems(1) obtain p w1 mres w2 c2 where
    P: "run_state (publish x) w = (p, w1)" and
    M: "(case p of Inl err \<Rightarrow> run_state (ob_MarkFailed ob (oe_ID x) (error_text err)) w1 = (mres, w2)
         | Inr _ \<Rightarrow> run_state (ob_MarkPublished ob (oe_ID x)) w1 = (mres, w2))" and
    R: "run_state (process_events ob publish xs) w2 = (c2, w')"
    by (auto split: prod.splits sum.splits)
  have w1: "outbox w1 = outbox w" using P by (rule publish)
  have x: "outbox w (oe_ID x) = Some x" "oe_Status x = ''pending''" using Cons.prems(3) by auto
  have "\<exists>y. outbox w2 = (outbox w)(oe_ID x \<mapsto> y) \<and> relayed x y"
  proof (cases mres)
    case (Inl e)
    then have "outbox w2 = outbox w"
      using M w1 failed_err [of "oe_ID x" _ w1 e w2] published_err [of "oe_ID x" w1 e w2]
      by (auto split: sum.splits)
    then show ?thesis using x by (intro exI [of _ x]) (auto simp: relayed_def)
  next
    case (Inr u)
    show ?thesis
    proof (cases p)
      case (Inl err)
      with M Inr have "run_state (ob_MarkFailed ob (oe_ID x) (error_text err)) w1 = (Inr u, w2)" by simp
      from failed_ok [OF this] w1 x show ?thesis by (auto simp: relayed_def)
    next
      case (Inr v)
      with M \<open>mres = Inr u\<close> have "run_state (ob_MarkPublished ob (oe_ID x)) w1 = (Inr u, w2)" by simp
      from published_ok [OF this] obtain now where
        up: "entries_updated (\<lambda>y. oe_ID y = oe_ID x) (published_at now) (outbox w) (outbox w2)"
        using w1 by auto
      from entries_updated_one(2) [OF up _ x(1)] outbox_key obtain y where
        y: "outbox w2 (oe_ID x) = Some y" "kept (published_at now x) y" by blast
      moreover have "outbox w2 = (outbox w)(oe_ID x \<mapsto> y)"
        using entries_updated_one(1) [OF up] outbox_key y(1) by (intro ext) auto
      ultimately show ?thesis using x(2) by (auto simp: relayed_def)
    qed
  qed
  then obtain y where y: "outbox w2 = (outbox w)(oe_ID x \<mapsto> y)" "relayed x y" by blast
  have "\<forall>z \<in> set xs. oe_ID z \<noteq> oe_ID x" using Cons.prems(2) by (metis distinct.simps(2) imageI list.set_map list.simps(9))
  with Cons.prems(3) have "\<forall>z \<in> set xs. outbox w2 (oe_ID z) = Some z \<and> oe_Status z = ''pending''"
    by (simp add: y(1))
  from Cons.IH [OF R _ this] Cons.prems(2) have "relays (outbox w2) (outbox w') (oe_ID ` set xs)"
    by simp
  from relays_step [OF x(1) y this] Cons.prems(2) show ?case by simp
qed

lemma processBatch_relays:
  assumes publish: "\<And>x w r w'. run_state (publish x) w = (r, w') \<Longrightarrow> outbox w' = outbox w"
    and run: "run_state (OutboxWorker_processBatch ob publish n) w = (c, w')" and n: "sint n \<ge> 0"
  shows "\<exists>K. finite K \<and> card K \<le> nat (sint n) \<and> relays (outbox w) (outbox w') K"
proof -
  obtain f w1 where F: "run_state (ob_FetchPending ob n) w = (f, w1)" by fastforce
  show ?thesis
  proof (cases f)
    case (Inl e)
    with F run fetch_err [of n w e w1] have "outbox w' = outbox w"
      by (auto simp: OutboxWorker_processBatch_def)
    then show ?thesis by (intro exI [of _ "{}"]) (simp add: relays_def)
  next
    case (Inr xs)
    note f = fetch_ok [OF F [unfolded Inr] n]
    have "relays (outbox w1) (outbox w') (oe_ID ` set xs)"
    proof (cases "xs = []")
      case True
      with F Inr run show ?thesis by (simp add: OutboxWorker_processBatch_def relays_def)
    next
      case False
      with F Inr run have "run_state (process_events ob publish xs) w1 = (c, w')"
        by (simp add: OutboxWorker_processBatch_def)
      from process_events_relays [OF publish this] f show ?thesis by auto
    qed
    moreover have "card (oe_ID ` set xs) \<le> nat (sint n)"
      using f card_image_le [of "set xs" oe_ID] card_length [of xs] by simp
    ultimately show ?thesis using f by (intro exI [of _ "oe_ID ` set xs"]) simp
  qed
qed

end

end
