(* ===== verification/Read_Model_Store.thy ===== *)
theory Read_Model_Store imports Ports Platform begin

text \<open>
  The read model (\<^verbatim>\<open>persistence/read_model_store.go\<close>): lookups, the filtered, sorted and
  paginated list, and the upserts the projection writes through.
\<close>

section \<open>Operations\<close>

definition to_order_view :: "OrderViewModel \<Rightarrow> OrderView" where
  "to_order_view m =
     \<lparr>ov_ID = ovm_ID m, ov_CustomerID = ovm_CustomerID m, ov_Status = ovm_Status m,
      ov_TotalAmount = ovm_TotalAmount m, ov_ItemCount = ovm_ItemCount m,
      ov_CreatedAt = ovm_CreatedAt m, ov_UpdatedAt = ovm_UpdatedAt m\<rparr>"

definition to_item_view :: "OrderItemViewModel \<Rightarrow> OrderItemView" where
  "to_item_view im =
     \<lparr>iv_ID = ivm_ID im, iv_OrderID = ivm_OrderID im, iv_ProductID = ivm_ProductID im,
      iv_ProductName = ivm_ProductName im, iv_Quantity = ivm_Quantity im,
      iv_UnitPrice = ivm_UnitPrice im, iv_TotalPrice = ivm_TotalPrice im, iv_CreatedAt = ivm_CreatedAt im\<rparr>"

definition GormReadModelStore_GetOrderByID ::
  "'w platform \<Rightarrow> uuid \<Rightarrow> ('w, go_error + OrderView \<times> OrderItemView list) state" where
  "GormReadModelStore_GetOrderByID E i = do {
     r \<leftarrow> g_First (pf_order_views E) (\<lambda>m. ovm_ID m = i);
     case r of
       Inl err \<Rightarrow>
         if errors_is err GormErrRecordNotFound then ret (Inl ErrOrderNotFound) else ret (Inl err)
     | Inr model \<Rightarrow> do {
         rs \<leftarrow> g_Find (pf_item_views E) (\<lambda>im. ivm_OrderID im = i);
         case rs of
           Inl err \<Rightarrow> ret (Inl err)
         | Inr itemModels \<Rightarrow> ret (Inr (to_order_view model, map to_item_view itemModels))
       }
   }"

text \<open>The \<^verbatim>\<open>WHERE\<close> clauses of the list query; an absent filter adds none.\<close>

definition list_where :: "ListOrdersFilter \<Rightarrow> OrderViewModel \<Rightarrow> bool" where
  "list_where f m \<longleftrightarrow>
     (case fl_CustomerID f of None \<Rightarrow> True | Some c \<Rightarrow> ovm_CustomerID m = c) \<and>
     (case fl_Status f of None \<Rightarrow> True | Some s \<Rightarrow> s \<noteq> '''' \<longrightarrow> ovm_Status m = s) \<and>
     (case fl_CreatedFrom f of None \<Rightarrow> True | Some t \<Rightarrow> ovm_CreatedAt m \<ge> t) \<and>
     (case fl_CreatedTo f of None \<Rightarrow> True | Some t \<Rightarrow> ovm_CreatedAt m \<le> t)"

text \<open>
  The \<^verbatim>\<open>ORDER BY\<close> clause as text, whitelisted, and the order it asks for.  Statuses are
  compared by the collation of the database, a parameter.
\<close>

definition order_clause :: "ListOrdersFilter \<Rightarrow> string" where
  "order_clause f =
     (if fl_SortBy f \<noteq> '''' then
        (let dir = (if fl_SortDir f = ''desc'' then ''DESC'' else ''ASC'') in
         if fl_SortBy f \<in> {''created_at'', ''total_amount'', ''status'', ''updated_at''}
         then fl_SortBy f @ '' '' @ dir else ''created_at DESC'')
      else ''created_at DESC'')"

definition order_by :: "(string \<Rightarrow> string \<Rightarrow> bool) \<Rightarrow> string \<Rightarrow> OrderViewModel \<Rightarrow> OrderViewModel \<Rightarrow> bool" where
  "order_by collate clause a b =
     (if clause = ''created_at ASC'' then ovm_CreatedAt a \<le> ovm_CreatedAt b
      else if clause = ''created_at DESC'' then ovm_CreatedAt b \<le> ovm_CreatedAt a
      else if clause = ''updated_at ASC'' then ovm_UpdatedAt a \<le> ovm_UpdatedAt b
      else if clause = ''updated_at DESC'' then ovm_UpdatedAt b \<le> ovm_UpdatedAt a
      else if clause = ''total_amount ASC'' then sint (ovm_TotalAmount a) \<le> sint (ovm_TotalAmount b)
      else if clause = ''total_amount DESC'' then sint (ovm_TotalAmount b) \<le> sint (ovm_TotalAmount a)
      else if clause = ''status ASC'' then collate (ovm_Status a) (ovm_Status b)
      else if clause = ''status DESC'' then collate (ovm_Status b) (ovm_Status a)
      else True)"

definition GormReadModelStore_ListOrders ::
  "'w platform \<Rightarrow> ListOrdersFilter \<Rightarrow> ('w, go_error + PaginatedOrders) state" where
  "GormReadModelStore_ListOrders E filt = do {
     c \<leftarrow> g_Count (pf_order_views E) (list_where filt);
     case c of
       Inl err \<Rightarrow> ret (Inl err)
     | Inr totalCount \<Rightarrow> do {
         let offset = (fl_Page filt - 1) * fl_PageSize filt;
         r \<leftarrow> g_Select (pf_order_views E) (list_where filt)
           (order_by (pf_collate E) (order_clause filt)) offset (fl_PageSize filt);
         case r of
           Inl err \<Rightarrow> ret (Inl err)
         | Inr models \<Rightarrow> ret (Inr \<lparr>po_Orders = map to_order_view models, po_TotalCount = totalCount,
             po_Page = fl_Page filt, po_PageSize = fl_PageSize filt\<rparr>)
       }
   }"

definition GormReadModelStore_UpsertOrderView :: "'w platform \<Rightarrow> OrderView \<Rightarrow> ('w, go_error + unit) state" where
  "GormReadModelStore_UpsertOrderView E v = (
     let model = \<lparr>ovm_ID = ov_ID v, ovm_CustomerID = ov_CustomerID v, ovm_Status = ov_Status v,
       ovm_TotalAmount = ov_TotalAmount v, ovm_ItemCount = ov_ItemCount v,
       ovm_CreatedAt = ov_CreatedAt v, ovm_UpdatedAt = ov_UpdatedAt v\<rparr>
     in g_AssignFirstOrCreate (pf_order_views E) (\<lambda>m. ovm_ID m = ovm_ID model) model)"

definition GormReadModelStore_UpsertOrderItemView ::
  "'w platform \<Rightarrow> OrderItemView \<Rightarrow> ('w, go_error + unit) state" where
  "GormReadModelStore_UpsertOrderItemView E v = (
     let model = \<lparr>ivm_ID = iv_ID v, ivm_OrderID = iv_OrderID v, ivm_ProductID = iv_ProductID v,
       ivm_ProductName = iv_ProductName v, ivm_Quantity = iv_Quantity v, ivm_UnitPrice = iv_UnitPrice v,
       ivm_TotalPrice = iv_TotalPrice v, ivm_CreatedAt = iv_CreatedAt v\<rparr>
     in g_AssignFirstOrCreate (pf_item_views E) (\<lambda>m. ivm_ID m = ivm_ID model) model)"

text \<open>The error of the count is not looked at: the count stays zero then.\<close>

definition GormReadModelStore_UpdateOrderStatus ::
  "'w platform \<Rightarrow> uuid \<Rightarrow> string \<Rightarrow> int64 \<Rightarrow> ('w, go_error + unit) state" where
  "GormReadModelStore_UpdateOrderStatus E orderID status totalAmount = do {
     c \<leftarrow> g_Count (pf_item_views E) (\<lambda>im. ivm_OrderID im = orderID);
     let itemCount = (case c of Inl _ \<Rightarrow> 0 | Inr n \<Rightarrow> n);
     r \<leftarrow> g_Updates (pf_order_views E) (\<lambda>m. ovm_ID m = orderID)
       (\<lambda>now m. m\<lparr>ovm_UpdatedAt := now,
          ovm_Status := (if status \<noteq> '''' then status else ovm_Status m),
          ovm_TotalAmount := (if sint totalAmount > 0 then totalAmount else ovm_TotalAmount m),
          ovm_ItemCount := itemCount\<rparr>);
     case r of Inl err \<Rightarrow> ret (Inl err) | Inr _ \<Rightarrow> ret (Inr ())
   }"

definition NewGormReadModelStore :: "'w platform \<Rightarrow> 'w ReadModelStore" where
  "NewGormReadModelStore E =
     \<lparr>rm_GetOrderByID = GormReadModelStore_GetOrderByID E, rm_ListOrders = GormReadModelStore_ListOrders E,
      rm_UpsertOrderView = GormReadModelStore_UpsertOrderView E,
      rm_UpsertOrderItemView = GormReadModelStore_UpsertOrderItemView E,
      rm_UpdateOrderStatus = GormReadModelStore_UpdateOrderStatus E\<rparr>"

lemmas read_model_eval [go_defs] = to_order_view_def to_item_view_def GormReadModelStore_GetOrderByID_def
  list_where_def order_clause_def order_by_def GormReadModelStore_ListOrders_def
  GormReadModelStore_UpsertOrderView_def GormReadModelStore_UpsertOrderItemView_def
  GormReadModelStore_UpdateOrderStatus_def NewGormReadModelStore_def

section \<open>The rows, abstractly\<close>

definition view_of_model :: "OrderViewModel \<Rightarrow> view_row" where
  "view_of_model m = view_row_of (to_order_view m)"

definition line_of_model :: "OrderItemViewModel \<Rightarrow> line_row" where
  "line_of_model m = line_row_of (to_item_view m)"

definition stored_views :: "tables \<Rightarrow> uuid \<Rightarrow> view_row option" where
  "stored_views t u = map_option view_of_model (t_order_views t u)"

definition stored_lines :: "tables \<Rightarrow> uuid \<Rightarrow> line_row option" where
  "stored_lines t u = map_option line_of_model (t_item_views t u)"

definition read_frame :: "tables \<Rightarrow> tables" where
  "read_frame t = t\<lparr>t_order_views := Map.empty, t_item_views := Map.empty\<rparr>"

lemma read_frame_put [simp]:
  "read_frame (t\<lparr>t_order_views := m\<rparr>) = read_frame t" "read_frame (t\<lparr>t_item_views := n\<rparr>) = read_frame t"
  by (simp_all add: read_frame_def)

lemma stored_views_put [simp]:
  "stored_views (t\<lparr>t_order_views := (t_order_views t)(k \<mapsto> r)\<rparr>) = (stored_views t)(k \<mapsto> view_of_model r)"
  "stored_views (t\<lparr>t_item_views := n\<rparr>) = stored_views t"
  by (auto simp: stored_views_def)

lemma stored_lines_put [simp]:
  "stored_lines (t\<lparr>t_item_views := (t_item_views t)(k \<mapsto> q)\<rparr>) = (stored_lines t)(k \<mapsto> line_of_model q)"
  "stored_lines (t\<lparr>t_order_views := m\<rparr>) = stored_lines t"
  by (auto simp: stored_lines_def)

lemma stored_view_row: "stored_view r r' \<Longrightarrow> ovm_Status r \<noteq> '''' \<Longrightarrow> view_of_model r' = view_of_model r"
  by (cases r; cases r') (simp add: stored_view_def view_of_model_def view_row_of_def to_order_view_def)

lemma stored_iview_row: "stored_iview r r' \<Longrightarrow> line_of_model r' = line_of_model r"
  by (cases r; cases r') (simp add: stored_iview_def line_of_model_def line_row_of_def to_item_view_def)

lemma view_of_merge: "view_of_model (merge_view n r) = upsert_view (view_of_model n) (Some (view_of_model r))"
  by (simp add: merge_view_def view_of_model_def view_row_of_def to_order_view_def upsert_view_def)

lemma line_of_merge: "line_of_model (merge_iview n r) = upsert_line (line_of_model n) (Some (line_of_model r))"
  by (simp add: merge_iview_def line_of_model_def line_row_of_def to_item_view_def upsert_line_def)

lemma lines_of_matching: "matching (\<lambda>im. ivm_OrderID im = i) (t_item_views t) = lines_of (stored_lines t) i"
  by (auto simp: matching_def lines_of_def stored_lines_def line_of_model_def line_row_of_def to_item_view_def)

section \<open>The contract holds\<close>

context gorm_platform begin

lemma GetOrderByID_ok:
  assumes "run_state (GormReadModelStore_GetOrderByID E i) w = (Inr (v, is), w')"
  shows "view w' = view w \<and> ov_ID v = i \<and> stored_views (view w) i = Some (view_row_of v) \<and>
    distinct (map iv_ID is) \<and> iv_ID ` set is = lines_of (stored_lines (view w)) i \<and>
    (\<forall>x \<in> set is. stored_lines (view w) (iv_ID x) = Some (line_row_of x))"
proof -
  from assms obtain m w1 rs where
    1: "run_state (g_First (pf_order_views E) (\<lambda>m. ovm_ID m = i)) w = (Inr m, w1)" and
    2: "run_state (g_Find (pf_item_views E) (\<lambda>im. ivm_OrderID im = i)) w1 = (Inr rs, w')" and
    v: "v = to_order_view m" "is = map to_item_view rs"
    by (auto simp: GormReadModelStore_GetOrderByID_def split: prod.splits sum.splits if_splits)
  note F = views.First_ok [OF 1] and G = iviews.Find_ok [OF 2]
  have ids: "iv_ID (to_item_view r) = ivm_ID r" for r by (simp add: to_item_view_def)
  have mem: "t_item_views (view w) (ivm_ID r) = Some r \<and> ivm_OrderID r = i" if "r \<in> set rs" for r
    using that F G iviews.table_key [of w] by (auto simp: rows_of_def)
  have "iv_ID ` set is = matching (\<lambda>im. ivm_OrderID im = i) (t_item_views (view w))"
    using mem F G iviews.table_key [of w]
    by (fastforce simp: v matching_def rows_of_def image_image ids)
  moreover have "\<forall>x \<in> set is. stored_lines (view w) (iv_ID x) = Some (line_row_of x)"
    using mem by (auto simp: v ids stored_lines_def line_of_model_def)
  moreover have "distinct (map iv_ID is)" using G by (simp add: v comp_def ids)
  moreover have "stored_views (view w) i = Some (view_row_of v)" "ov_ID v = i"
    using F by (auto simp: stored_views_def view_of_model_def v to_order_view_def)
  ultimately show ?thesis using F G by (simp add: lines_of_matching)
qed

lemma GetOrderByID_err:
  assumes "run_state (GormReadModelStore_GetOrderByID E i) w = (Inl e, w')"
  shows "view w' = view w \<and> (e = ErrOrderNotFound \<and> stored_views (view w) i = None \<or> is_driver_error e)"
  using assms
  by (auto simp: GormReadModelStore_GetOrderByID_def stored_views_def views.matching_key
      is_driver_error_iff split: prod.splits sum.splits if_splits
      dest!: views.First_ok views.First_err iviews.Find_err)

lemma UpsertOrderView_ok:
  assumes "run_state (GormReadModelStore_UpsertOrderView E v) w = (Inr u, w')" "ov_Status v \<noteq> ''''"
  shows "stored_views (view w') =
      (stored_views (view w))(ov_ID v \<mapsto> upsert_view (view_row_of v) (stored_views (view w) (ov_ID v))) \<and>
    stored_lines (view w') = stored_lines (view w) \<and> read_frame (view w') = read_frame (view w)"
proof -
  let ?m = "\<lparr>ovm_ID = ov_ID v, ovm_CustomerID = ov_CustomerID v, ovm_Status = ov_Status v,
       ovm_TotalAmount = ov_TotalAmount v, ovm_ItemCount = ov_ItemCount v,
       ovm_CreatedAt = ov_CreatedAt v, ovm_UpdatedAt = ov_UpdatedAt v\<rparr>"
  have A: "run_state (g_AssignFirstOrCreate (pf_order_views E) (\<lambda>m. ovm_ID m = ovm_ID ?m) ?m) w = (Inr u, w')"
    using assms(1) by (simp add: GormReadModelStore_UpsertOrderView_def)
  have row: "view_of_model ?m = view_row_of v" by (simp add: view_of_model_def to_order_view_def view_row_of_def)
  show ?thesis
  proof (cases "t_order_views (view w) (ov_ID v)")
    case None
    with views.assign_missing [OF A] obtain r where "stored_view ?m r"
      "view w' = (view w)\<lparr>t_order_views := (t_order_views (view w))(ov_ID v \<mapsto> r)\<rparr>" by auto
    moreover from stored_view_row [OF this(1)] assms(2) have "view_of_model r = view_row_of v" by (simp add: row)
    ultimately show ?thesis using None by (simp add: upsert_view_def) (simp add: stored_views_def)
  next
    case (Some r0)
    with views.assign_present [OF A] obtain r where "stored_view (merge_view ?m r0) r"
      "view w' = (view w)\<lparr>t_order_views := (t_order_views (view w))(ov_ID v \<mapsto> r)\<rparr>" by auto
    moreover from stored_view_row [OF this(1)] assms(2)
    have "view_of_model r = upsert_view (view_row_of v) (Some (view_of_model r0))"
      unfolding view_of_merge row by (simp add: merge_view_def nonzero_def)
    ultimately show ?thesis using Some by simp (simp add: stored_views_def)
  qed
qed

lemma UpsertOrderItemView_ok:
  assumes "run_state (GormReadModelStore_UpsertOrderItemView E v) w = (Inr u, w')"
  shows "stored_lines (view w') =
      (stored_lines (view w))(iv_ID v \<mapsto> upsert_line (line_row_of v) (stored_lines (view w) (iv_ID v))) \<and>
    stored_views (view w') = stored_views (view w) \<and> read_frame (view w') = read_frame (view w)"
proof -
  let ?m = "\<lparr>ivm_ID = iv_ID v, ivm_OrderID = iv_OrderID v, ivm_ProductID = iv_ProductID v,
       ivm_ProductName = iv_ProductName v, ivm_Quantity = iv_Quantity v, ivm_UnitPrice = iv_UnitPrice v,
       ivm_TotalPrice = iv_TotalPrice v, ivm_CreatedAt = iv_CreatedAt v\<rparr>"
  have A: "run_state (g_AssignFirstOrCreate (pf_item_views E) (\<lambda>m. ivm_ID m = ivm_ID ?m) ?m) w = (Inr u, w')"
    using assms(1) by (simp add: GormReadModelStore_UpsertOrderItemView_def)
  have row: "line_of_model ?m = line_row_of v" by (simp add: line_of_model_def to_item_view_def line_row_of_def)
  show ?thesis
  proof (cases "t_item_views (view w) (iv_ID v)")
    case None
    with iviews.assign_missing [OF A] obtain r where "stored_iview ?m r"
      "view w' = (view w)\<lparr>t_item_views := (t_item_views (view w))(iv_ID v \<mapsto> r)\<rparr>" by auto
    moreover from stored_iview_row [OF this(1)] have "line_of_model r = line_row_of v" by (simp add: row)
    ultimately show ?thesis using None by (simp add: upsert_line_def) (simp add: stored_lines_def)
  next
    case (Some r0)
    with iviews.assign_present [OF A] obtain r where "stored_iview (merge_iview ?m r0) r"
      "view w' = (view w)\<lparr>t_item_views := (t_item_views (view w))(iv_ID v \<mapsto> r)\<rparr>" by auto
    moreover from stored_iview_row [OF this(1)]
    have "line_of_model r = upsert_line (line_row_of v) (Some (line_of_model r0))"
      by (simp add: line_of_merge row)
    ultimately show ?thesis using Some by simp (simp add: stored_lines_def)
  qed
qed

lemma UpdateOrderStatus_ok:
  assumes "run_state (GormReadModelStore_UpdateOrderStatus E i status amount) w = (Inr u, w')"
    and status: "\<And>r. stored_views (view w) i = Some r \<Longrightarrow> vr_status r \<noteq> ''''"
  shows "stored_lines (view w') = stored_lines (view w) \<and> read_frame (view w') = read_frame (view w) \<and>
    (\<exists>n. n \<in> {0, of_nat (card (lines_of (stored_lines (view w)) i))} \<and>
       stored_views (view w') = (stored_views (view w))(i := map_option (restate status amount n) (stored_views (view w) i)))"
proof -
  let ?f = "\<lambda>n now m. m\<lparr>ovm_UpdatedAt := now, ovm_Status := (if status \<noteq> '''' then status else ovm_Status m),
          ovm_TotalAmount := (if sint amount > 0 then amount else ovm_TotalAmount m), ovm_ItemCount := n\<rparr>"
  from assms(1) obtain c w1 n0 where
    C: "run_state (g_Count (pf_item_views E) (\<lambda>im. ivm_OrderID im = i)) w = (c, w1)" and
    U: "run_state (g_Updates (pf_order_views E) (\<lambda>m. ovm_ID m = i)
      (?f (case c of Inl _ \<Rightarrow> 0 | Inr n \<Rightarrow> n))) w1 = (Inr n0, w')"
    by (auto simp: GormReadModelStore_UpdateOrderStatus_def Let_def split: prod.splits sum.splits)
  define n :: go_int where "n = (case c of Inl _ \<Rightarrow> 0 | Inr n \<Rightarrow> n)"
  have v1: "view w1 = view w" and n: "n \<in> {0, of_nat (card (lines_of (stored_lines (view w)) i))}"
    using C by (cases c; auto simp: n_def lines_of_matching dest: iviews.Count_ok iviews.Count_err)+
  from views.Updates_ok [OF U [folded n_def]] obtain now m' where
    m': "updated stored_view (\<lambda>m. ovm_ID m = i) (?f n now) (t_order_views (view w)) m'"
    "view w' = (view w)\<lparr>t_order_views := m'\<rparr>"
    by (auto simp: v1)
  have "stored_views (view w') k = ((stored_views (view w))(i := map_option (restate status amount n) (stored_views (view w) i))) k" for k
  proof (cases "t_order_views (view w) k")
    case None
    then show ?thesis using updated_None [OF m'(1) None] by (auto simp: stored_views_def m'(2))
  next
    case (Some m)
    then have k: "ovm_ID m = k" by (rule views.table_key)
    show ?thesis
    proof (cases "k = i")
      case True
      with updated_hit [OF m'(1) Some] k obtain r where r: "m' k = Some r" "stored_view (?f n now m) r" by auto
      have "ovm_Status (?f n now m) \<noteq> ''''"
        using status [of "view_of_model m"] Some True
        by (simp add: stored_views_def view_of_model_def view_row_of_def to_order_view_def)
      from stored_view_row [OF r(2) this] have "view_of_model r = restate status amount n (view_of_model m)"
        by (simp add: view_of_model_def view_row_of_def to_order_view_def restate_def)
      with True Some r(1) show ?thesis by (simp add: stored_views_def m'(2))
    next
      case False
      with updated_other [OF m'(1) Some] k Some show ?thesis by (simp add: stored_views_def m'(2))
    qed
  qed
  then have "stored_views (view w') = (stored_views (view w))(i := map_option (restate status amount n) (stored_views (view w) i))"
    by (rule ext)
  with n m'(2) show ?thesis by (intro conjI exI [of _ n]) simp_all
qed

lemma UpdateOrderStatus_err:
  "run_state (GormReadModelStore_UpdateOrderStatus E i status amount) w = (Inl e, w') \<Longrightarrow>
     view w' = view w \<and> is_driver_error e"
  by (auto simp: GormReadModelStore_UpdateOrderStatus_def Let_def split: prod.splits sum.splits
      dest!: iviews.Count_ok iviews.Count_err views.Updates_err)

lemma Upsert_err:
  "run_state (GormReadModelStore_UpsertOrderView E v) w = (Inl e, w') \<Longrightarrow> view w' = view w \<and> is_driver_error e"
  "run_state (GormReadModelStore_UpsertOrderItemView E x) w = (Inl e, w') \<Longrightarrow> view w' = view w \<and> is_driver_error e"
  by (auto simp: GormReadModelStore_UpsertOrderView_def GormReadModelStore_UpsertOrderItemView_def Let_def
      dest: views.AssignFirstOrCreate_err iviews.AssignFirstOrCreate_err)

sublocale rm: read_model "NewGormReadModelStore E" "\<lambda>w. stored_views (view w)" "\<lambda>w. stored_lines (view w)"
  "\<lambda>w. read_frame (view w)"
proof (unfold_locales, goal_cases)
  case (1 w)
  have "dom (stored_lines (view w)) = dom (t_item_views (view w))" by (auto simp: stored_lines_def)
  then show ?case using iviews.table_finite [of w] by simp
next
  case (2 i w v "is" w') then show ?case
    using GetOrderByID_ok [of i w v "is" w'] by (simp add: NewGormReadModelStore_def)
next
  case (3 i w e w') then show ?case
    using GetOrderByID_err [of i w e w'] by (simp add: NewGormReadModelStore_def)
next
  case (4 v w u w') then show ?case
    using UpsertOrderView_ok [of v w u w'] by (simp add: NewGormReadModelStore_def)
next
  case (5 v w e w') then show ?case
    using Upsert_err(1) [of v w e w'] by (simp add: NewGormReadModelStore_def)
next
  case (6 x w u w') then show ?case
    using UpsertOrderItemView_ok [of x w u w'] by (simp add: NewGormReadModelStore_def)
next
  case (7 x w e w') then show ?case
    using Upsert_err(2) [of x w e w'] by (simp add: NewGormReadModelStore_def)
next
  case (8 i status amount w u w') then show ?case
    using UpdateOrderStatus_ok [of i status amount w u w'] by (simp add: NewGormReadModelStore_def)
next
  case (9 i status amount w e w') then show ?case
    using UpdateOrderStatus_err [of i status amount w e w'] by (simp add: NewGormReadModelStore_def)
qed

end

end
