(* ===== verification/Event_Stores.thy ===== *)
theory Event_Stores imports Ports Platform begin

text \<open>
  The two idempotency tables: which events a consumer has handled
  (\<^verbatim>\<open>persistence/processed_event_store.go\<close>), and the responses kept for the HTTP
  idempotency keys (\<^verbatim>\<open>persistence/idempotency_store.go\<close>).
\<close>

section \<open>Processed events\<close>

definition GormProcessedEventStore_IsProcessed ::
  "'w platform \<Rightarrow> uuid \<Rightarrow> string \<Rightarrow> ('w, go_error + bool) state" where
  "GormProcessedEventStore_IsProcessed E eventID handlerName = do {
     c \<leftarrow> g_Count (pf_processed E) (\<lambda>m. pe_EventID m = eventID \<and> pe_HandlerName m = handlerName);
     ret (case c of Inl err \<Rightarrow> Inl err | Inr count \<Rightarrow> Inr (sint count > 0))
   }"

definition GormProcessedEventStore_MarkProcessed ::
  "'w platform \<Rightarrow> uuid \<Rightarrow> string \<Rightarrow> ('w, go_error + unit) state" where
  "GormProcessedEventStore_MarkProcessed E eventID handlerName = do {
     now \<leftarrow> time_Now E;
     g_FirstOrCreate (pf_processed E) (\<lambda>m. pe_EventID m = eventID \<and> pe_HandlerName m = handlerName)
       \<lparr>pe_EventID = eventID, pe_HandlerName = handlerName, pe_ProcessedAt = now\<rparr>
   }"

definition NewGormProcessedEventStore :: "'w platform \<Rightarrow> 'w ProcessedEventStore" where
  "NewGormProcessedEventStore E =
     \<lparr>ps_IsProcessed = GormProcessedEventStore_IsProcessed E,
      ps_MarkProcessed = GormProcessedEventStore_MarkProcessed E\<rparr>"

section \<open>Idempotency keys\<close>

definition GormIdempotencyStore_Check ::
  "'w platform \<Rightarrow> string \<Rightarrow> ('w, go_error + IdempotencyResult option) state" where
  "GormIdempotencyStore_Check E key = do {
     now \<leftarrow> time_Now E;
     r \<leftarrow> g_First (pf_idempotency E) (\<lambda>m. ik_Key m = key \<and> ik_ExpiresAt m > now);
     case r of
       Inl err \<Rightarrow> if err = GormErrRecordNotFound then ret (Inr None) else ret (Inl err)
     | Inr model \<Rightarrow> ret (Inr (Some
         \<lparr>ir_StatusCode = ik_ResponseStatus model, ir_ResponseBody = ik_ResponseBody model\<rparr>))
   }"

definition GormIdempotencyStore_Store ::
  "'w platform \<Rightarrow> int \<Rightarrow> string \<Rightarrow> IdempotencyResult \<Rightarrow> ('w, go_error + unit) state" where
  "GormIdempotencyStore_Store E ttl key result = do {
     t1 \<leftarrow> time_Now E;
     t2 \<leftarrow> time_Now E;
     g_AssignFirstOrCreate (pf_idempotency E) (\<lambda>m. ik_Key m = key)
       \<lparr>ik_Key = key, ik_ResponseStatus = ir_StatusCode result, ik_ResponseBody = ir_ResponseBody result,
        ik_CreatedAt = t1, ik_ExpiresAt = t2 + ttl\<rparr>
   }"

definition NewGormIdempotencyStore :: "'w platform \<Rightarrow> int \<Rightarrow> 'w IdempotencyService" where
  "NewGormIdempotencyStore E ttl =
     \<lparr>id_Check = GormIdempotencyStore_Check E, id_Store = GormIdempotencyStore_Store E ttl\<rparr>"

lemmas event_stores_eval [go_defs] = GormProcessedEventStore_IsProcessed_def
  GormProcessedEventStore_MarkProcessed_def NewGormProcessedEventStore_def GormIdempotencyStore_Check_def
  GormIdempotencyStore_Store_def NewGormIdempotencyStore_def

section \<open>The processed events, abstractly\<close>

definition stored_processed_events :: "tables \<Rightarrow> (uuid \<times> string) set" where
  "stored_processed_events t = dom (t_processed t)"

definition processed_frame :: "tables \<Rightarrow> tables" where
  "processed_frame t = t\<lparr>t_processed := Map.empty\<rparr>"

context gorm_platform begin

lemma matching_processed:
  "matching (\<lambda>m. pe_EventID m = i \<and> pe_HandlerName m = h) (t_processed (view w)) =
     (if (i, h) \<in> stored_processed_events (view w) then {(i, h)} else {})"
proof -
  let ?P = "\<lambda>m. pe_EventID m = i \<and> pe_HandlerName m = h"
  have key: "?P m \<longleftrightarrow> k = (i, h)" if "t_processed (view w) k = Some m" for k m
    using processed.table_key [OF that] by (auto simp: pe_key_def)
  have "k \<in> matching ?P (t_processed (view w)) \<longleftrightarrow> k = (i, h) \<and> k \<in> dom (t_processed (view w))" for k
    unfolding matching_def dom_def using key [of k] by blast
  then show ?thesis by (auto simp: stored_processed_events_def)
qed

lemma IsProcessed_ok:
  assumes "run_state (GormProcessedEventStore_IsProcessed E i h) w = (Inr b, w')"
  shows "view w' = view w \<and> (b \<longleftrightarrow> (i, h) \<in> stored_processed_events (view w))"
proof -
  from assms obtain n where
    "run_state (g_Count (pf_processed E) (\<lambda>m. pe_EventID m = i \<and> pe_HandlerName m = h)) w = (Inr n, w')"
    and b: "b = (sint n > 0)"
    by (auto simp: GormProcessedEventStore_IsProcessed_def split: prod.splits sum.splits)
  from processed.Count_ok [OF this(1)] show ?thesis
    by (simp add: b matching_processed)
qed

lemma IsProcessed_err:
  "run_state (GormProcessedEventStore_IsProcessed E i h) w = (Inl e, w') \<Longrightarrow>
     view w' = view w \<and> is_driver_error e"
  by (auto simp: GormProcessedEventStore_IsProcessed_def split: prod.splits sum.splits
      dest!: processed.Count_err)

lemma MarkProcessed_ok:
  assumes "run_state (GormProcessedEventStore_MarkProcessed E i h) w = (Inr u, w')"
  shows "stored_processed_events (view w') = insert (i, h) (stored_processed_events (view w)) \<and>
    processed_frame (view w') = processed_frame (view w)"
proof -
  from assms obtain now w1 where N: "run_state (time_Now E) w = (now, w1)" and
    F: "run_state (g_FirstOrCreate (pf_processed E) (\<lambda>m. pe_EventID m = i \<and> pe_HandlerName m = h)
       \<lparr>pe_EventID = i, pe_HandlerName = h, pe_ProcessedAt = now\<rparr>) w1 = (Inr u, w')"
    by (auto simp: GormProcessedEventStore_MarkProcessed_def split: prod.splits)
  have v1: "view w1 = view w" using N by (rule now_pure)
  show ?thesis using processed.FirstOrCreate_ok [OF F]
    by (auto simp: v1 matching_processed pe_key_def stored_processed_events_def processed_frame_def
        split: if_splits)
qed

lemma MarkProcessed_err:
  "run_state (GormProcessedEventStore_MarkProcessed E i h) w = (Inl e, w') \<Longrightarrow>
     view w' = view w \<and> is_driver_error e"
  by (auto simp: GormProcessedEventStore_MarkProcessed_def split: prod.splits
      dest!: processed.FirstOrCreate_err now_pure)

sublocale ps: processed_store "NewGormProcessedEventStore E" "\<lambda>w. stored_processed_events (view w)"
  "\<lambda>w. processed_frame (view w)"
  by unfold_locales
    (auto simp: NewGormProcessedEventStore_def
      dest: IsProcessed_ok IsProcessed_err MarkProcessed_ok MarkProcessed_err)

end

end
