(* ===== verification/Read_Consistency.thy ===== *)
theory Read_Consistency imports Projection begin

text \<open>
  The read model follows the aggregate: when the events of an order are projected in the
  order in which they were raised, the view and the lines of the order are those of the
  aggregate.
\<close>

fun projected_all ::
  "('w, 'z) runtime_scheme \<Rightarrow> DomainEvent list \<Rightarrow> (uuid \<Rightarrow> view_row option) \<Rightarrow> (uuid \<Rightarrow> line_row option)
     \<Rightarrow> (uuid \<Rightarrow> view_row option) \<Rightarrow> (uuid \<Rightarrow> line_row option) \<Rightarrow> bool" where
  "projected_all R [] V L V' L' \<longleftrightarrow> V' = V \<and> L' = L"
| "projected_all R (ev # evs) V L V' L' \<longleftrightarrow>
     (\<exists>V1 L1. projected R ev V L V1 L1 \<and> projected_all R evs V1 L1 V' L')"

lemma projected_all_append:
  "projected_all R (evs @ evs') V L V' L' \<longleftrightarrow>
     (\<exists>V1 L1. projected_all R evs V L V1 L1 \<and> projected_all R evs' V1 L1 V' L')"
  by (induction evs arbitrary: V L) auto

text \<open>\<open>shows_order o1 L0 V L\<close>: the view and the lines are those of the order; other lines are as in \<open>L0\<close>.\<close>

definition line_of_item :: "OrderID \<Rightarrow> OrderItem \<Rightarrow> line_row" where
  "line_of_item oid i = \<lparr>lr_order = order_uuid oid, lr_product = item_productID i, lr_name = item_productName i,
     lr_quantity = item_quantity i, lr_price = Amount (item_unitPrice i), lr_total = Amount (TotalPrice i)\<rparr>"

definition shows_order ::
  "Order \<Rightarrow> (uuid \<Rightarrow> line_row option) \<Rightarrow> (uuid \<Rightarrow> view_row option) \<Rightarrow> (uuid \<Rightarrow> line_row option) \<Rightarrow> bool" where
  "shows_order o1 L0 V L \<longleftrightarrow>
     (\<exists>n \<in> {0, of_nat (length (o_items o1))}. V (order_uuid (o_id o1)) = Some
        \<lparr>vr_customer = customer_uuid (o_customerID o1), vr_status = o_status o1,
         vr_total = Amount (TotalAmount o1), vr_count = n\<rparr>) \<and>
     (\<forall>i \<in> set (o_items o1). L (item_id i) = Some (line_of_item (o_id o1) i)) \<and>
     (\<forall>k. k \<notin> item_id ` set (o_items o1) \<longrightarrow> L k = L0 k)"

text \<open>The version, the timestamps and the pending events do not matter.\<close>

definition same_content :: "Order \<Rightarrow> Order \<Rightarrow> bool" where
  "same_content o1 o2 \<longleftrightarrow> o_id o1 = o_id o2 \<and> o_customerID o1 = o_customerID o2 \<and>
     o_status o1 = o_status o2 \<and> o_items o1 = o_items o2"

text \<open>What an order needs so that its projection is exact, and what the read model has of it before.\<close>

definition exact_order :: "Order \<Rightarrow> bool" where
  "exact_order o1 \<longleftrightarrow> distinct (map item_id (o_items o1)) \<and> exact_total (o_items o1) < 2 ^ 63"

definition unseen_order :: "Order \<Rightarrow> (uuid \<Rightarrow> view_row option) \<Rightarrow> (uuid \<Rightarrow> line_row option) \<Rightarrow> bool" where
  "unseen_order o1 V L \<longleftrightarrow> V (order_uuid (o_id o1)) = None \<and> lines_of L (order_uuid (o_id o1)) = {} \<and>
     (\<forall>i \<in> set (o_items o1). L (item_id i) = None)"

lemma same_content_cong:
  assumes "same_content o1 o2"
  shows "shows_order o1 L0 V L = shows_order o2 L0 V L" "exact_order o1 = exact_order o2"
    "unseen_order o1 V L = unseen_order o2 V L"
  using assms TotalAmount_cong [of o1 o2]
  by (simp_all add: same_content_def shows_order_def exact_order_def unseen_order_def)

lemma shows_lines_of:
  assumes "shows_order o1 L0 V L" "lines_of L0 (order_uuid (o_id o1)) = {}"
  shows "lines_of L (order_uuid (o_id o1)) = item_id ` set (o_items o1)"
proof -
  have "k \<in> lines_of L (order_uuid (o_id o1)) \<longleftrightarrow> k \<in> item_id ` set (o_items o1)" for k
  proof (cases "k \<in> item_id ` set (o_items o1)")
    case True
    then show ?thesis using assms(1) by (auto simp: shows_order_def lines_of_def line_of_item_def)
  next
    case False
    then have "L k = L0 k" using assms(1) by (simp add: shows_order_def)
    then show ?thesis using assms(2) False by (auto simp: lines_of_def)
  qed
  then show ?thesis by blast
qed

lemma Amount_TotalAmount_sum: "Amount (TotalAmount o1) = (\<Sum>i\<leftarrow>o_items o1. Amount (TotalPrice i))"
proof -
  have "word_of_int (exact_total is) = (\<Sum>i\<leftarrow>is. Amount (TotalPrice i))" for "is"
    by (induction "is") (simp_all add: exact_total_def Amount_TotalPrice_int)
  then show ?thesis by (simp add: Amount_TotalAmount)
qed

lemma shows_lines_total:
  assumes "lines_of L (order_uuid (o_id o1)) = item_id ` set (o_items o1)"
    and "\<forall>i \<in> set (o_items o1). L (item_id i) = Some (line_of_item (o_id o1) i)"
    and "distinct (map item_id (o_items o1))"
  shows "lines_total L (order_uuid (o_id o1)) = Amount (TotalAmount o1)"
proof -
  have "lines_total L (order_uuid (o_id o1)) = (\<Sum>i\<in>set (o_items o1). Amount (TotalPrice i))"
    using assms unfolding lines_total_def assms(1)
    by (subst sum.reindex) (auto simp: distinct_map line_of_item_def intro!: sum.cong)
  also have "\<dots> = (\<Sum>i\<leftarrow>o_items o1. Amount (TotalPrice i))"
    using assms(3) by (simp add: sum_list_distinct_conv_sum_set distinct_map)
  finally show ?thesis by (simp add: Amount_TotalAmount_sum)
qed

lemma exact_total_positive:
  assumes "list_all item_ok (o_items o1)" "o_items o1 \<noteq> []" "exact_order o1"
  shows "sint (Amount (TotalAmount o1)) > 0"
proof -
  have "sint (Amount (TotalAmount o1)) = exact_total (o_items o1)"
    using exact_total_nonneg [OF assms(1)] assms(3)
    unfolding Amount_TotalAmount exact_order_def by (intro sint_of_int_id) simp_all
  with exact_total_pos [OF assms(1,2)] show ?thesis by simp
qed

lemma added_sel [simp]:
  "o_id (added R o1 i now at) = o_id o1" "o_items (added R o1 i now at) = o_items o1 @ [i]"
  "o_customerID (added R o1 i now at) = o_customerID o1" "o_status (added R o1 i now at) = o_status o1"
  by (simp_all add: added_def)

lemma confirmed_sel [simp]:
  "o_id (confirmed R o1 now at) = o_id o1" "o_items (confirmed R o1 now at) = o_items o1"
  "o_customerID (confirmed R o1 now at) = o_customerID o1"
  "o_status (confirmed R o1 now at) = StatusConfirmed"
  "TotalAmount (confirmed R o1 now at) = TotalAmount o1"
  by (simp_all add: confirmed_def TotalAmount_def)

lemma exact_order_added:
  assumes "exact_order (added R o1 i now at)" "item_ok i"
  shows "exact_order o1 \<and> item_id i \<notin> item_id ` set (o_items o1)"
  using assms exact_price_pos [OF assms(2)] by (auto simp: exact_order_def exact_total_def)

context runtime_codec begin

lemma added_event:
  "\<exists>e. o_events (added R o1 i now at) = o_events o1 @ [EvOrderItemAdded e] \<and>
     parse_ignoring R (oia_OrderID e) = order_uuid (o_id o1) \<and> parse_ignoring R (oia_ItemID e) = item_id i \<and>
     line_of_event R e = line_of_item (o_id o1) i"
  by (simp add: added_def line_of_event_def line_of_item_def OrderID_String_def TotalPrice_def)

lemma shows_added:
  assumes "shows_order o1 L0 V1 L1" "unseen_order (added R o1 i now at) V0 L0"
    and "item_ok i" "list_all item_ok (o_items o1)" "exact_order (added R o1 i now at)"
    and "projected R (EvOrderItemAdded e) V1 L1 V L"
    and e: "parse_ignoring R (oia_OrderID e) = order_uuid (o_id o1)" "parse_ignoring R (oia_ItemID e) = item_id i"
      "line_of_event R e = line_of_item (o_id o1) i"
  shows "shows_order (added R o1 i now at) L0 V L"
proof -
  let ?o = "added R o1 i now at" and ?u = "order_uuid (o_id o1)"
  note new = exact_order_added [OF assms(5,3)]
  have "L1 (item_id i) = None" using assms(1,2) new by (simp add: shows_order_def unseen_order_def)
  then have L: "L = L1(item_id i \<mapsto> line_of_item (o_id o1) i)"
    using assms(6) by (simp add: Let_def e upsert_line_def)
  have ne: "item_id j \<noteq> item_id i" if "j \<in> set (o_items o1)" for j using new that by (metis imageI)
  have items: "\<forall>j \<in> set (o_items ?o). L (item_id j) = Some (line_of_item (o_id ?o) j)"
    using assms(1) ne by (simp add: shows_order_def L)
  have rest: "\<forall>k. k \<notin> item_id ` set (o_items ?o) \<longrightarrow> L k = L0 k"
    using assms(1) by (simp add: shows_order_def L)
  have lines: "lines_of L ?u = item_id ` set (o_items ?o)"
  proof -
    have "lines_of L1 ?u = item_id ` set (o_items o1)"
      using shows_lines_of [OF assms(1)] assms(2) by (simp add: unseen_order_def)
    then show ?thesis using new by (auto simp: L lines_of_def line_of_item_def)
  qed
  have total: "lines_total L ?u = Amount (TotalAmount ?o)"
    using shows_lines_total [of L ?o] lines items assms(5) by (simp add: exact_order_def)
  have card: "card (lines_of L ?u) = length (o_items ?o)"
    using assms(5) unfolding lines by (metis distinct_card exact_order_def length_map list.set_map)
  from assms(1) obtain n0 where "V1 ?u = Some \<lparr>vr_customer = customer_uuid (o_customerID o1),
      vr_status = o_status o1, vr_total = Amount (TotalAmount o1), vr_count = n0\<rparr>"
    by (auto simp: shows_order_def)
  moreover have "sint (Amount (TotalAmount ?o)) > 0"
    using assms(3,4,5) by (intro exact_total_positive) simp_all
  ultimately obtain n where "n \<in> {0, of_nat (length (o_items ?o))}"
    "V ?u = Some \<lparr>vr_customer = customer_uuid (o_customerID o1), vr_status = o_status o1,
       vr_total = Amount (TotalAmount ?o), vr_count = n\<rparr>"
    using assms(6) unfolding projected.simps Let_def e total counted_def card
    by (auto simp: restate_def simp del: added_sel(2))
  then show ?thesis using items rest unfolding shows_order_def by auto
qed

lemma shows_confirmed:
  assumes "shows_order o1 L0 V1 L1" "unseen_order o1 V0 L0" "o_items o1 \<noteq> []"
    and "list_all item_ok (o_items o1)" "exact_order o1"
    and "projected R (EvOrderConfirmed e) V1 L1 V L"
    and e: "parse_ignoring R (ocf_OrderID e) = order_uuid (o_id o1)" "ocf_TotalAmount e = Amount (TotalAmount o1)"
  shows "shows_order (confirmed R o1 now at) L0 V L"
proof -
  let ?u = "order_uuid (o_id o1)"
  have "lines_of L1 ?u = item_id ` set (o_items o1)"
    using shows_lines_of [OF assms(1)] assms(2) by (simp add: unseen_order_def)
  then have card: "card (lines_of L1 ?u) = length (o_items o1)"
    using assms(5) by (metis distinct_card exact_order_def length_map list.set_map)
  have pos: "sint (Amount (TotalAmount o1)) > 0" by (rule exact_total_positive [OF assms(4,3,5)])
  from assms(1) obtain n0 where v1: "V1 ?u = Some \<lparr>vr_customer = customer_uuid (o_customerID o1),
      vr_status = o_status o1, vr_total = Amount (TotalAmount o1), vr_count = n0\<rparr>"
    by (auto simp: shows_order_def)
  from assms(6) obtain n where n: "n \<in> {0, of_nat (length (o_items o1))}" and L: "L = L1" and
    V: "V = V1(?u := map_option (restate ''CONFIRMED'' (Amount (TotalAmount o1)) n) (V1 ?u))"
    unfolding projected.simps Let_def e counted_def card by blast
  have "V ?u = Some \<lparr>vr_customer = customer_uuid (o_customerID o1), vr_status = StatusConfirmed,
      vr_total = Amount (TotalAmount o1), vr_count = n\<rparr>"
    using pos by (simp add: V v1 restate_def StatusConfirmed_def)
  with assms(1) n show ?thesis unfolding shows_order_def L by auto
qed

lemma lifecycle_shows:
  "lifecycle R d o1 \<Longrightarrow> exact_order o1 \<Longrightarrow> unseen_order o1 V0 L0 \<Longrightarrow>
     projected_all R (d @ o_events o1) V0 L0 V L \<Longrightarrow> shows_order o1 L0 V L"
proof (induction arbitrary: V L rule: lifecycle.induct)
  case (new cid w o1 w')
  then show ?case
    by (elim NewOrder_okE) (auto simp: shows_order_def unseen_order_def Let_def upsert_view_def
        TotalAmount_def OrderID_String_def CustomerID_String_def)
next
  case (add d o1 pid pname q u w o2 w')
  from AddItem_okE [OF add.hyps(2)] obtain item now at where
    o2: "item_ok item" "o2 = added R o1 item now at" by metis
  from added_event [of o1 item now at] obtain e where
    e: "o_events o2 = o_events o1 @ [EvOrderItemAdded e]"
      "parse_ignoring R (oia_OrderID e) = order_uuid (o_id o1)" "parse_ignoring R (oia_ItemID e) = item_id item"
      "line_of_event R e = line_of_item (o_id o1) item" unfolding o2(2) by blast
  from add.prems(3) obtain V1 L1 where p: "projected_all R (d @ o_events o1) V0 L0 V1 L1"
      "projected R (EvOrderItemAdded e) V1 L1 V L"
    by (auto simp: e(1) projected_all_append)
  have "exact_order o1" "unseen_order o1 V0 L0"
    using exact_order_added [OF add.prems(1) [unfolded o2(2)] o2(1)] add.prems(2) o2
    by (auto simp: unseen_order_def)
  from add.IH [OF this p(1)] lifecycle_inv [OF add.hyps(1)] p(2) add.prems(1,2) o2(1) e(2,3,4)
  show ?case unfolding o2(2) by (intro shows_added) (simp_all add: order_inv_def)
next
  case (confirm d o1 w o2 w')
  from Confirm_okE [OF confirm.hyps(2)] obtain now at where
    o2: "o_items o1 \<noteq> []" "o2 = confirmed R o1 now at" by metis
  then obtain e where e: "o_events o2 = o_events o1 @ [EvOrderConfirmed e]"
      "parse_ignoring R (ocf_OrderID e) = order_uuid (o_id o1)" "ocf_TotalAmount e = Amount (TotalAmount o1)"
    by (auto simp: confirmed_def OrderID_String_def)
  from confirm.prems(3) obtain V1 L1 where p: "projected_all R (d @ o_events o1) V0 L0 V1 L1"
      "projected R (EvOrderConfirmed e) V1 L1 V L"
    by (auto simp: e(1) projected_all_append)
  have "exact_order o1" "unseen_order o1 V0 L0"
    using confirm.prems(1,2) o2 by (auto simp: unseen_order_def exact_order_def)
  from confirm.IH [OF this p(1)] this lifecycle_inv [OF confirm.hyps(1)] p(2) o2(1) e(2,3)
  show ?case unfolding o2(2) by (intro shows_confirmed) (simp_all add: order_inv_def)
next
  case (increment d o1)
  have same: "same_content (IncrementVersion o1) o1" "o_events (IncrementVersion o1) = o_events o1"
    by (simp_all add: same_content_def IncrementVersion_def)
  show ?case
    using increment.prems same_content_cong [OF same(1)] by (simp add: same(2) increment.IH)
next
  case (drain d o1 evs o2)
  have same: "same_content o2 o1" "(d @ evs) @ o_events o2 = d @ o_events o1"
    using drain.hyps(2) by (auto simp: same_content_def Events_def)
  show ?case
    using drain.prems same_content_cong [OF same(1)] unfolding same(2) by (simp add: drain.IH)
qed

end

section \<open>Handling the entries of an order\<close>

text \<open>\<open>handled_all R rm ps xs w w'\<close>: the entries \<open>xs\<close> were handled one after the other, each with success.\<close>

fun handled_all ::
  "('w, 'z) runtime_scheme \<Rightarrow> 'w ReadModelStore \<Rightarrow> 'w ProcessedEventStore \<Rightarrow> OutboxEvent list \<Rightarrow> 'w \<Rightarrow> 'w \<Rightarrow> bool" where
  "handled_all R rm ps [] w w' \<longleftrightarrow> w' = w"
| "handled_all R rm ps (x # xs) w w' \<longleftrightarrow>
     (\<exists>w1. run_state (OrderProjectionHandler_Handle R rm ps x) w = (Inr (), w1) \<and> handled_all R rm ps xs w1 w')"

lemma restate_status: "vr_status r \<noteq> '''' \<Longrightarrow> vr_status (restate status amount n r) \<noteq> ''''"
  by (simp add: restate_def)

lemma statuses_okD: "statuses_ok V \<Longrightarrow> V i = Some r \<Longrightarrow> vr_status r \<noteq> ''''"
  by (simp add: statuses_ok_def)

lemma statuses_ok_upd:
  "statuses_ok V \<Longrightarrow> (\<And>r. x = Some r \<Longrightarrow> vr_status r \<noteq> '''') \<Longrightarrow> statuses_ok (V(i := x))"
  by (simp add: statuses_ok_def)

lemma projected_statuses:
  assumes "projected R ev V L V' L'" "event_status_ok ev" "statuses_ok V"
  shows "statuses_ok V'"
proof (cases ev)
  case (EvOrderCreated e)
  with assms show ?thesis
    by (auto simp: Let_def upsert_view_def nonzero_def intro!: statuses_ok_upd split: option.splits)
next
  case (EvOrderItemAdded e)
  with assms(1) obtain i r amount n where "V i = Some r" "V' = V(i \<mapsto> restate '''' amount n r)"
    by (auto simp: Let_def)
  with assms(3) show ?thesis by (auto intro!: statuses_ok_upd restate_status dest: statuses_okD)
next
  case (EvOrderConfirmed e)
  with assms(1) obtain i amount n where "V' = V(i := map_option (restate ''CONFIRMED'' amount n) (V i))"
    by (auto simp: Let_def)
  with assms(3) show ?thesis by (auto intro!: statuses_ok_upd restate_status dest: statuses_okD)
qed

context projection_stores begin

lemma handled_all_projects:
  "handled_all R rm ps xs w w' \<Longrightarrow> list_all2 (carries R) xs evs \<Longrightarrow> list_all event_status_ok evs \<Longrightarrow>
   statuses_ok (views w) \<Longrightarrow> distinct (map oe_ID xs) \<Longrightarrow>
   \<forall>x \<in> set xs. (oe_ID x, HandlerName) \<notin> processed w \<Longrightarrow>
     projected_all R evs (views w) (lines w) (views w') (lines w') \<and>
     processed w' = processed w \<union> (\<lambda>x. (oe_ID x, HandlerName)) ` set xs"
proof (induction xs arbitrary: evs w)
  case (Cons x xs)
  from Cons.prems(1) obtain w1 where
    H: "run_state (OrderProjectionHandler_Handle R rm ps x) w = (Inr (), w1)" and
    rest: "handled_all R rm ps xs w1 w'" by auto
  from Cons.prems(2) obtain ev evs' where evs: "evs = ev # evs'" "carries R x ev" "list_all2 (carries R) xs evs'"
    by (auto simp: list_all2_Cons1)
  note p = Handle_projects [OF H _ evs(2)]
  have x: "(oe_ID x, HandlerName) \<notin> processed w" "event_status_ok ev" using Cons.prems(3,6) evs(1) by auto
  note p = p [OF x Cons.prems(4)]
  have "statuses_ok (views w1)" using p projected_statuses x(2) Cons.prems(4) by blast
  moreover have "\<forall>y \<in> set xs. oe_ID y \<noteq> oe_ID x" using Cons.prems(5) by (metis distinct.simps(2) imageI list.set_map list.simps(9))
  then have "\<forall>y \<in> set xs. (oe_ID y, HandlerName) \<notin> processed w1" using Cons.prems(6) p by simp
  ultimately have "projected_all R evs' (views w1) (lines w1) (views w') (lines w') \<and>
      processed w' = processed w1 \<union> (\<lambda>x. (oe_ID x, HandlerName)) ` set xs"
    using Cons.prems(3,5) evs by (intro Cons.IH [OF rest]) auto
  then show ?case using p evs(1) by auto
qed simp

lemma lifecycle_statuses: "lifecycle R d o1 \<Longrightarrow> list_all event_status_ok (d @ o_events o1)"
proof (induction rule: lifecycle.induct)
  case (new cid w o1 w') then show ?case by (elim NewOrder_okE) simp
next
  case (add d o1 pid pname q u w o2 w')
  then show ?case by (auto elim!: AddItem_okE simp: added_def)
next
  case (confirm d o1 w o2 w')
  then show ?case by (auto elim!: Confirm_okE simp: confirmed_def)
qed (auto simp: IncrementVersion_def Events_def)

lemma read_model_follows:
  assumes "lifecycle R d o1" "list_all2 (carries R) xs (d @ o_events o1)" "exact_order o1"
    and "handled_all R rm ps xs w w'" "distinct (map oe_ID xs)"
    and "unseen_order o1 (views w) (lines w)" "statuses_ok (views w)"
    and "\<forall>x \<in> set xs. (oe_ID x, HandlerName) \<notin> processed w"
  shows "shows_order o1 (lines w) (views w') (lines w')"
  using handled_all_projects [OF assms(4,2) lifecycle_statuses [OF assms(1)] assms(7,5,8)]
    lifecycle_shows [OF assms(1,3,6)] by blast

end

end
