(* ===== verification/Relay.thy ===== *)
theory Relay imports Workers Read_Model_Store Event_Stores Read_Consistency Unit_Of_Work Command_History begin

text \<open>
  The relay with the in-memory bus, as \<^verbatim>\<open>internal/bootstrap/app.go\<close> wires it: a batch of the
  outbox is published to the projection, which runs inside the publish call.
\<close>

section \<open>Wiring\<close>

definition projection_handler :: "'w platform \<Rightarrow> 'w EventHandler" where
  "projection_handler E =
     OrderProjectionHandler_Handle E (NewGormReadModelStore E) (NewGormProcessedEventStore E)"

definition inmemory_bus :: "'w platform \<Rightarrow> 'w handlers" where
  "inmemory_bus E = ProjectionWorker_Setup no_handlers (projection_handler E)"

definition relay_batch :: "'w platform \<Rightarrow> go_int \<Rightarrow> ('w, nat \<times> nat) state" where
  "relay_batch E batchSize =
     OutboxWorker_processBatch (NewGormOutboxStore E) (InMemoryEventBus_Publish (inmemory_bus E)) batchSize"

lemmas relay_eval [go_defs] = projection_handler_def inmemory_bus_def relay_batch_def

lemma inmemory_bus_handlers: "h \<in> set (inmemory_bus E ty) \<Longrightarrow> h = projection_handler E"
  by (auto simp: inmemory_bus_def ProjectionWorker_Setup_def Subscribe_def no_handlers_def split: if_splits)

section \<open>The read side leaves the write side alone\<close>

definition write_part :: "tables \<Rightarrow> (uuid \<Rightarrow> OrderModel option) \<times> (uuid \<Rightarrow> OrderItemModel option) \<times> (uuid \<Rightarrow> OutboxEventModel option)" where
  "write_part t = (t_orders t, t_items t, t_outbox t)"

lemma write_part_put [simp]:
  "write_part (t\<lparr>t_order_views := m\<rparr>) = write_part t" "write_part (t\<lparr>t_item_views := n\<rparr>) = write_part t"
  "write_part (t\<lparr>t_processed := p\<rparr>) = write_part t"
  by (simp_all add: write_part_def)

text \<open>All of the database but the views and their lines.\<close>

definition rest_part :: "tables \<Rightarrow> ((uuid \<Rightarrow> OrderModel option) \<times> (uuid \<Rightarrow> OrderItemModel option) \<times> (uuid \<Rightarrow> OutboxEventModel option)) \<times>
    (uuid \<times> string \<Rightarrow> ProcessedEventModel option)" where
  "rest_part t = (write_part t, t_processed t)"

lemma rest_part_put [simp]:
  "rest_part (t\<lparr>t_order_views := m\<rparr>) = rest_part t" "rest_part (t\<lparr>t_item_views := n\<rparr>) = rest_part t"
  by (simp_all add: rest_part_def)

lemma rest_part_parts:
  assumes "rest_part t = rest_part t'"
  shows "write_part t = write_part t'" "stored_processed_events t = stored_processed_events t'"
  using assms by (simp_all add: rest_part_def stored_processed_events_def)

lemma write_part_events:
  assumes "write_part t = write_part t'"
  shows "stored_events t = stored_events t'" "stored_orders t = stored_orders t'"
  using assms by (auto simp: write_part_def stored_events_def stored_orders_def items_of_def)

lemma read_frame_processed:
  "read_frame t = read_frame t' \<Longrightarrow> stored_processed_events t = stored_processed_events t'"
  by (cases t; cases t') (simp add: read_frame_def stored_processed_events_def)

lemma processed_frame_views:
  "processed_frame t = processed_frame t' \<Longrightarrow> stored_views t = stored_views t' \<and> stored_lines t = stored_lines t'"
  by (cases t; cases t') (auto simp: processed_frame_def stored_views_def stored_lines_def)

context gorm_platform begin

sublocale proj: projection_stores E "NewGormReadModelStore E" "NewGormProcessedEventStore E"
  "\<lambda>w. stored_views (view w)" "\<lambda>w. stored_lines (view w)" "\<lambda>w. stored_processed_events (view w)"
  "\<lambda>w. read_frame (view w)" "\<lambda>w. processed_frame (view w)"
proof (unfold_locales, goal_cases)
  case (1 w w') then show ?case by (rule read_frame_processed)
next
  case (2 w w') then show ?case by (rule processed_frame_views)
next
  case (3 w t w') then show ?case by (simp add: now_pure)
qed

lemma FirstOrCreate_write:
  assumes "run_state (g_FirstOrCreate (pf_processed E) P x) w = (m, w')" "P x"
  shows "write_part (view w') = write_part (view w)"
proof (cases m)
  case (Inl e)
  then show ?thesis using processed.FirstOrCreate_err assms(1) by simp
next
  case (Inr u)
  from processed.FirstOrCreate_ok [OF assms(1) [unfolded Inr] assms(2)] show ?thesis
    by (cases "matching P (t_processed (view w)) = {}") auto
qed

lemma Updates_rest:
  assumes "run_state (g_Updates (pf_order_views E) P f) w = (n, w')" "\<And>t r. ovm_ID (f t r) = ovm_ID r"
  shows "rest_part (view w') = rest_part (view w)"
proof (cases n)
  case (Inl e)
  then show ?thesis using views.Updates_err assms(1) by simp
next
  case (Inr u)
  from views.Updates_ok [OF assms(1) [unfolded Inr] assms(2)] show ?thesis by auto
qed

lemma Count_write: "run_state (g_Count (pf_item_views E) P) w = (c, w') \<Longrightarrow> view w' = view w"
  by (cases c) (auto dest: iviews.Count_ok iviews.Count_err)

lemma ps_write:
  "run_state (ps_IsProcessed (NewGormProcessedEventStore E) i h) w = (r, w') \<Longrightarrow> write_part (view w') = write_part (view w)"
  "run_state (ps_MarkProcessed (NewGormProcessedEventStore E) i h) w = (m, w') \<Longrightarrow> write_part (view w') = write_part (view w)"
proof -
  show "run_state (ps_IsProcessed (NewGormProcessedEventStore E) i h) w = (r, w') \<Longrightarrow> write_part (view w') = write_part (view w)"
    by (cases r) (auto simp: NewGormProcessedEventStore_def dest!: IsProcessed_ok IsProcessed_err)
  show "run_state (ps_MarkProcessed (NewGormProcessedEventStore E) i h) w = (m, w') \<Longrightarrow> write_part (view w') = write_part (view w)"
    by (auto simp: NewGormProcessedEventStore_def GormProcessedEventStore_MarkProcessed_def
        split: prod.splits dest!: FirstOrCreate_write now_pure)
qed

lemma rm_rest:
  "run_state (rm_GetOrderByID (NewGormReadModelStore E) i) w = (g, w') \<Longrightarrow> rest_part (view w') = rest_part (view w)"
  "run_state (rm_UpsertOrderView (NewGormReadModelStore E) v) w = (u, w') \<Longrightarrow> rest_part (view w') = rest_part (view w)"
  "run_state (rm_UpsertOrderItemView (NewGormReadModelStore E) x) w = (u, w') \<Longrightarrow> rest_part (view w') = rest_part (view w)"
  "run_state (rm_UpdateOrderStatus (NewGormReadModelStore E) i s a) w = (u, w') \<Longrightarrow> rest_part (view w') = rest_part (view w)"
proof -
  show "run_state (rm_GetOrderByID (NewGormReadModelStore E) i) w = (g, w') \<Longrightarrow> rest_part (view w') = rest_part (view w)"
    by (cases g) (auto simp: NewGormReadModelStore_def dest!: GetOrderByID_ok GetOrderByID_err)
  show "run_state (rm_UpsertOrderView (NewGormReadModelStore E) v) w = (u, w') \<Longrightarrow> rest_part (view w') = rest_part (view w)"
    by (cases u) (auto simp: NewGormReadModelStore_def GormReadModelStore_UpsertOrderView_def Let_def
        dest!: views.AssignFirstOrCreate_ok views.AssignFirstOrCreate_err)
  show "run_state (rm_UpsertOrderItemView (NewGormReadModelStore E) x) w = (u, w') \<Longrightarrow> rest_part (view w') = rest_part (view w)"
    by (cases u) (auto simp: NewGormReadModelStore_def GormReadModelStore_UpsertOrderItemView_def Let_def
        dest!: iviews.AssignFirstOrCreate_ok iviews.AssignFirstOrCreate_err)
  show "run_state (rm_UpdateOrderStatus (NewGormReadModelStore E) i s a) w = (u, w') \<Longrightarrow> rest_part (view w') = rest_part (view w)"
    by (auto simp: NewGormReadModelStore_def GormReadModelStore_UpdateOrderStatus_def Let_def
        split: prod.splits sum.splits dest!: Updates_rest Count_write)
qed

lemmas rm_write = rm_rest [THEN rest_part_parts(1)]

text \<open>One event applied to the read model, whatever comes of it.\<close>

lemma switch_rest:
  assumes "projection_switch E (NewGormReadModelStore E) x = Some handle" "run_state handle w = (r, w')"
  shows "rest_part (view w') = rest_part (view w)"
  using assms
  by (auto simp: projection_switch_def handleOrderCreated_def handleOrderItemAdded_def handleOrderConfirmed_def Let_def
      split: prod.splits sum.splits if_splits dest!: rm_rest now_pure)

lemma handler_write:
  "run_state (projection_handler E x) w = (r, w') \<Longrightarrow> write_part (view w') = write_part (view w)"
  by (auto simp: projection_handler_def OrderProjectionHandler_Handle_def projection_switch_def
      handleOrderCreated_def handleOrderItemAdded_def handleOrderConfirmed_def Let_def
      split: prod.splits sum.splits if_splits option.splits dest!: ps_write rm_write now_pure)

lemma publish_write:
  assumes "run_state (InMemoryEventBus_Publish (inmemory_bus E) x) w = (r, w')"
  shows "write_part (view w') = write_part (view w)"
proof (rule Publish_invariant [OF _ assms, where I = "\<lambda>w'. write_part (view w') = write_part (view w)"])
  fix h w1 r1 w2
  assume "h \<in> set (inmemory_bus E (oe_EventType x))" "run_state (h x) w1 = (r1, w2)"
    "write_part (view w1) = write_part (view w)"
  then show "write_part (view w2) = write_part (view w)"
    using handler_write inmemory_bus_handlers by metis
qed simp

text \<open>A store operation of the outbox changes nothing else of the write side.\<close>

lemma outbox_frame_write: "outbox_frame t = outbox_frame t' \<Longrightarrow> stored_orders t = stored_orders t'"
  using outbox_frame_orders [of t t'] by (intro ext) (simp add: stored_orders_def items_of_def)

lemma ob_orders:
  "run_state (ob_FetchPending (NewGormOutboxStore E) n) w = (f, w') \<Longrightarrow> sint n \<ge> 0 \<Longrightarrow> stored_orders (view w') = stored_orders (view w)"
  "run_state (ob_MarkPublished (NewGormOutboxStore E) i) w = (p, w') \<Longrightarrow> stored_orders (view w') = stored_orders (view w)"
  "run_state (ob_MarkFailed (NewGormOutboxStore E) i msg) w = (m, w') \<Longrightarrow> stored_orders (view w') = stored_orders (view w)"
proof -
  show "run_state (ob_FetchPending (NewGormOutboxStore E) n) w = (f, w') \<Longrightarrow> sint n \<ge> 0 \<Longrightarrow> stored_orders (view w') = stored_orders (view w)"
    by (cases f) (auto intro!: outbox_frame_write dest!: ob.fetch_ok ob.fetch_err)
  show "run_state (ob_MarkPublished (NewGormOutboxStore E) i) w = (p, w') \<Longrightarrow> stored_orders (view w') = stored_orders (view w)"
    by (cases p) (auto intro!: outbox_frame_write dest!: ob.published_ok ob.published_err)
  show "run_state (ob_MarkFailed (NewGormOutboxStore E) i msg) w = (m, w') \<Longrightarrow> stored_orders (view w') = stored_orders (view w)"
    by (cases m) (auto intro!: outbox_frame_write dest!: ob.failed_ok ob.failed_err)
qed

lemma process_events_orders:
  "run_state (process_events (NewGormOutboxStore E) (InMemoryEventBus_Publish (inmemory_bus E)) xs) w = (c, w') \<Longrightarrow>
     stored_orders (view w') = stored_orders (view w)"
proof (induction xs arbitrary: w c)
  case (Cons x xs)
  obtain p w1 where P: "run_state (InMemoryEventBus_Publish (inmemory_bus E) x) w = (p, w1)" by fastforce
  obtain m w2 where M: "run_state (case p of Inl err \<Rightarrow> ob_MarkFailed (NewGormOutboxStore E) (oe_ID x) (error_text err)
      | Inr _ \<Rightarrow> ob_MarkPublished (NewGormOutboxStore E) (oe_ID x)) w1 = (m, w2)" by fastforce
  from Cons.prems P M obtain c2 where
    R: "run_state (process_events (NewGormOutboxStore E) (InMemoryEventBus_Publish (inmemory_bus E)) xs) w2 = (c2, w')"
    by (auto split: prod.splits sum.splits)
  have "stored_orders (view w1) = stored_orders (view w)" by (rule write_part_events(2) [OF publish_write [OF P]])
  moreover have "stored_orders (view w2) = stored_orders (view w1)"
    using M ob_orders(2,3) by (cases p) auto
  ultimately show ?case using Cons.IH [OF R] by simp
qed simp

lemma relay_batch_effect:
  assumes "run_state (relay_batch E n) w = (c, w')" "sint n \<ge> 0"
  shows "stored_orders (view w') = stored_orders (view w) \<and>
    (\<exists>K. finite K \<and> card K \<le> nat (sint n) \<and> relays (stored_events (view w)) (stored_events (view w')) K)"
proof
  have pub: "stored_events (view w') = stored_events (view w)"
    if "run_state (InMemoryEventBus_Publish (inmemory_bus E) x) w = (r, w')" for x w r w'
    by (rule write_part_events(1) [OF publish_write [OF that]])
  from ob.processBatch_relays [OF pub assms(1) [unfolded relay_batch_def] assms(2)]
  show "\<exists>K. finite K \<and> card K \<le> nat (sint n) \<and> relays (stored_events (view w)) (stored_events (view w')) K" .
  obtain f w1 where F: "run_state (ob_FetchPending (NewGormOutboxStore E) n) w = (f, w1)" by fastforce
  have "stored_orders (view w1) = stored_orders (view w)" by (rule ob_orders(1) [OF F assms(2)])
  moreover have "stored_orders (view w') = stored_orders (view w1)"
    using assms(1) F
    by (auto simp: relay_batch_def OutboxWorker_processBatch_def split: sum.splits if_splits
        dest: process_events_orders)
  ultimately show "stored_orders (view w') = stored_orders (view w)" by simp
qed

end

section \<open>A batch keeps the log\<close>

lemma kept_log: "kept x y \<Longrightarrow> log_key y = log_key x"
  by (cases x; cases y) (simp add: kept_def log_key_def)

lemma relayed_log: "relayed x y \<Longrightarrow> log_key y = log_key x"
  by (auto simp: relayed_def attempted_def published_at_def dest!: kept_log) (auto simp: log_key_def)

lemma relays_same_log:
  assumes "relays m m' K"
  shows "same_log m m'"
  unfolding same_log_def
proof
  fix k
  show "map_option log_key (m' k) = map_option log_key (m k)"
    using assms relayed_log by (cases "k \<in> K") (fastforce simp: relays_def)+
qed

end
