(* ===== verification/Relay_Scenario.thy ===== *)
theory Relay_Scenario imports Relay Scenario begin

text \<open>
  The relay on the scenario's database: the three entries of the confirmed order are handled
  in the order they were raised, or with the first delivery failing.
\<close>

section \<open>Worlds\<close>

definition sc_r :: "time \<Rightarrow> bool list \<Rightarrow> OutboxEventModel list \<Rightarrow> ProcessedEventModel list
    \<Rightarrow> OrderViewModel list \<Rightarrow> OrderItemViewModel list \<Rightarrow> mem" where
  "sc_r c fs obx pr ov iv = sc_w3\<lparr>m_clock := c, m_faults := fs, m_outbox := obx, m_processed := pr,
     m_order_views := ov, m_item_views := iv\<rparr>"

definition sc_view :: "string \<Rightarrow> int64 \<Rightarrow> go_int \<Rightarrow> time \<Rightarrow> OrderViewModel" where
  "sc_view status amount n at = \<lparr>ovm_ID = 1, ovm_CustomerID = 7, ovm_Status = status,
     ovm_TotalAmount = amount, ovm_ItemCount = n, ovm_CreatedAt = 2, ovm_UpdatedAt = at\<rparr>"

definition sc_item_view :: "time \<Rightarrow> OrderItemViewModel" where
  "sc_item_view at = \<lparr>ivm_ID = 3, ivm_OrderID = 1, ivm_ProductID = ''p'', ivm_ProductName = ''pen'',
     ivm_Quantity = 3, ivm_UnitPrice = 500, ivm_TotalPrice = 1500, ivm_CreatedAt = at\<rparr>"

definition sc_processed :: "uuid \<Rightarrow> time \<Rightarrow> ProcessedEventModel" where
  "sc_processed u at = \<lparr>pe_EventID = u, pe_HandlerName = ''OrderProjection'', pe_ProcessedAt = at\<rparr>"

lemmas sc_relay = sc_r_def sc_view_def sc_item_view_def sc_processed_def sc_worlds

text \<open>An entry of the scenario in some delivery state.\<close>

definition sc_sent :: "OutboxEventModel \<Rightarrow> string \<Rightarrow> go_int \<Rightarrow> string option \<Rightarrow> time \<Rightarrow> time option \<Rightarrow> OutboxEventModel" where
  "sc_sent e st n err at pub = e\<lparr>oem_Status := st, oem_RetryCount := n, oem_LastError := err, oem_AvailableAt := at,
     oem_PublishedAt := pub\<rparr>"

lemma all_replicate [simp]: "list_all (\<lambda>d. d = c) (replicate n c)"
  by (simp add: list_all_length)

lemmas sc_handle = mem_eval projection_eval projection_handler_def sc_relay sc_sent_def to_port_event_def
  Let_def read_model_eval event_stores_eval json_eval parse_ignoring_def pe_key_def

section \<open>Steps of a batch\<close>

lemma process_published:
  assumes "run_state (publish e) w = (Inr (), w1)" "run_state (ob_MarkPublished ob (oe_ID e)) w1 = (Inr (), w2)"
    and "run_state (process_events ob publish es) w2 = ((a, b), w3)"
  shows "run_state (process_events ob publish (e # es)) w = ((a + 1, b), w3)"
  using assms by simp

lemma process_failed:
  assumes "run_state (publish e) w = (Inl err, w1)"
    and "run_state (ob_MarkFailed ob (oe_ID e) (error_text err)) w1 = (Inr (), w2)"
    and "run_state (process_events ob publish es) w2 = ((a, b), w3)"
  shows "run_state (process_events ob publish (e # es)) w = ((a, b + 1), w3)"
  using assms by simp

lemma publish_handled:
  assumes "oe_EventType x \<in> {''OrderCreated'', ''OrderItemAdded'', ''OrderConfirmed''}"
    and "run_state (projection_handler E x) w = (Inr (), w')"
  shows "run_state (InMemoryEventBus_Publish (inmemory_bus E) x) w = (Inr (), w')"
  using assms by (auto simp: InMemoryEventBus_Publish_def inmemory_bus_def ProjectionWorker_Setup_def
      Subscribe_def no_handlers_def)

lemma publish_refused:
  assumes "oe_EventType x \<in> {''OrderCreated'', ''OrderItemAdded'', ''OrderConfirmed''}"
    and "run_state (projection_handler E x) w = (Inl e, w')"
  shows "run_state (InMemoryEventBus_Publish (inmemory_bus E) x) w =
    (Inl (ErrWrap (''handler error for '' @ oe_EventType x @ '': '') e), w')"
  using assms by (auto simp: InMemoryEventBus_Publish_def inmemory_bus_def ProjectionWorker_Setup_def
      Subscribe_def no_handlers_def)

section \<open>Single deliveries\<close>

lemma sc_handle_created:
  "run_state (projection_handler mem_platform (to_port_event (sc_sent sc_e1 st n err at pub))) (sc_r c [] obx pr [] iv)
     = (Inr (), sc_r (c + 1) [] obx (sc_processed 2 c # pr) [sc_view ''DRAFT'' 0 0 2] iv)"
  if "pr = [] \<or> pr = [sc_processed 5 t]"
  using that by (elim disjE) (simp_all add: sc_handle)

lemma sc_handle_created_fault:
  "run_state (projection_handler mem_platform (to_port_event (sc_sent sc_e1 st n err at pub))) (sc_r c [False, True] obx [] [] [])
     = (Inl (ErrDriver ''connection refused''), sc_r c [] obx [] [] [])"
  by (simp add: sc_handle)

lemma sc_handle_added:
  "run_state (projection_handler mem_platform (to_port_event (sc_sent sc_e2 st n err at pub)))
       (sc_r c [] obx pr [sc_view ''DRAFT'' 0 0 2] iv)
     = (Inr (), sc_r (c + 2) [] obx (sc_processed 4 (c + 1) # pr) [sc_view ''DRAFT'' 1500 1 (c + 1)] [sc_item_view c])"
  if "pr = [sc_processed 2 t] \<or> pr = [sc_processed 2 t, sc_processed 5 t']" "iv = [] \<or> iv = [sc_item_view t2]" "0 < c"
  using that by (elim disjE) (simp_all add: sc_handle merge_iview_def nonzero_def)

lemma sc_handle_added_early:
  "run_state (projection_handler mem_platform (to_port_event (sc_sent sc_e2 st n err at pub))) (sc_r c [] obx [] [] [])
     = (Inl (ErrWrap ''get order for recalc: '' ErrOrderNotFound), sc_r (c + 1) [] obx [] [] [sc_item_view c])"
  by (simp add: sc_handle)

lemma sc_handle_confirmed:
  "run_state (projection_handler mem_platform (to_port_event (sc_sent sc_e3 st n err at pub)))
       (sc_r c [] obx pr [sc_view ''DRAFT'' 1500 1 t] [sc_item_view t'])
     = (Inr (), sc_r (c + 1) [] obx (sc_processed 5 c # pr) [sc_view ''CONFIRMED'' 1500 1 c] [sc_item_view t'])"
  if "pr = [sc_processed 4 t1, sc_processed 2 t2]"
  by (simp add: sc_handle that)

lemma sc_handle_confirmed_early:
  "run_state (projection_handler mem_platform (to_port_event (sc_sent sc_e3 st n err at pub)))
       (sc_r c [] obx [] [] [sc_item_view t'])
     = (Inr (), sc_r (c + 1) [] obx [sc_processed 5 c] [] [sc_item_view t'])"
  by (simp add: sc_handle)

section \<open>Marks\<close>

text \<open>The entries by identifier, and the row of the marked one.\<close>

lemma mem_mark_published:
  assumes "distinct (map oem_ID obx)" "length obx \<le> 1000"
  shows "run_state (GormOutboxStore_MarkPublished mem_platform u) (sc_r c [] obx pr ov iv) =
    (Inr (), sc_r (c + 1) [] (map (\<lambda>m. if oem_ID m = u
       then m\<lparr>oem_Status := ''published'', oem_PublishedAt := Some c\<rparr> else m) obx) pr ov iv)"
proof -
  have *: "map (oem_ID \<circ> (\<lambda>m. if oem_ID m = u then m\<lparr>oem_Status := ''published'', oem_PublishedAt := Some c\<rparr> else m)) obx
      = map oem_ID obx" by (rule map_cong) auto
  have "distinct (map (oem_ID \<circ> (\<lambda>m. if oem_ID m = u
      then m\<lparr>oem_Status := ''published'', oem_PublishedAt := Some c\<rparr> else m)) obx)"
    unfolding * by (rule assms(1))
  then show ?thesis using assms
    by (simp add: GormOutboxStore_MarkPublished_def mem_platform_sel mem_run mem_table_sel sc_r_def mem_write_def
        mem_insert_def mem_rows_id)
qed

lemma mem_mark_failed:
  assumes "distinct (map oem_ID obx)" "length obx \<le> 1000" "m \<in> set obx" "oem_ID m = u"
    and "sint (oem_RetryCount m + 1) < 10"
  shows "run_state (GormOutboxStore_MarkFailed mem_platform u msg) (sc_r c [] obx pr ov iv) =
    (Inr (), sc_r (c + 1) [] (m\<lparr>oem_RetryCount := oem_RetryCount m + 1, oem_LastError := Some msg,
       oem_AvailableAt := c + backoff_secs (oem_RetryCount m + 1) * 1000000\<rparr> #
       filter (\<lambda>x. oem_ID x \<noteq> u) obx) pr ov iv)"
proof -
  have rows: "mem_rows oem_ID obx = obx" by (rule mem_rows_id [OF assms(1,2)])
  have hit: "filter (\<lambda>x. oem_ID x = u) obx = [m]"
    using assms(1,3,4)
  proof (induction obx)
    case (Cons x xs)
    show ?case
    proof (cases "x = m")
      case True
      then have "filter (\<lambda>x. oem_ID x = u) xs = []" using Cons.prems
        by (auto simp: filter_empty_conv) (metis image_eqI)
      with True Cons.prems show ?thesis by simp
    next
      case False
      with Cons.prems have "m \<in> set xs" "oem_ID x \<noteq> u" by (auto simp: image_iff)
      with Cons show ?thesis by simp
    qed
  qed simp
  have "length (filter (\<lambda>x. oem_ID x \<noteq> u) obx) < length obx"
    by (rule length_filter_less [OF assms(3)]) (simp add: assms(4))
  moreover have "distinct (map oem_ID (filter (\<lambda>x. oem_ID x \<noteq> u) obx))"
    by (rule distinct_map_filter [OF assms(1)])
  moreover from calculation assms(2)
  have "mem_rows oem_ID (filter (\<lambda>x. oem_ID x \<noteq> u) obx) = filter (\<lambda>x. oem_ID x \<noteq> u) obx"
    by (intro mem_rows_id) simp_all
  ultimately show ?thesis using assms(2,4,5)
    by (auto simp: sc_w3_def mem_empty_def GormOutboxStore_MarkFailed_def mem_platform_sel mem_run mem_table_sel sc_r_def mem_write_def
        mem_insert_def mem_replace_def rows hit maxRetries_def Let_def)
qed

section \<open>The deliveries in order\<close>

lemma sc_sent_self [simp]: "sc_sent e ''pending'' 0 None (oem_AvailableAt e) None = e"
  if "e \<in> {sc_e1, sc_e2, sc_e3}"
  using that by (auto simp: sc_sent_def sc_worlds)

abbreviation sc_new :: "OutboxEventModel \<Rightarrow> OutboxEventModel" where
  "sc_new e \<equiv> sc_sent e ''pending'' 0 None (oem_AvailableAt e) None"

lemma sc_w3_r: "sc_w3 = sc_r 10 [] [sc_e3, sc_e2, sc_e1] [] [] []"
  by (simp add: sc_r_def sc_w3_def mem_empty_def)

definition sc_r3 :: mem where
  "sc_r3 = sc_r 14 [] [sc_e3, sc_e2, sc_e1] [sc_processed 5 13, sc_processed 4 12, sc_processed 2 10]
     [sc_view ''CONFIRMED'' 1500 1 13] [sc_item_view 11]"

lemma sc_handled_in_order:
  "handled_all mem_platform (NewGormReadModelStore mem_platform) (NewGormProcessedEventStore mem_platform)
     (map to_port_event [sc_e1, sc_e2, sc_e3]) sc_w3 sc_r3"
  using sc_handle_created [of "[]" 0 "''pending''" 0 None "oem_AvailableAt sc_e1" None 10]
    sc_handle_added [of "[sc_processed 2 10]" 10 0 "[]" 0 11 "''pending''" 0 None "oem_AvailableAt sc_e2" None]
    sc_handle_confirmed [of "[sc_processed 4 12, sc_processed 2 10]" 12 10 "''pending''" 0 None "oem_AvailableAt sc_e3" None 13]
  by (simp add: sc_w3_r projection_handler_def sc_r3_def)

section \<open>A batch whose first delivery fails\<close>

definition sc_f1 :: OutboxEventModel where
  "sc_f1 = sc_sent sc_e1 ''pending'' 1 (Some (error_text (ErrWrap ''handler error for OrderCreated: ''
     (ErrDriver ''connection refused'')))) 4000010 None"

definition sc_f2 :: OutboxEventModel where
  "sc_f2 = sc_sent sc_e2 ''pending'' 1 (Some (error_text (ErrWrap ''handler error for OrderItemAdded: ''
     (ErrWrap ''get order for recalc: '' ErrOrderNotFound)))) 4000012 None"

definition sc_p :: "OutboxEventModel \<Rightarrow> time \<Rightarrow> OutboxEventModel" where
  "sc_p e at = e\<lparr>oem_Status := ''published'', oem_PublishedAt := Some at\<rparr>"

lemmas sc_entries = sc_f1_def sc_f2_def sc_p_def sc_sent_def sc_e1_def sc_e2_def sc_e3_def sc_entry_def

lemma sc_fetch_fault:
  "run_state (GormOutboxStore_FetchPending mem_platform 100) (sc_r 10 [False, False, True] [sc_e3, sc_e2, sc_e1] [] [] [])
    = (Inr (map to_port_event [sc_e1, sc_e2, sc_e3]), sc_r 10 [False, True] [sc_e3, sc_e2, sc_e1] [] [] [])"
  by (simp add: GormOutboxStore_FetchPending_def mem_eval sc_relay)

lemma sc_fetch_again:
  "run_state (GormOutboxStore_FetchPending mem_platform 100) (sc_r 5000000 [] [sc_f2, sc_f1, sc_p sc_e3 14] pr ov iv)
    = (Inr (map to_port_event [sc_f1, sc_f2]), sc_r 5000000 [] [sc_f2, sc_f1, sc_p sc_e3 14] pr ov iv)"
  by (simp add: GormOutboxStore_FetchPending_def mem_eval sc_relay sc_entries)

abbreviation sc_bus :: "mem publisher" where
  "sc_bus \<equiv> InMemoryEventBus_Publish (inmemory_bus mem_platform)"

lemma sc_types [simp]:
  "oe_EventType (to_port_event (sc_sent e st n err at pub)) = oem_EventType e"
  "oe_ID (to_port_event (sc_sent e st n err at pub)) = oem_ID e"
  "oem_ID (sc_sent e st n err at pub) = oem_ID e" "oem_ID (sc_p e t) = oem_ID e"
  "oem_ID sc_e1 = 2" "oem_ID sc_e2 = 4" "oem_ID sc_e3 = 5" "oem_ID sc_f1 = 2" "oem_ID sc_f2 = 4"
  "oem_EventType sc_e1 = ''OrderCreated''" "oem_EventType sc_e2 = ''OrderItemAdded''"
  "oem_EventType sc_e3 = ''OrderConfirmed''"
  "oem_RetryCount sc_e1 = 0" "oem_RetryCount sc_e2 = 0"
  by (simp_all add: to_port_event_def sc_entries)

lemma sc_f_ports [simp]:
  "oe_ID (to_port_event sc_f1) = 2" "oe_ID (to_port_event sc_f2) = 4" "oe_ID (to_port_event sc_e1) = 2"
  "oe_ID (to_port_event sc_e2) = 4" "oe_ID (to_port_event sc_e3) = 5"
  "oe_EventType (to_port_event sc_e1) = ''OrderCreated''" "oe_EventType (to_port_event sc_e2) = ''OrderItemAdded''"
  "oe_EventType (to_port_event sc_e3) = ''OrderConfirmed''"
  by (simp_all add: to_port_event_def sc_entries)

lemma ob_sel [simp]:
  "ob_MarkPublished (NewGormOutboxStore E) = GormOutboxStore_MarkPublished E"
  "ob_MarkFailed (NewGormOutboxStore E) = GormOutboxStore_MarkFailed E"
  "ob_FetchPending (NewGormOutboxStore E) = GormOutboxStore_FetchPending E"
  by (simp_all add: NewGormOutboxStore_def)

lemma sc_first_failed:
  "run_state (GormOutboxStore_MarkFailed mem_platform 2 (error_text (ErrWrap ''handler error for OrderCreated: ''
       (ErrDriver ''connection refused'')))) (sc_r 10 [] [sc_e3, sc_e2, sc_e1] [] [] [])
    = (Inr (), sc_r 11 [] [sc_f1, sc_e3, sc_e2] [] [] [])"
  by (subst mem_mark_failed [where m = sc_e1])
    (simp_all add: sc_f1_def sc_sent_def backoff_secs_def baseBackoffSecs_def maxBackoffSecs_def sc_e1_def sc_entry_def)

lemma sc_second_failed:
  "run_state (GormOutboxStore_MarkFailed mem_platform 4 (error_text (ErrWrap ''handler error for OrderItemAdded: ''
     (ErrWrap ''get order for recalc: '' ErrOrderNotFound)))) (sc_r 12 [] [sc_f1, sc_e3, sc_e2] [] [] iv)
    = (Inr (), sc_r 13 [] [sc_f2, sc_f1, sc_e3] [] [] iv)"
  by (subst mem_mark_failed [where m = sc_e2])
    (simp_all add: sc_f2_def sc_sent_def backoff_secs_def baseBackoffSecs_def maxBackoffSecs_def sc_e2_def sc_entry_def)

definition sc_r_fault :: mem where
  "sc_r_fault = sc_r 15 [] [sc_f2, sc_f1, sc_p sc_e3 14] [sc_processed 5 13] [] [sc_item_view 11]"

lemma sc_batch_fault:
  "run_state (relay_batch mem_platform 100) (sc_r 10 [False, False, True] [sc_e3, sc_e2, sc_e1] [] [] [])
    = ((1, 2), sc_r_fault)"
proof -
  let ?process = "process_events (NewGormOutboxStore mem_platform) sc_bus"
  let ?x = "\<lambda>e. to_port_event (sc_new e)"
  have 3: "run_state (?process [?x sc_e3]) (sc_r 13 [] [sc_f2, sc_f1, sc_e3] [] [] [sc_item_view 11])
      = ((0 + 1, 0), sc_r_fault)"
    by (rule process_published [where publish = sc_bus, OF publish_handled [OF _ sc_handle_confirmed_early]])
      (simp_all add: mem_mark_published sc_p_def sc_r_fault_def)
  have 2: "run_state (?process [?x sc_e2, ?x sc_e3]) (sc_r 11 [] [sc_f1, sc_e3, sc_e2] [] [] [])
      = ((0 + 1, 0 + 1), sc_r_fault)"
    by (rule process_failed [where publish = sc_bus, OF publish_refused [OF _ sc_handle_added_early] _ 3])
      (simp_all add: sc_second_failed [simplified])
  have "run_state (?process [?x sc_e1, ?x sc_e2, ?x sc_e3]) (sc_r 10 [False, True] [sc_e3, sc_e2, sc_e1] [] [] [])
      = ((0 + 1, 0 + 1 + 1), sc_r_fault)"
    by (rule process_failed [where publish = sc_bus, OF publish_refused [OF _ sc_handle_created_fault] _ 2])
      (simp_all add: sc_first_failed [simplified])
  then show ?thesis
    by (simp add: relay_batch_def OutboxWorker_processBatch_def sc_fetch_fault del: process_events.simps)
qed

text \<open>The next batch, when both failed entries are due.\<close>

definition sc_r_again :: mem where
  "sc_r_again = sc_r 5000005 [] [sc_p sc_f2 5000004, sc_p sc_f1 5000001, sc_p sc_e3 14]
     [sc_processed 4 5000003, sc_processed 2 5000000, sc_processed 5 13]
     [sc_view ''DRAFT'' 1500 1 5000003] [sc_item_view 5000002]"

lemma sc_batch_again:
  "run_state (relay_batch mem_platform 100) (sc_r_fault\<lparr>m_clock := 5000000\<rparr>) = ((2, 0), sc_r_again)"
proof -
  let ?process = "process_events (NewGormOutboxStore mem_platform) sc_bus"
  have 2: "run_state (?process [to_port_event sc_f2])
      (sc_r 5000002 [] [sc_f2, sc_p sc_f1 5000001, sc_p sc_e3 14] [sc_processed 2 5000000, sc_processed 5 13]
        [sc_view ''DRAFT'' 0 0 2] [sc_item_view 11]) = ((0 + 1, 0), sc_r_again)"
    unfolding sc_f2_def
    by (rule process_published [where publish = sc_bus, OF publish_handled [OF _ sc_handle_added]])
      (simp_all add: mem_mark_published sc_p_def sc_r_again_def sc_f2_def)
  have "run_state (?process [to_port_event sc_f1, to_port_event sc_f2])
      (sc_r 5000000 [] [sc_f2, sc_f1, sc_p sc_e3 14] [sc_processed 5 13] [] [sc_item_view 11])
      = ((0 + 1 + 1, 0), sc_r_again)"
    unfolding sc_f1_def
    by (rule process_published [where publish = sc_bus, OF publish_handled [OF _ sc_handle_created] _ 2])
      (simp_all add: mem_mark_published sc_p_def sc_f1_def)
  moreover have "sc_r_fault\<lparr>m_clock := 5000000\<rparr> =
      sc_r 5000000 [] [sc_f2, sc_f1, sc_p sc_e3 14] [sc_processed 5 13] [] [sc_item_view 11]"
    by (simp add: sc_r_fault_def sc_r_def)
  ultimately show ?thesis
    by (simp add: relay_batch_def OutboxWorker_processBatch_def sc_fetch_again del: process_events.simps)
qed

section \<open>A batch in which every delivery succeeds\<close>

definition sc_r_done :: mem where
  "sc_r_done = sc_r 17 [] [sc_p sc_e3 16, sc_p sc_e2 14, sc_p sc_e1 11]
     [sc_processed 5 15, sc_processed 4 13, sc_processed 2 10]
     [sc_view ''CONFIRMED'' 1500 1 15] [sc_item_view 12]"

lemma sc_fetch: "run_state (GormOutboxStore_FetchPending mem_platform 100) (sc_r 10 [] [sc_e3, sc_e2, sc_e1] [] [] [])
    = (Inr (map to_port_event [sc_e1, sc_e2, sc_e3]), sc_r 10 [] [sc_e3, sc_e2, sc_e1] [] [] [])"
  by (simp add: GormOutboxStore_FetchPending_def mem_eval sc_relay)

lemma sc_batch: "run_state (relay_batch mem_platform 100) sc_w3 = ((3, 0), sc_r_done)"
proof -
  let ?process = "process_events (NewGormOutboxStore mem_platform) sc_bus"
  let ?x = "\<lambda>e. to_port_event (sc_new e)"
  have 3: "run_state (?process [?x sc_e3])
      (sc_r 15 [] [sc_e3, sc_p sc_e2 14, sc_p sc_e1 11] [sc_processed 4 13, sc_processed 2 10]
        [sc_view ''DRAFT'' 1500 1 13] [sc_item_view 12]) = ((0 + 1, 0), sc_r_done)"
    by (rule process_published [where publish = sc_bus, OF publish_handled [OF _ sc_handle_confirmed]])
      (simp_all add: mem_mark_published sc_p_def sc_r_done_def)
  have 2: "run_state (?process [?x sc_e2, ?x sc_e3])
      (sc_r 12 [] [sc_e3, sc_e2, sc_p sc_e1 11] [sc_processed 2 10] [sc_view ''DRAFT'' 0 0 2] [])
      = ((0 + 1 + 1, 0), sc_r_done)"
    by (rule process_published [where publish = sc_bus, OF publish_handled [OF _ sc_handle_added] _ 3])
      (simp_all add: mem_mark_published sc_p_def)
  have "run_state (?process [?x sc_e1, ?x sc_e2, ?x sc_e3]) (sc_r 10 [] [sc_e3, sc_e2, sc_e1] [] [] [])
      = ((0 + 1 + 1 + 1, 0), sc_r_done)"
    by (rule process_published [where publish = sc_bus, OF publish_handled [OF _ sc_handle_created] _ 2])
      (simp_all add: mem_mark_published sc_p_def)
  then show ?thesis
    by (simp add: sc_w3_r relay_batch_def OutboxWorker_processBatch_def sc_fetch del: process_events.simps)
qed

end
