(* ===== verification/Write_Properties.thy ===== *)
theory Write_Properties imports Scenario begin

text \<open>
  The properties of the write side on any database that obeys the laws of \<open>gorm_platform\<close>:
  the repository, the atomicity and the effect of the commands, and the agreement of the
  outbox with the stored orders after any history.
\<close>

section \<open>Library\<close>

context gorm_platform begin

lemma create_err_view:
  "run_state (CreateOrderHandler_Handle E (NewGormUnitOfWork E) c) w = (Inl e, w') \<Longrightarrow> view w' = view w"
  by (auto simp: CreateOrderHandler_Handle_def split: sum.splits dest!: uow.execute_err)

lemma add_err_view:
  "run_state (AddItemHandler_Handle E (NewGormUnitOfWork E) a) w = (Inl e, w') \<Longrightarrow> view w' = view w"
  by (auto simp: AddItemHandler_Handle_modify split: sum.splits prod.splits dest!: uow.execute_err)

lemma confirm_err_view:
  "run_state (ConfirmOrderHandler_Handle E (NewGormUnitOfWork E) f) w = (Inl e, w') \<Longrightarrow> view w' = view w"
  by (auto simp: ConfirmOrderHandler_Handle_modify split: sum.splits prod.splits dest!: uow.execute_err)

lemma saved_found:
  assumes "run_state (repo_Save (NewGormOrderRepository E) o1) w = (Inr o2, w1)" "storable o1"
    and "run_state (repo_FindByID (NewGormOrderRepository E) (o_id o1)) w1 = (Inr o3, w2)"
  shows "o_id o3 = o_id o1 \<and> o_customerID o3 = o_customerID o1 \<and> o_status o3 = o_status o1 \<and>
    o_version o3 = o_version o1 \<and> set (o_items o3) = set (o_items o1) \<and> distinct (o_items o3) \<and>
    o_events o3 = [] \<and> (\<forall>i. i \<noteq> o_id o1 \<longrightarrow> stored_orders (view w1) i = stored_orders (view w) i)"
  using repo.save_ok [OF assms(1,2)] repo.find_ok [OF assms(3)] by (auto simp: persist_def)

lemma saved_version:
  assumes "run_state (repo_Save (NewGormOrderRepository E) o1) w = (Inr o2, w1)" "storable o1"
  shows "o_version o2 = o_version o1 + 1 \<and>
    map_option p_version (stored_orders (view w1) (o_id o1)) = Some (o_version o1)"
  using repo.save_ok [OF assms] by (auto simp: persist_def IncrementVersion_def)

lemma stale_save:
  assumes "run_state (repo_FindByID (NewGormOrderRepository E) i) w = (Inr o1, w0)"
    and "o_id a = i" "o_version a = o_version o1" "storable a"
    and "o_id b = i" "o_version b = o_version o1" "storable b"
    and "run_state (repo_Save (NewGormOrderRepository E) a) w0 = (Inr a', w1)"
    and "run_state (repo_Save (NewGormOrderRepository E) b) w1 = (r, w2)"
  shows "(\<exists>e. r = Inl e \<and> is_driver_error e) \<or>
    r = Inr (IncrementVersion b) \<and> stored_orders (view w2) i = Some (persist b)"
proof (cases r)
  case (Inl e)
  from repo.save_ok [OF assms(8,4)] have "stored_orders (view w1) i = Some (persist a)"
    using assms(2) by auto
  then have "map_option p_version (stored_orders (view w1) (o_id b)) = Some (o_version b)"
    using assms(3,5,6) by (simp add: persist_def)
  then show ?thesis using Save_current assms(9) Inl by (simp add: NewGormOrderRepository_def)
next
  case (Inr b')
  then show ?thesis using repo.save_ok [OF assms(9) [unfolded Inr] assms(7)] assms(5) by auto
qed

lemma history_log:
  assumes "commands_run E (NewGormUnitOfWork E) env w0 w"
    and "\<And>w w'. env w w' \<Longrightarrow> stored_orders (view w') = stored_orders (view w) \<and>
           same_log (stored_events (view w)) (stored_events (view w'))"
    and "log_ok E (stored_orders (view w0)) (stored_events (view w0))"
  shows "log_ok E (stored_orders (view w)) (stored_events (view w)) \<and>
    (\<forall>oid p. stored_orders (view w0) oid = Some p \<longrightarrow>
       (\<exists>p'. stored_orders (view w) oid = Some p' \<and> evolves p p'))"
  using assms by (rule uow.history_invariant)

lemma create_effect_law:
  assumes "run_state (CreateOrderHandler_Handle E (NewGormUnitOfWork E) c) w = (Inr s, w')"
  shows "\<exists>oid ev. s = OrderID_String E oid \<and>
    create_effect E c oid (stored_orders (view w)) (stored_orders (view w')) ev \<and>
    announced E ev (stored_events (view w)) (stored_events (view w'))"
  using assms by (rule uow.Create_ok)

lemma add_effect_law:
  assumes "run_state (AddItemHandler_Handle E (NewGormUnitOfWork E) a) w = (Inr u, w')"
    and "log_ok E (stored_orders (view w)) (stored_events (view w))"
  shows "\<exists>ev. add_effect E a (stored_orders (view w)) (stored_orders (view w')) ev \<and>
    announced E ev (stored_events (view w)) (stored_events (view w'))"
  using assms(1) log_ok_version [OF assms(2)] by (rule uow.Add_ok)

lemma confirm_effect_law:
  assumes "run_state (ConfirmOrderHandler_Handle E (NewGormUnitOfWork E) f) w = (Inr u, w')"
    and "log_ok E (stored_orders (view w)) (stored_events (view w))"
  shows "\<exists>ev. confirm_effect E f (stored_orders (view w)) (stored_orders (view w')) ev \<and>
    announced E ev (stored_events (view w)) (stored_events (view w'))"
  using assms(1) log_ok_version [OF assms(2)] by (rule uow.Confirm_ok)

end

definition empty_tables :: tables where
  "empty_tables = \<lparr>t_orders = Map.empty, t_items = Map.empty, t_outbox = Map.empty,
     t_processed = Map.empty, t_idempotency = Map.empty, t_order_views = Map.empty,
     t_item_views = Map.empty\<rparr>"

lemma mem_map_Nil [simp]: "mem_map key [] = Map.empty"
  by (simp add: mem_map_def mem_rows_def)

lemma mem_view_empty: "mem_view mem_empty = empty_tables"
  by (simp add: mem_view_def mem_empty_def empty_tables_def)

lemma stored_empty [simp]:
  "stored_orders empty_tables = Map.empty" "stored_events empty_tables = Map.empty"
  by (simp_all add: fun_eq_iff stored_orders_def stored_events_def empty_tables_def)

lemma log_ok_empty: "log_ok R Map.empty Map.empty"
  by (simp add: log_ok_def entries_def)

text \<open>The order of the scenario, loaded, changed and saved without a transaction.\<close>

definition sc_loaded :: Order where
  "sc_loaded = \<lparr>o_id = OrderID 1, o_customerID = CustomerID 7, o_status = ''DRAFT'', o_items = [],
     o_version = 1, o_createdAt = 1, o_updatedAt = 1, o_events = []\<rparr>"

definition sc_changed :: "string \<Rightarrow> uuid \<Rightarrow> Order" where
  "sc_changed name u = sc_loaded\<lparr>o_items := [\<lparr>item_id = u, item_productID = ''p'', item_productName = name,
     item_quantity = 1, item_unitPrice = Money 5\<rparr>]\<rparr>"

definition sc_saved_item :: "string \<Rightarrow> uuid \<Rightarrow> OrderItemModel" where
  "sc_saved_item name u = \<lparr>oim_ID = u, oim_OrderID = 1, oim_ProductID = ''p'', oim_ProductName = name,
     oim_Quantity = 1, oim_UnitPrice = 5, oim_CreatedAt = time_zero\<rparr>"

definition sc_saved :: "string \<Rightarrow> uuid \<Rightarrow> mem" where
  "sc_saved name u = sc_w1\<lparr>m_orders := [sc_row ''DRAFT'' 5 1], m_items := [sc_saved_item name u]\<rparr>"

lemma sc_load_run:
  "run_state (repo_FindByID (NewGormOrderRepository mem_platform) (OrderID 1)) sc_w1 = (Inr sc_loaded, sc_w1)"
  by (simp add: sc_eval sc_worlds sc_loaded_def)

lemma sc_save_run:
  "run_state (repo_Save (NewGormOrderRepository mem_platform) (sc_changed name u)) sc_w1
     = (Inr (IncrementVersion (sc_changed name u)), sc_saved name u)"
  by (simp add: sc_eval sc_worlds sc_loaded_def sc_changed_def sc_saved_def sc_saved_item_def)

lemma sc_stale_save_run:
  "run_state (repo_Save (NewGormOrderRepository mem_platform) (sc_changed name' u')) (sc_saved name u)
     = (Inr (IncrementVersion (sc_changed name' u')), sc_saved name' u')"
  by (simp add: sc_eval sc_worlds sc_loaded_def sc_changed_def sc_saved_def sc_saved_item_def)

lemma sc_find_run:
  "run_state (repo_FindByID (NewGormOrderRepository mem_platform) (OrderID 1)) (sc_saved name u)
     = (Inr (sc_changed name u), sc_saved name u)"
  by (simp add: sc_eval sc_worlds sc_loaded_def sc_changed_def sc_saved_def sc_saved_item_def)

section \<open>The repository\<close>

text \<open>C21: An order that was saved is found again with the same customer, status, version and items
  (as a set, each once), and without pending events; saving touches no other order.\<close>

theorem saved_order_is_found:
  assumes "gorm_platform E view" "storable o1"
    and "run_state (repo_Save (NewGormOrderRepository E) o1) w = (Inr o2, w1)"
    and "run_state (repo_FindByID (NewGormOrderRepository E) (o_id o1)) w1 = (Inr o3, w2)"
  shows "o_id o3 = o_id o1 \<and> o_customerID o3 = o_customerID o1 \<and> o_status o3 = o_status o1 \<and>
    o_version o3 = o_version o1 \<and> set (o_items o3) = set (o_items o1) \<and> distinct (o_items o3) \<and>
    o_events o3 = [] \<and> (\<forall>i. i \<noteq> o_id o1 \<longrightarrow> stored_orders (view w1) i = stored_orders (view w) i)"
  using assms by (intro gorm_platform.saved_found)

theorem saved_order_is_found_witness:
  "\<exists>o3 w2. run_state (repo_FindByID (NewGormOrderRepository mem_platform) (OrderID 1)) (sc_saved ''ink'' 9) = (Inr o3, w2) \<and>
     o_status o3 = ''DRAFT'' \<and> o_version o3 = 1 \<and> set (o_items o3) = set (o_items (sc_changed ''ink'' 9))"
  using saved_order_is_found [OF mem.gorm_platform_axioms _ sc_save_run [of "''ink''" 9],
      of "sc_changed ''ink'' 9" "sc_saved ''ink'' 9"] sc_find_run [of "''ink''" 9]
  by (simp add: storable_def sc_changed_def sc_loaded_def)

text \<open>\<^verbatim>\<open>Save\<close> writes the version the order was loaded with: only the copy in memory is
  incremented, the stored version never advances.\<close>

theorem save_keeps_stored_version:
  assumes "gorm_platform E view" "storable o1"
    and "run_state (repo_Save (NewGormOrderRepository E) o1) w = (Inr o2, w1)"
  shows "o_version o2 = o_version o1 + 1 \<and>
    map_option p_version (stored_orders (view w1) (o_id o1)) = Some (o_version o1)"
  using assms by (intro gorm_platform.saved_version)

theorem save_keeps_stored_version_witness:
  "map_option p_version (stored_orders (mem_view (sc_saved ''ink'' 9)) (OrderID 1)) = Some 1"
  using save_keeps_stored_version [OF mem.gorm_platform_axioms _ sc_save_run [of "''ink''" 9]]
  by (simp add: storable_def sc_changed_def sc_loaded_def)

text \<open>C29: So the check on the version does not detect a conflicting update: of two copies of an
  order with the version it was loaded with, saved one after the other, the second is never
  refused as a conflict (only the database can make it fail), and it replaces the first: the
  order stored is the second copy, with its items alone.\<close>

theorem lost_update:
  assumes "gorm_platform E view"
    and "run_state (repo_FindByID (NewGormOrderRepository E) i) w = (Inr o1, w0)"
    and "o_id a = i" "o_version a = o_version o1" "storable a"
    and "o_id b = i" "o_version b = o_version o1" "storable b"
    and "run_state (repo_Save (NewGormOrderRepository E) a) w0 = (Inr a', w1)"
    and "run_state (repo_Save (NewGormOrderRepository E) b) w1 = (r, w2)"
  shows "(\<exists>e. r = Inl e \<and> is_driver_error e) \<or>
    r = Inr (IncrementVersion b) \<and> stored_orders (view w2) i = Some (persist b)"
  using gorm_platform.stale_save [OF assms] .

text \<open>Both copies add an item; both saves succeed, and the order found has only the second item.\<close>

theorem lost_update_witness:
  "\<exists>x y a b w1 w2. x \<noteq> y \<and>
     run_state (repo_FindByID (NewGormOrderRepository mem_platform) (OrderID 1)) sc_w1 = (Inr sc_loaded, sc_w1) \<and>
     o_items a = o_items sc_loaded @ [x] \<and> o_items b = o_items sc_loaded @ [y] \<and>
     run_state (repo_Save (NewGormOrderRepository mem_platform) a) sc_w1 = (Inr (IncrementVersion a), w1) \<and>
     run_state (repo_Save (NewGormOrderRepository mem_platform) b) w1 = (Inr (IncrementVersion b), w2) \<and>
     map_option p_items (stored_orders (mem_view w2) (OrderID 1)) = Some {y}"
proof -
  let ?x = "\<lparr>item_id = 8, item_productID = ''p'', item_productName = ''ink'', item_quantity = 1, item_unitPrice = Money 5\<rparr>"
  let ?y = "\<lparr>item_id = 9, item_productID = ''p'', item_productName = ''pad'', item_quantity = 1, item_unitPrice = Money 5\<rparr>"
  have "stored_orders (mem_view (sc_saved ''pad'' 9)) (OrderID 1) = Some (persist (sc_changed ''pad'' 9))"
    using lost_update [OF mem.gorm_platform_axioms sc_load_run _ _ _ _ _ _ sc_save_run [of "''ink''" 8]
        sc_stale_save_run [of "''pad''" 9 "''ink''" 8]]
    by (simp add: sc_changed_def sc_loaded_def storable_def)
  then show ?thesis
    using sc_load_run sc_save_run [of "''ink''" 8] sc_stale_save_run [of "''pad''" 9 "''ink''" 8]
    by (intro exI [of _ ?x] exI [of _ ?y] exI [of _ "sc_changed ''ink'' 8"]
        exI [of _ "sc_changed ''pad'' 9"] exI conjI)
      (auto simp: sc_changed_def sc_loaded_def persist_def)
qed

section \<open>The commands\<close>

text \<open>C20: A command that fails, for whatever reason, leaves every table as it was: no order without
  its outbox entry, no entry without its order, no half-saved items.\<close>

theorem failed_command_changes_nothing:
  assumes "gorm_platform E view"
    and "run_state (CreateOrderHandler_Handle E (NewGormUnitOfWork E) c) w = (Inl e, w') \<or>
         run_state (AddItemHandler_Handle E (NewGormUnitOfWork E) a) w = (Inl e, w') \<or>
         run_state (ConfirmOrderHandler_Handle E (NewGormUnitOfWork E) f) w = (Inl e, w')"
  shows "view w' = view w"
  using assms(2) gorm_platform.create_err_view [OF assms(1)] gorm_platform.add_err_view [OF assms(1)]
    gorm_platform.confirm_err_view [OF assms(1)] by blast

text \<open>The third call of the database, which inserts the outbox entry, fails after the order and its
  items were written.\<close>

theorem failed_command_changes_nothing_witness:
  "\<exists>w'. run_state (CreateOrderHandler_Handle mem_platform sc_uow sc_create)
     (mem_empty\<lparr>m_faults := [False, False, True]\<rparr>)
       = (Inl (ErrWrap ''append outbox events: '' (ErrDriver ''connection refused'')), w') \<and>
     mem_view w' = mem_view (mem_empty\<lparr>m_faults := [False, False, True]\<rparr>)"
proof -
  have run: "run_state (CreateOrderHandler_Handle mem_platform (NewGormUnitOfWork mem_platform) sc_create)
      (mem_empty\<lparr>m_faults := [False, False, True]\<rparr>)
    = (Inl (ErrWrap ''append outbox events: '' (ErrDriver ''connection refused'')),
       mem_empty\<lparr>m_clock := 4, m_faults := []\<rparr>)"
    by (simp add: sc_eval)
  show ?thesis unfolding sc_uow_def run
    using failed_command_changes_nothing [OF mem.gorm_platform_axioms disjI1 [OF run]] by simp
qed

text \<open>C17: A successful \<^verbatim>\<open>CreateOrder\<close> adds exactly one order, under a new identifier, as an empty
  draft of the customer named, and exactly one outbox entry, which announces its creation; the
  result is the identifier's text.\<close>

theorem create_order_effect:
  assumes "gorm_platform E view"
    and "run_state (CreateOrderHandler_Handle E (NewGormUnitOfWork E) c) w = (Inr s, w')"
  shows "\<exists>oid ev. s = OrderID_String E oid \<and>
    create_effect E c oid (stored_orders (view w)) (stored_orders (view w')) ev \<and>
    announced E ev (stored_events (view w)) (stored_events (view w'))"
  using assms by (rule gorm_platform.create_effect_law)

theorem create_order_effect_witness:
  "\<exists>oid ev. ''u'' = OrderID_String mem_platform oid \<and>
    create_effect mem_platform sc_create oid Map.empty (stored_orders (mem_view sc_w1)) ev \<and>
    announced mem_platform ev Map.empty (stored_events (mem_view sc_w1))"
  using create_order_effect [OF mem.gorm_platform_axioms sc_create_run [unfolded sc_uow_def]]
  by (simp add: mem_view_empty)

text \<open>C18: A successful \<^verbatim>\<open>AddItemToOrder\<close> adds one item with the given data to the draft it names,
  changes nothing else of any order, and adds exactly one outbox entry, which announces it.\<close>

theorem add_item_effect:
  assumes "gorm_platform E view" "log_ok E (stored_orders (view w)) (stored_events (view w))"
    and "run_state (AddItemHandler_Handle E (NewGormUnitOfWork E) a) w = (Inr u, w')"
  shows "\<exists>ev. add_effect E a (stored_orders (view w)) (stored_orders (view w')) ev \<and>
    announced E ev (stored_events (view w)) (stored_events (view w'))"
  using gorm_platform.add_effect_law [OF assms(1,3,2)] .

lemma sc_log_ok1: "log_ok mem_platform (stored_orders (mem_view sc_w1)) (stored_events (mem_view sc_w1))"
  using mem.history_log [OF commands_run.create [OF commands_run.start sc_create_run [unfolded sc_uow_def]],
      of "\<lambda>w w'. False"]
  by (simp add: mem_view_empty log_ok_empty)

lemma sc_log_ok2: "log_ok mem_platform (stored_orders (mem_view sc_w2)) (stored_events (mem_view sc_w2))"
  using mem.history_log [OF commands_run.add_item [OF commands_run.start sc_add_run [unfolded sc_uow_def]],
      of "\<lambda>w w'. False"] sc_log_ok1
  by simp

theorem add_item_effect_witness:
  "\<exists>ev. add_effect mem_platform sc_add (stored_orders (mem_view sc_w1)) (stored_orders (mem_view sc_w2)) ev \<and>
    announced mem_platform ev (stored_events (mem_view sc_w1)) (stored_events (mem_view sc_w2))"
  by (rule add_item_effect [OF mem.gorm_platform_axioms sc_log_ok1 sc_add_run [unfolded sc_uow_def]])

text \<open>C19: A successful \<^verbatim>\<open>ConfirmOrder\<close> turns the draft it names, which has items, into a confirmed
  order, changes nothing else of any order, and adds exactly one outbox entry, which announces the
  total of its items.\<close>

theorem confirm_order_effect:
  assumes "gorm_platform E view" "log_ok E (stored_orders (view w)) (stored_events (view w))"
    and "run_state (ConfirmOrderHandler_Handle E (NewGormUnitOfWork E) f) w = (Inr u, w')"
  shows "\<exists>ev. confirm_effect E f (stored_orders (view w)) (stored_orders (view w')) ev \<and>
    announced E ev (stored_events (view w)) (stored_events (view w'))"
  using gorm_platform.confirm_effect_law [OF assms(1,3,2)] .

theorem confirm_order_effect_witness:
  "\<exists>ev. confirm_effect mem_platform sc_confirm (stored_orders (mem_view sc_w2)) (stored_orders (mem_view sc_w3)) ev \<and>
    announced mem_platform ev (stored_events (mem_view sc_w2)) (stored_events (mem_view sc_w3))"
  by (rule confirm_order_effect [OF mem.gorm_platform_axioms sc_log_ok2 sc_confirm_run [unfolded sc_uow_def]])

end
