(* ===== verification/System.thy ===== *)
theory System imports Relay_Scenario Write_Properties begin

text \<open>
  The running service: the three commands, the relay's batches and the requeueing of failed
  entries, in any order, each as one step.  Concurrent transactions are serialised here;
  \<open>lost_update\<close> shows what happens when they are not.
\<close>

section \<open>Steps\<close>

definition relay_step :: "'w platform \<Rightarrow> 'w \<Rightarrow> 'w \<Rightarrow> bool" where
  "relay_step E w w' \<longleftrightarrow>
     (\<exists>n c. 0 \<le> sint n \<and> run_state (relay_batch E n) w = (c, w')) \<or>
     (\<exists>r. run_state (ob_RequeueFailed (NewGormOutboxStore E)) w = (r, w'))"

abbreviation system_run :: "'w platform \<Rightarrow> 'w \<Rightarrow> 'w \<Rightarrow> bool" where
  "system_run E \<equiv> commands_run E (NewGormUnitOfWork E) (relay_step E)"

lemma updated_same_log:
  assumes "entries_updated Q g m m'" "\<And>x. log_key (g x) = log_key x"
  shows "same_log m m'"
  unfolding same_log_def
proof
  fix k
  have "case m k of None \<Rightarrow> m' k = None
      | Some x \<Rightarrow> if Q x then \<exists>y. m' k = Some y \<and> kept (g x) y else m' k = Some x"
    using assms(1) by (simp add: entries_updated_def)
  then show "map_option log_key (m' k) = map_option log_key (m k)"
    using kept_log assms(2) by (auto split: option.splits if_splits)
qed

lemma same_log_refl [simp]: "same_log m m"
  by (simp add: same_log_def)

context gorm_platform begin

lemma relay_step_log:
  assumes "relay_step E w w'"
  shows "stored_orders (view w') = stored_orders (view w) \<and> same_log (stored_events (view w)) (stored_events (view w'))"
  using assms unfolding relay_step_def
proof (elim disjE exE conjE)
  fix n c assume "0 \<le> sint n" "run_state (relay_batch E n) w = (c, w')"
  from relay_batch_effect [OF this(2,1)] show ?thesis using relays_same_log by blast
next
  fix r assume r: "run_state (ob_RequeueFailed (NewGormOutboxStore E)) w = (r, w')"
  show ?thesis
  proof (cases r)
    case (Inl e)
    note e = ob.requeue_err [OF r [unfolded Inl]]
    then have "stored_orders (view w') = stored_orders (view w)" by (intro outbox_frame_write) simp
    with e show ?thesis by simp
  next
    case (Inr n)
    from ob.requeue_ok [OF r [unfolded Inr]] obtain now where
      "outbox_frame (view w') = outbox_frame (view w)"
      "entries_updated (\<lambda>x. oe_Status x = ''failed'') (requeued_at now) (stored_events (view w)) (stored_events (view w'))"
      by blast
    moreover from this(1) have "stored_orders (view w') = stored_orders (view w)" by (rule outbox_frame_write)
    moreover have "log_key (requeued_at now x) = log_key x" for x by (simp add: requeued_at_def log_key_def)
    ultimately show ?thesis using updated_same_log [of _ "requeued_at now"] by metis
  qed
qed

lemma system_log:
  assumes "system_run E w0 w" "log_ok E (stored_orders (view w0)) (stored_events (view w0))"
  shows "log_ok E (stored_orders (view w)) (stored_events (view w)) \<and>
    (\<forall>oid p. stored_orders (view w0) oid = Some p \<longrightarrow>
       (\<exists>p'. stored_orders (view w) oid = Some p' \<and> evolves p p'))"
  using history_log [OF assms(1) relay_step_log assms(2)] .

end

section \<open>Histories\<close>

lemma sc_system_run: "system_run mem_platform mem_empty sc_r_done"
proof -
  let ?U = "NewGormUnitOfWork mem_platform"
  have "system_run mem_platform mem_empty sc_w3"
    using commands_run.confirm_order [OF commands_run.add_item [OF commands_run.create [OF commands_run.start
      sc_create_run [unfolded sc_uow_def]] sc_add_run [unfolded sc_uow_def]] sc_confirm_run [unfolded sc_uow_def]] .
  moreover have "relay_step mem_platform sc_w3 sc_r_done"
    using sc_batch by (auto simp: relay_step_def intro!: exI [of _ "100 :: go_int"])
  ultimately show ?thesis by (rule commands_run.other)
qed

text \<open>C1: After any sequence of commands and relay steps, successful or failed, the outbox agrees with
  the orders: one OrderCreated per order, one OrderItemAdded per item, one OrderConfirmed exactly
  for the confirmed orders with the total of their items, nothing for anything else; and every
  stored order satisfies the aggregate's invariant.\<close>

theorem outbox_agrees_with_orders:
  assumes "gorm_platform E view" "system_run E w0 w"
    and "log_ok E (stored_orders (view w0)) (stored_events (view w0))"
  shows "log_ok E (stored_orders (view w)) (stored_events (view w))"
  using gorm_platform.system_log [OF assms] by blast

theorem outbox_agrees_with_orders_witness:
  "log_ok mem_platform (stored_orders (mem_view sc_r_done)) (stored_events (mem_view sc_r_done))"
  using outbox_agrees_with_orders [OF mem.gorm_platform_axioms sc_system_run]
  by (simp add: mem_view_empty log_ok_empty)

text \<open>C4: Over any such history an order is never deleted, keeps its customer, never loses an item,
  and does not change at all once it is confirmed.\<close>

theorem confirmed_orders_are_final:
  assumes "gorm_platform E view" "system_run E w0 w"
    and "log_ok E (stored_orders (view w0)) (stored_events (view w0))"
    and "stored_orders (view w0) oid = Some p"
  shows "\<exists>p'. stored_orders (view w) oid = Some p' \<and> p_customer p' = p_customer p \<and>
    p_items p \<subseteq> p_items p' \<and> (p_status p = StatusConfirmed \<longrightarrow> p' = p)"
  using gorm_platform.system_log [OF assms(1-3)] assms(4) by (auto simp: evolves_def)

lemma sc_stored1: "stored_orders (mem_view sc_w1) (OrderID 1) =
    Some \<lparr>p_customer = CustomerID 7, p_status = ''DRAFT'', p_version = 1, p_items = {}\<rparr>"
  by (simp add: stored_orders_def mem_view_def mem_map_def mem_rows_def sc_w1_def sc_row_def
      mem_empty_def items_of_def rows_of_def)

theorem confirmed_orders_are_final_witness:
  "\<exists>p'. stored_orders (mem_view sc_w3) (OrderID 1) = Some p' \<and> p_customer p' = CustomerID 7"
  using confirmed_orders_are_final [OF mem.gorm_platform_axioms
      commands_run.confirm_order [OF commands_run.add_item [OF commands_run.start
        sc_add_run [unfolded sc_uow_def]] sc_confirm_run [unfolded sc_uow_def]] sc_log_ok1 sc_stored1]
  by auto

end
