(* ===== verification/Read_Properties.thy ===== *)
theory Read_Properties imports System begin

text \<open>
  The properties of the read side and the relay on any database that obeys the laws of
  \<open>gorm_platform\<close>: the projection handles each event once and as specified, a confirmed or
  draft order is shown as it is once its events were handled in order, and what the relay's
  batches and marks do to the outbox.
\<close>

section \<open>Library\<close>

context gorm_platform begin

lemma handler_skips:
  assumes "run_state (projection_handler E x) w = (r, w')"
    and "(oe_ID x, HandlerName) \<in> stored_processed_events (view w)"
  shows "(r = Inr () \<or> (\<exists>e. r = Inl (ErrWrap ''check processed event: '' e) \<and> is_driver_error e)) \<and>
    stored_views (view w') = stored_views (view w) \<and> stored_lines (view w') = stored_lines (view w)"
  using proj.Handle_skips assms unfolding projection_handler_def by blast

lemma handler_projects:
  assumes "run_state (projection_handler E x) w = (Inr u, w')"
    and "(oe_ID x, HandlerName) \<notin> stored_processed_events (view w)" "carries E x ev" "event_status_ok ev"
    and "statuses_ok (stored_views (view w))"
  shows "projected E ev (stored_views (view w)) (stored_lines (view w)) (stored_views (view w')) (stored_lines (view w')) \<and>
    stored_processed_events (view w') = insert (oe_ID x, HandlerName) (stored_processed_events (view w))"
  using proj.Handle_projects [OF assms [unfolded projection_handler_def]] .

lemma handled_shows:
  assumes "lifecycle E d o1" "list_all2 (carries E) xs (d @ o_events o1)" "exact_order o1"
    and "handled_all E (NewGormReadModelStore E) (NewGormProcessedEventStore E) xs w w'" "distinct (map oe_ID xs)"
    and "unseen_order o1 (stored_views (view w)) (stored_lines (view w))" "statuses_ok (stored_views (view w))"
    and "\<forall>x \<in> set xs. (oe_ID x, HandlerName) \<notin> stored_processed_events (view w)"
  shows "shows_order o1 (stored_lines (view w)) (stored_views (view w')) (stored_lines (view w'))"
  using assms by (rule proj.read_model_follows)

lemma handler_leaves_write_side:
  assumes "run_state (projection_handler E x) w = (r, w')"
  shows "stored_orders (view w') = stored_orders (view w) \<and> stored_events (view w') = stored_events (view w)"
  using write_part_events [OF handler_write [OF assms]] by simp

end

section \<open>The projection\<close>

text \<open>An event that the projection has already handled is not applied again: the call returns nil
  (or reports that the check failed), and views and lines are as before.\<close>

theorem processed_event_is_skipped:
  assumes "gorm_platform E view" "run_state (projection_handler E x) w = (r, w')"
    and "(oe_ID x, HandlerName) \<in> stored_processed_events (view w)"
  shows "(r = Inr () \<or> (\<exists>e. r = Inl (ErrWrap ''check processed event: '' e) \<and> is_driver_error e)) \<and>
    stored_views (view w') = stored_views (view w) \<and> stored_lines (view w') = stored_lines (view w)"
  using gorm_platform.handler_skips [OF assms] .

lemma map_option_rows: "map_option f (map_of (map (\<lambda>r. (key r, r)) xs) k) = map_of (map (\<lambda>r. (key r, f r)) xs) k"
  by (induction xs) simp_all

lemma sc_stored_read [simp]:
  "stored_processed_events (mem_view (sc_r c fs obx pr ov iv)) = pe_key ` set (mem_rows pe_key pr)"
  "stored_views (mem_view (sc_r c fs obx pr ov iv)) =
     map_of (map (\<lambda>r. (ovm_ID r, view_of_model r)) (mem_rows ovm_ID ov))"
  "stored_lines (mem_view (sc_r c fs obx pr ov iv)) =
     map_of (map (\<lambda>r. (ivm_ID r, line_of_model r)) (mem_rows ivm_ID iv))"
  using dom_mem_map [of pe_key pr]
  by (simp_all add: stored_processed_events_def stored_views_def stored_lines_def mem_view_def sc_r_def
      map_option_rows fun_eq_iff) (simp_all add: mem_map_def map_option_rows)

lemma sc_handle_again:
  "run_state (projection_handler mem_platform (to_port_event (sc_new sc_e1))) (sc_r c [] obx [sc_processed 2 t] ov iv)
     = (Inr (), sc_r c [] obx [sc_processed 2 t] ov iv)"
  by (simp add: sc_handle)

theorem processed_event_is_skipped_witness:
  "\<exists>w'. run_state (projection_handler mem_platform (to_port_event sc_e1))
        (sc_r 12 [] [] [sc_processed 2 10] [sc_view ''CONFIRMED'' 1500 1 11] []) = (Inr (), w') \<and>
     stored_views (mem_view w') 1 = Some \<lparr>vr_customer = 7, vr_status = ''CONFIRMED'', vr_total = 1500, vr_count = 1\<rparr>"
proof -
  have "(2, HandlerName) \<in> stored_processed_events
      (mem_view (sc_r 12 [] [] [sc_processed 2 10] [sc_view ''CONFIRMED'' 1500 1 11] []))"
    by (simp add: sc_processed_def mem_rows_def pe_key_def HandlerName_def)
  from processed_event_is_skipped [OF mem.gorm_platform_axioms sc_handle_again] this
  show ?thesis using sc_handle_again [of 12 "[]" 10 "[sc_view ''CONFIRMED'' 1500 1 11]" "[]"]
    by (simp add: sc_view_def mem_rows_def view_of_model_def to_order_view_def view_row_of_def)
qed

text \<open>C12: An event handled with success for the first time has the effect the specification
  gives its kind (an \<^verbatim>\<open>OrderCreated\<close> upserts the view, an \<^verbatim>\<open>OrderItemAdded\<close> upserts the line and
  recomputes total and count from the lines, an \<^verbatim>\<open>OrderConfirmed\<close> sets status and total), and
  exactly that event is recorded as processed.\<close>

theorem projection_refines_spec:
  assumes "gorm_platform E view" "run_state (projection_handler E x) w = (Inr u, w')"
    and "(oe_ID x, HandlerName) \<notin> stored_processed_events (view w)" "carries E x ev" "event_status_ok ev"
    and "statuses_ok (stored_views (view w))"
  shows "projected E ev (stored_views (view w)) (stored_lines (view w)) (stored_views (view w')) (stored_lines (view w')) \<and>
    stored_processed_events (view w') = insert (oe_ID x, HandlerName) (stored_processed_events (view w))"
  using gorm_platform.handler_projects [OF assms] .

definition sc_events :: "DomainEvent list" where
  "sc_events =
     [EvOrderCreated \<lparr>oc_ID = ''u'', oc_CustomerID = unary CHR ''u'' 7, oc_Status = ''DRAFT'', oc_OccurredAt = 2\<rparr>,
      EvOrderItemAdded \<lparr>oia_OrderID = ''u'', oia_ItemID = unary CHR ''u'' 3, oia_ProductID = ''p'',
        oia_ProductName = ''pen'', oia_Quantity = 3, oia_UnitPrice = 500, oia_OccurredAt = 5\<rparr>,
      EvOrderConfirmed \<lparr>ocf_OrderID = ''u'', ocf_TotalAmount = 1500, ocf_OccurredAt = 8\<rparr>]"

lemma sc_carries: "list_all2 (carries mem_platform) (map to_port_event [sc_e1, sc_e2, sc_e3]) sc_events"
  by (simp add: carries_def json_eval sc_events_def to_port_event_def sc_e1_def sc_e2_def sc_e3_def sc_entry_def mem_eval)

lemma sc_unseen [simp]: "mem_rows key [] = []"
  by (simp add: mem_rows_def)

theorem projection_refines_spec_witness:
  "projected mem_platform (sc_events ! 1) (stored_views (mem_view (sc_r 11 [] [] [sc_processed 2 10] [sc_view ''DRAFT'' 0 0 2] [])))
     Map.empty
     (stored_views (mem_view (sc_r 13 [] [] [sc_processed 4 12, sc_processed 2 10] [sc_view ''DRAFT'' 1500 1 12] [sc_item_view 11])))
     (stored_lines (mem_view (sc_r 13 [] [] [sc_processed 4 12, sc_processed 2 10] [sc_view ''DRAFT'' 1500 1 12] [sc_item_view 11])))"
  using projection_refines_spec [OF mem.gorm_platform_axioms
      sc_handle_added [of "[sc_processed 2 10]" 10 0 "[]" 0 11 "''pending''" 0 None "oem_AvailableAt sc_e2" None],
      of "[]" "sc_events ! 1"] sc_carries
  by (simp add: sc_events_def statuses_ok_def sc_view_def sc_processed_def mem_rows_def pe_key_def view_of_model_def
      to_order_view_def view_row_of_def)

text \<open>C11: The read model follows the aggregate: when the events of an order whose exact total is below
  \<open>2 ^ 63\<close> have been handled with success in the order in which they were raised, by a projection that
  had not seen them, its view holds exactly its customer, status and total, and the number of its items or 0 (the
  error of the query that counts them is ignored), its items are its lines, and all other lines are as before.\<close>

theorem read_model_shows_order:
  assumes "gorm_platform E view" "lifecycle E d o1" "list_all2 (carries E) xs (d @ o_events o1)" "exact_order o1"
    and "handled_all E (NewGormReadModelStore E) (NewGormProcessedEventStore E) xs w w'" "distinct (map oe_ID xs)"
    and "unseen_order o1 (stored_views (view w)) (stored_lines (view w))" "statuses_ok (stored_views (view w))"
    and "\<forall>x \<in> set xs. (oe_ID x, HandlerName) \<notin> stored_processed_events (view w)"
  shows "shows_order o1 (stored_lines (view w)) (stored_views (view w')) (stored_lines (view w'))"
  using gorm_platform.handled_shows [OF assms] .

definition sc_o :: "string \<Rightarrow> OrderItem list \<Rightarrow> time \<Rightarrow> nat \<Rightarrow> Order" where
  "sc_o status items at n = \<lparr>o_id = OrderID 1, o_customerID = CustomerID 7, o_status = status, o_items = items,
     o_version = 1, o_createdAt = 1, o_updatedAt = at, o_events = take n sc_events\<rparr>"

definition sc_pen :: OrderItem where
  "sc_pen = \<lparr>item_id = 3, item_productID = ''p'', item_productName = ''pen'', item_quantity = 3,
     item_unitPrice = Money 500\<rparr>"

lemma sc_order_lifecycle: "lifecycle mem_platform [] (sc_o ''CONFIRMED'' [sc_pen] 7 3)"
proof -
  have "\<exists>w. run_state (NewOrder mem_platform (CustomerID 7)) mem_empty = (Inr (sc_o ''DRAFT'' [] 1 1), w)"
    by (simp add: sc_o_def sc_events_def mem_eval go_defs)
  then have 1: "lifecycle mem_platform [] (sc_o ''DRAFT'' [] 1 1)" by (blast intro: lifecycle.new)
  have "\<exists>w. run_state (AddItem mem_platform (sc_o ''DRAFT'' [] 1 1) ''p'' ''pen'' 3 (Money 500)) sc_w1
      = (Inr (sc_o ''DRAFT'' [sc_pen] 4 2), w)"
    by (simp add: sc_o_def sc_events_def sc_pen_def sc_worlds added_def mem_eval go_defs)
  with 1 have 2: "lifecycle mem_platform [] (sc_o ''DRAFT'' [sc_pen] 4 2)" by (blast intro: lifecycle.add)
  have "\<exists>w. run_state (Confirm mem_platform (sc_o ''DRAFT'' [sc_pen] 4 2)) sc_w2
      = (Inr (sc_o ''CONFIRMED'' [sc_pen] 7 3), w)"
    by (simp add: sc_o_def sc_events_def sc_pen_def sc_worlds confirmed_def mem_eval go_defs Let_def)
  with 2 show ?thesis by (blast intro: lifecycle.confirm)
qed

theorem read_model_shows_order_witness:
  "shows_order (sc_o ''CONFIRMED'' [sc_pen] 7 3) Map.empty (stored_views (mem_view sc_r3)) (stored_lines (mem_view sc_r3))"
proof -
  let ?o = "sc_o ''CONFIRMED'' [sc_pen] 7 3"
  have o: "[] @ o_events ?o = sc_events" "exact_order ?o"
    by (simp_all add: sc_o_def sc_events_def exact_order_def exact_total_def exact_price_def sc_pen_def)
  have v: "stored_views (mem_view sc_w3) = Map.empty" "stored_lines (mem_view sc_w3) = Map.empty"
    "stored_processed_events (mem_view sc_w3) = {}"
    by (simp_all add: sc_w3_r)
  show ?thesis
    using read_model_shows_order [OF mem.gorm_platform_axioms sc_order_lifecycle _ o(2) sc_handled_in_order]
      sc_carries o(1)
    by (simp add: v unseen_order_def statuses_ok_def lines_of_def)
qed

end
