(* ===== verification/Relay_Properties.thy ===== *)
theory Relay_Properties imports Read_Properties begin

text \<open>
  The properties of the outbox and of the relay: what is fetched, what a failed attempt does,
  when an entry is given up, and what a batch may change.
\<close>

section \<open>Library\<close>

lemma retry_delay_bounds: "1 \<le> n \<Longrightarrow> 4 \<le> retry_delay n \<and> retry_delay n \<le> 300"
  using power_increasing [of 1 n "2 :: int"] by (simp add: retry_delay_def)

lemma failed_once_sel:
  "oe_RetryCount (failed_once msg now x) = oe_RetryCount x + 1" "oe_LastError (failed_once msg now x) = Some msg"
  "oe_ID (failed_once msg now x) = oe_ID x" "oe_Payload (failed_once msg now x) = oe_Payload x"
  "oe_EventType (failed_once msg now x) = oe_EventType x" "oe_AggregateID (failed_once msg now x) = oe_AggregateID x"
  by (simp_all add: failed_once_def Let_def)

lemma kept_sel:
  assumes "kept x y"
  shows "oe_RetryCount y = oe_RetryCount x" "oe_LastError y = oe_LastError x" "oe_ID y = oe_ID x"
    "oe_Payload y = oe_Payload x" "oe_EventType y = oe_EventType x" "oe_AggregateID y = oe_AggregateID x"
    "oe_Status y = oe_Status x" "oe_PublishedAt y = oe_PublishedAt x"
  using assms by (cases x; cases y; simp add: kept_def)+

lemma sint_succ:
  assumes "sint (c :: int64) < max_int64" "0 \<le> sint c"
  shows "sint (c + 1) = sint c + 1"
  using assms by (subst sint_add_exact) simp_all

text \<open>Some failed attempts in a row, with the errors they report.\<close>

fun attempts_failed :: "'w OutboxStore \<Rightarrow> uuid \<Rightarrow> string list \<Rightarrow> 'w \<Rightarrow> 'w \<Rightarrow> bool" where
  "attempts_failed ob i [] w w' \<longleftrightarrow> w' = w"
| "attempts_failed ob i (msg # msgs) w w' \<longleftrightarrow>
     (\<exists>w1. run_state (ob_MarkFailed ob i msg) w = (Inr (), w1) \<and> attempts_failed ob i msgs w1 w')"

context outbox_store begin

lemma failed_countable:
  assumes "run_state (ob_MarkFailed ob i msg) w = (Inr u, w')" "outbox w i = Some x" "countable_entry x"
  shows "\<exists>now y. outbox w' = (outbox w)(i \<mapsto> y) \<and> kept (failed_once msg now x) y \<and>
    frame w' = frame w \<and> oe_RetryCount y = oe_RetryCount x + 1 \<and>
    oe_Status y = (if sint (oe_RetryCount x) + 1 \<ge> max_retries then ''failed'' else oe_Status x)"
proof -
  from failed_ok [OF assms(1)] assms(2,3) obtain now y where
    y: "outbox w' = (outbox w)(i \<mapsto> y)" "kept (failed_once msg now x) y" "frame w' = frame w" by auto
  have "sint (oe_RetryCount x + 1) = sint (oe_RetryCount x) + 1"
    using assms(3) sint_succ by (simp add: countable_entry_def)
  with y show ?thesis using kept_sel [OF y(2)]
    by (intro exI [of _ now] exI [of _ y]) (auto simp: failed_once_def Let_def)
qed

lemma attempts_failed_count:
  assumes "attempts_failed ob i msgs w w'" "outbox w i = Some x"
    and "oe_Status x = (if sint (oe_RetryCount x) \<ge> max_retries then ''failed'' else ''pending'')"
    and "0 \<le> sint (oe_RetryCount x)" "sint (oe_RetryCount x) + int (length msgs) < max_int64"
  shows "\<exists>y. outbox w' i = Some y \<and> sint (oe_RetryCount y) = sint (oe_RetryCount x) + int (length msgs) \<and>
    oe_Status y = (if sint (oe_RetryCount y) \<ge> max_retries then ''failed'' else ''pending'') \<and>
    (msgs \<noteq> [] \<longrightarrow> oe_LastError y = Some (last msgs)) \<and> log_key y = log_key x \<and>
    (\<forall>k. k \<noteq> i \<longrightarrow> outbox w' k = outbox w k)"
  using assms
proof (induction msgs arbitrary: w x)
  case (Cons msg msgs)
  from Cons.prems(1) obtain w1 where M: "run_state (ob_MarkFailed ob i msg) w = (Inr (), w1)" and
    rest: "attempts_failed ob i msgs w1 w'" by auto
  have c: "countable_entry x" using Cons.prems(3,4,5) by (auto simp: countable_entry_def)
  from failed_countable [OF M Cons.prems(2) c] obtain now y where
    y: "outbox w1 = (outbox w)(i \<mapsto> y)" "kept (failed_once msg now x) y" "oe_RetryCount y = oe_RetryCount x + 1"
      "oe_Status y = (if sint (oe_RetryCount x) + 1 \<ge> max_retries then ''failed'' else oe_Status x)" by blast
  have n: "sint (oe_RetryCount y) = sint (oe_RetryCount x) + 1"
    using Cons.prems(4,5) sint_succ [of "oe_RetryCount x"] by (simp add: y(3))
  have "log_key y = log_key x" using kept_sel [OF y(2)] by (simp add: log_key_def failed_once_sel)
  moreover have "oe_LastError y = Some msg" using kept_sel [OF y(2)] by (simp add: failed_once_sel)
  moreover have "\<exists>z. outbox w' i = Some z \<and> sint (oe_RetryCount z) = sint (oe_RetryCount y) + int (length msgs) \<and>
      oe_Status z = (if sint (oe_RetryCount z) \<ge> max_retries then ''failed'' else ''pending'') \<and>
      (msgs \<noteq> [] \<longrightarrow> oe_LastError z = Some (last msgs)) \<and> log_key z = log_key y \<and>
      (\<forall>k. k \<noteq> i \<longrightarrow> outbox w' k = outbox w1 k)"
    using n y(1,4) Cons.prems(3-5) by (intro Cons.IH [OF rest]) auto
  then obtain z where "outbox w' i = Some z" "sint (oe_RetryCount z) = sint (oe_RetryCount y) + int (length msgs)"
      "oe_Status z = (if sint (oe_RetryCount z) \<ge> max_retries then ''failed'' else ''pending'')"
      "msgs \<noteq> [] \<longrightarrow> oe_LastError z = Some (last msgs)" "log_key z = log_key y"
      "\<forall>k. k \<noteq> i \<longrightarrow> outbox w' k = outbox w1 k" by blast
  moreover from this(1) rest y(1) have "msgs = [] \<Longrightarrow> z = y" by simp
  ultimately show ?case using n y(1) by (intro exI [of _ z]) auto
qed simp

end

context gorm_platform begin

lemma fetch_law:
  assumes "run_state (ob_FetchPending (NewGormOutboxStore E) n) w = (Inr xs, w')" "0 \<le> sint n"
  shows "view w' = view w \<and> distinct (map oe_ID xs) \<and> sorted (map oe_OccurredAt xs) \<and> length xs \<le> nat (sint n) \<and>
    (\<forall>x \<in> set xs. stored_events (view w) (oe_ID x) = Some x \<and> oe_Status x = ''pending'')"
  using ob.fetch_ok [OF assms] FetchPending_ok [of n w xs w'] assms by (simp add: NewGormOutboxStore_def)

lemma failed_clock:
  assumes "run_state (ob_MarkFailed (NewGormOutboxStore E) i msg) w = (Inr u, w')"
    and "stored_events (view w) i = Some x" "countable_entry x"
  shows "\<exists>now y. stored_events (view w') = (stored_events (view w))(i \<mapsto> y) \<and> kept (failed_once msg now x) y \<and>
    oe_RetryCount y = oe_RetryCount x + 1 \<and> oe_LastError y = Some msg \<and> log_key y = log_key x \<and>
    oe_Status y = (if sint (oe_RetryCount x) + 1 \<ge> max_retries then ''failed'' else oe_Status x) \<and>
    (sint (oe_RetryCount x) + 1 < max_retries \<longrightarrow>
       (\<exists>m wa wb. run_state (g_First (pf_outbox E) (\<lambda>m. oem_ID m = i)) w = (Inr m, wa) \<and>
          run_state (time_Now E) wa = (now, wb)) \<and>
       (let d = min (2 ^ nat (sint (oe_RetryCount x) + 1) * 2) 300 in 4 \<le> d \<and> d \<le> 300 \<and>
          (now + d * 1000000 \<noteq> time_zero \<longrightarrow> oe_AvailableAt y = now + d * 1000000)))"
proof -
  have n: "sint (oe_RetryCount x + 1) = sint (oe_RetryCount x) + 1" "0 \<le> sint (oe_RetryCount x)"
    using assms(3) sint_succ by (simp_all add: countable_entry_def)
  have M: "run_state (GormOutboxStore_MarkFailed E i msg) w = (Inr u, w')"
    using assms(1) by (simp add: NewGormOutboxStore_def)
  from MarkFailed_ok [OF M] obtain x' now y where x': "stored_events (view w) i = Some x'" and
    y: "stored_events (view w') = (stored_events (view w))(i \<mapsto> y)" and
    k': "countable_entry x' \<longrightarrow> kept (failed_once msg now x') y" and
    clock': "sint (oe_RetryCount x' + 1) < maxRetries \<longrightarrow> (\<exists>m wa wb.
        run_state (g_First (pf_outbox E) (\<lambda>m. oem_ID m = i)) w = (Inr m, wa) \<and> run_state (time_Now E) wa = (now, wb))"
    by blast
  from x' assms(2) have "x' = x" by simp
  with k' clock' assms(3) have k: "kept (failed_once msg now x) y" and
    clock: "sint (oe_RetryCount x + 1) < maxRetries \<longrightarrow> (\<exists>m wa wb.
        run_state (g_First (pf_outbox E) (\<lambda>m. oem_ID m = i)) w = (Inr m, wa) \<and> run_state (time_Now E) wa = (now, wb))"
    by simp_all
  let ?d = "retry_delay (nat (sint (oe_RetryCount x) + 1))"
  have at: "oe_AvailableAt y = now + ?d * 1000000"
    if "sint (oe_RetryCount x) + 1 < max_retries" "now + ?d * 1000000 \<noteq> time_zero"
    using k that by (simp add: kept_def failed_once_def n(1) Let_def)
  have "4 \<le> ?d \<and> ?d \<le> 300" using n(2) by (intro retry_delay_bounds) simp
  then show ?thesis using y k kept_sel [OF k] clock at unfolding retry_delay_def
    by (intro exI [of _ now] exI [of _ y])
      (auto simp: n log_key_def failed_once_sel failed_once_def Let_def maxRetries_def max_retries_def)
qed

lemmas attempts_law = ob.attempts_failed_count

lemma requeue_law:
  assumes "run_state (ob_RequeueFailed (NewGormOutboxStore E)) w = (Inr n, w')"
  shows "n = of_nat (card {k. \<exists>x. stored_events (view w) k = Some x \<and> oe_Status x = ''failed''}) \<and>
    (\<exists>now. \<forall>k. case stored_events (view w) k of
        None \<Rightarrow> stored_events (view w') k = None
      | Some x \<Rightarrow> (if oe_Status x = ''failed''
          then \<exists>y. stored_events (view w') k = Some y \<and> kept (requeued_at now x) y
          else stored_events (view w') k = Some x))"
  using ob.requeue_ok [OF assms] by (simp add: entries_updated_def)

end

section \<open>The outbox\<close>

text \<open>C28: A batch to relay holds only pending entries as they are stored, each once, at most as many as
  asked for, ordered by when their events occurred; fetching changes nothing.\<close>

theorem fetch_pending_sound:
  assumes "gorm_platform E view" "0 \<le> sint n"
    and "run_state (ob_FetchPending (NewGormOutboxStore E) n) w = (Inr xs, w')"
  shows "view w' = view w \<and> distinct (map oe_ID xs) \<and> sorted (map oe_OccurredAt xs) \<and> length xs \<le> nat (sint n) \<and>
    (\<forall>x \<in> set xs. stored_events (view w) (oe_ID x) = Some x \<and> oe_Status x = ''pending'')"
  using gorm_platform.fetch_law [OF assms(1,3,2)] .

theorem fetch_pending_sound_witness:
  "sorted (map oe_OccurredAt (map to_port_event [sc_e1, sc_e2, sc_e3])) \<and>
   stored_events (mem_view (sc_r 10 [] [sc_e3, sc_e2, sc_e1] [] [] [])) 2 = Some (to_port_event sc_e1)"
  using fetch_pending_sound [OF mem.gorm_platform_axioms, of 100, unfolded ob_sel, OF _ sc_fetch] by simp

text \<open>C23: A failed attempt on an entry counts once, keeps its identity and its event and stores the
  error.  From the tenth failure on it gives the entry up; before that the entry becomes available
  again after a delay of \<open>2 ^ n * 2\<close> seconds for the \<open>n\<close>-th failure, between 4 and 300 seconds,
  counted from the instant the clock showed when the entry had been read.  No other entry changes.\<close>

theorem mark_failed_effect:
  assumes "gorm_platform E view" "run_state (ob_MarkFailed (NewGormOutboxStore E) i msg) w = (Inr u, w')"
    and "stored_events (view w) i = Some x" "countable_entry x"
  shows "\<exists>now y. stored_events (view w') = (stored_events (view w))(i \<mapsto> y) \<and> kept (failed_once msg now x) y \<and>
    oe_RetryCount y = oe_RetryCount x + 1 \<and> oe_LastError y = Some msg \<and> log_key y = log_key x \<and>
    oe_Status y = (if sint (oe_RetryCount x) + 1 \<ge> 10 then ''failed'' else oe_Status x) \<and>
    (sint (oe_RetryCount x) + 1 < 10 \<longrightarrow>
       (\<exists>m wa wb. run_state (g_First (pf_outbox E) (\<lambda>m. oem_ID m = i)) w = (Inr m, wa) \<and>
          run_state (time_Now E) wa = (now, wb)) \<and>
       (let d = min (2 ^ nat (sint (oe_RetryCount x) + 1) * 2) 300 in 4 \<le> d \<and> d \<le> 300 \<and>
          (now + d * 1000000 \<noteq> time_zero \<longrightarrow> oe_AvailableAt y = now + d * 1000000)))"
  using gorm_platform.failed_clock [OF assms] by (simp add: max_retries_def)

lemma sc_countable: "countable_entry (to_port_event sc_e1)"
  by (simp add: countable_entry_def to_port_event_def sc_e1_def sc_entry_def)

lemma sc_stored_e1: "stored_events (mem_view (sc_r c fs [sc_e3, sc_e2, sc_e1] pr ov iv)) 2 = Some (to_port_event sc_e1)"
  by (simp add: stored_events_def mem_view_def mem_map_def mem_rows_def sc_r_def)

theorem mark_failed_effect_witness:
  "\<exists>y. stored_events (mem_view (sc_r 11 [] [sc_f1, sc_e3, sc_e2] [] [] [])) 2 = Some y \<and>
     oe_RetryCount y = 1 \<and> oe_Status y = ''pending'' \<and> oe_AvailableAt y = 10 + 4 * 1000000"
proof -
  let ?w = "sc_r 10 [] [sc_e3, sc_e2, sc_e1] [] [] []"
  have now: "t = 10" if
    "run_state (g_First (pf_outbox mem_platform) (\<lambda>m. oem_ID m = 2)) ?w = (Inr m, wa)"
    "run_state (time_Now mem_platform) wa = (t, wb)" for m wa t wb
    using that by (auto simp: mem_eval sc_r_def split: list.splits)
  from mark_failed_effect [OF mem.gorm_platform_axioms, unfolded ob_sel, OF sc_first_failed sc_stored_e1 sc_countable]
  obtain t y m wa wb where
    "stored_events (mem_view (sc_r 11 [] [sc_f1, sc_e3, sc_e2] [] [] [])) 2 = Some y"
    "oe_RetryCount y = 1" "oe_Status y = ''pending''" "oe_AvailableAt y = t + 4 * 1000000 \<or> t < 0"
    "run_state (g_First (pf_outbox mem_platform) (\<lambda>m. oem_ID m = 2)) ?w = (Inr m, wa)"
    "run_state (time_Now mem_platform) wa = (t, wb)"
    by (fastforce simp: to_port_event_def sc_e1_def sc_entry_def Let_def)
  with now [OF this(5,6)] show ?thesis by auto
qed

text \<open>An entry is given up exactly with its tenth failed attempt: after any number of them in a row
  its count is that number, it is failed from ten on and pending before, and it carries the last error.\<close>

theorem given_up_after_ten:
  assumes "gorm_platform E view" "attempts_failed (NewGormOutboxStore E) i msgs w w'"
    and "stored_events (view w) i = Some x" "oe_Status x = ''pending''" "oe_RetryCount x = 0"
    and "msgs \<noteq> []" "length msgs < 1000000"
  shows "\<exists>y. stored_events (view w') i = Some y \<and> sint (oe_RetryCount y) = int (length msgs) \<and>
    oe_Status y = (if length msgs \<ge> 10 then ''failed'' else ''pending'') \<and>
    oe_LastError y = Some (last msgs) \<and> log_key y = log_key x \<and>
    (\<forall>k. k \<noteq> i \<longrightarrow> stored_events (view w') k = stored_events (view w) k)"
  using gorm_platform.attempts_law [OF assms(1-3)] assms(4-) by (auto simp: max_retries_def)

lemma sc_two_failures:
  "attempts_failed (NewGormOutboxStore mem_platform) 2 [''one'', ''two''] (sc_r 10 [] [sc_e3, sc_e2, sc_e1] [] [] [])
     (sc_r 12 [] [sc_sent sc_e1 ''pending'' 2 (Some ''two'') 8000011 None, sc_e3, sc_e2] [] [] [])"
proof -
  have 1: "run_state (GormOutboxStore_MarkFailed mem_platform 2 ''one'') (sc_r 10 [] [sc_e3, sc_e2, sc_e1] [] [] [])
      = (Inr (), sc_r 11 [] [sc_sent sc_e1 ''pending'' 1 (Some ''one'') 4000010 None, sc_e3, sc_e2] [] [] [])"
    by (subst mem_mark_failed [where m = sc_e1])
      (simp_all add: sc_sent_def backoff_secs_def baseBackoffSecs_def maxBackoffSecs_def sc_e1_def sc_entry_def)
  have "run_state (GormOutboxStore_MarkFailed mem_platform 2 ''two'')
      (sc_r 11 [] [sc_sent sc_e1 ''pending'' 1 (Some ''one'') 4000010 None, sc_e3, sc_e2] [] [] [])
      = (Inr (), sc_r 12 [] [sc_sent sc_e1 ''pending'' 2 (Some ''two'') 8000011 None, sc_e3, sc_e2] [] [] [])"
    by (subst mem_mark_failed [where m = "sc_sent sc_e1 ''pending'' 1 (Some ''one'') 4000010 None"])
      (simp_all add: sc_sent_def backoff_secs_def baseBackoffSecs_def maxBackoffSecs_def sc_e1_def sc_entry_def)
  with 1 show ?thesis by simp
qed

theorem given_up_after_ten_witness:
  "\<exists>y. stored_events (mem_view (sc_r 12 [] [sc_sent sc_e1 ''pending'' 2 (Some ''two'') 8000011 None, sc_e3, sc_e2] [] [] [])) 2
     = Some y \<and> sint (oe_RetryCount y) = 2 \<and> oe_LastError y = Some ''two''"
  using given_up_after_ten [OF mem.gorm_platform_axioms sc_two_failures sc_stored_e1]
  by (auto simp: to_port_event_def sc_e1_def sc_entry_def)

text \<open>Requeueing makes every failed entry pending again, with a fresh count and without an error,
  reports how many there were, and changes no other entry.\<close>

theorem requeue_failed_effect:
  assumes "gorm_platform E view" "run_state (ob_RequeueFailed (NewGormOutboxStore E)) w = (Inr n, w')"
  shows "n = of_nat (card {k. \<exists>x. stored_events (view w) k = Some x \<and> oe_Status x = ''failed''}) \<and>
    (\<exists>now. \<forall>k. case stored_events (view w) k of
        None \<Rightarrow> stored_events (view w') k = None
      | Some x \<Rightarrow> (if oe_Status x = ''failed''
          then \<exists>y. stored_events (view w') k = Some y \<and> kept (requeued_at now x) y
          else stored_events (view w') k = Some x))"
  using gorm_platform.requeue_law [OF assms] .

lemma sc_requeue:
  "run_state (ob_RequeueFailed (NewGormOutboxStore mem_platform))
     (sc_r 20 [] [sc_sent sc_e1 ''failed'' 10 (Some ''x'') 9 None] [] [] [])
   = (Inr 1, sc_r 21 [] [sc_sent sc_e1 ''pending'' 0 None 20 None] [] [] [])"
  by (simp add: NewGormOutboxStore_def GormOutboxStore_RequeueFailed_def mem_eval sc_relay sc_sent_def)

theorem requeue_failed_effect_witness:
  "(1 :: int64) = of_nat (card {k. \<exists>x. stored_events
     (mem_view (sc_r 20 [] [sc_sent sc_e1 ''failed'' 10 (Some ''x'') 9 None] [] [] [])) k = Some x \<and> oe_Status x = ''failed''})"
  by (rule requeue_failed_effect [OF mem.gorm_platform_axioms sc_requeue, THEN conjunct1])

section \<open>The relay\<close>

text \<open>A batch of the relay with the in-memory bus touches at most as many entries as it may fetch; each
  of them was pending and is now published, or counted as failed once more, or as it was; it
  changes no order, and it neither adds nor removes an entry or alters the event one carries.\<close>

theorem relay_batch_bounded:
  assumes "gorm_platform E view" "0 \<le> sint n" "run_state (relay_batch E n) w = (c, w')"
  shows "stored_orders (view w') = stored_orders (view w) \<and>
    same_log (stored_events (view w)) (stored_events (view w')) \<and>
    (\<exists>K. finite K \<and> card K \<le> nat (sint n) \<and> relays (stored_events (view w)) (stored_events (view w')) K)"
  using gorm_platform.relay_batch_effect [OF assms(1,3,2)] relays_same_log by blast

theorem relay_batch_bounded_witness:
  "same_log (stored_events (mem_view sc_w3)) (stored_events (mem_view sc_r_done))"
  using relay_batch_bounded [OF mem.gorm_platform_axioms _ sc_batch] by simp

end
