(* ===== verification/Messaging_Properties.thy ===== *)
theory Messaging_Properties imports Relay_Properties begin

text \<open>
  The properties of the buses: the in-memory bus stops at the first failing handler, and an
  event published to Kafka is the event the consumer reads.
\<close>

section \<open>The in-memory bus\<close>

text \<open>Handlers that all succeed, in turn.\<close>

fun handlers_ok :: "'w EventHandler list \<Rightarrow> OutboxEvent \<Rightarrow> 'w \<Rightarrow> 'w \<Rightarrow> bool" where
  "handlers_ok [] x w w' \<longleftrightarrow> w' = w"
| "handlers_ok (h # hs) x w w' \<longleftrightarrow> (\<exists>w1. run_state (h x) w = (Inr (), w1) \<and> handlers_ok hs x w1 w')"

lemma dispatch_ok: "handlers_ok hs x w w' \<Longrightarrow> run_state (dispatch p hs x) w = (Inr (), w')"
  by (induction hs arbitrary: w) auto

lemma dispatch_stops:
  "handlers_ok hs x w w1 \<Longrightarrow> run_state (h x) w1 = (Inl e, w2) \<Longrightarrow>
     run_state (dispatch p (hs @ h # hs') x) w = (Inl (ErrWrap (p @ oe_EventType x @ '': '') e), w2)"
  by (induction hs arbitrary: w) auto

text \<open>Publishing on the in-memory bus runs the handlers of the event's type in the order of their
  registration and stops at the first error, which it returns wrapped with the type; the handlers
  after it do not run, and without handlers the event counts as published.\<close>

theorem publish_stops_at_first_error:
  "(b (oe_EventType x) = [] \<longrightarrow> run_state (InMemoryEventBus_Publish b x) w = (Inr (), w)) \<and>
   (handlers_ok (b (oe_EventType x)) x w w' \<longrightarrow> run_state (InMemoryEventBus_Publish b x) w = (Inr (), w')) \<and>
   (b (oe_EventType x) = hs @ h # hs' \<and> handlers_ok hs x w w1 \<and> run_state (h x) w1 = (Inl e, w2) \<longrightarrow>
      run_state (InMemoryEventBus_Publish b x) w =
        (Inl (ErrWrap (''handler error for '' @ oe_EventType x @ '': '') e), w2))"
  using dispatch_ok [of "b (oe_EventType x)"] dispatch_stops [of hs x w w1 h e w2 "''handler error for ''" hs']
  by (auto simp: InMemoryEventBus_Publish_def)

theorem publish_stops_at_first_error_witness:
  "run_state (InMemoryEventBus_Publish (inmemory_bus mem_platform) (to_port_event sc_e1)) (sc_r 10 [False, True] [] [] [] [])
     = (Inl (ErrWrap ''handler error for OrderCreated: '' (ErrDriver ''connection refused'')), sc_r 10 [] [] [] [] [])"
  using publish_stops_at_first_error [of "inmemory_bus mem_platform" "to_port_event (sc_new sc_e1)"
      "sc_r 10 [False, True] [] [] [] []" undefined "[]" "projection_handler mem_platform" "[]"
      "sc_r 10 [False, True] [] [] [] []" "ErrDriver ''connection refused''" "sc_r 10 [] [] [] [] []"]
    sc_handle_created_fault [of "''pending''" 0 None "oem_AvailableAt sc_e1" None 10 "[]"]
  by (simp add: inmemory_bus_def ProjectionWorker_Setup_def Subscribe_def no_handlers_def)

section \<open>The Kafka envelope\<close>

text \<open>What the consumer rebuilds: the fields of the relay's bookkeeping are not transmitted.\<close>

definition delivered :: "OutboxEvent \<Rightarrow> OutboxEvent" where
  "delivered x = x\<lparr>oe_AvailableAt := time_zero, oe_PublishedAt := None, oe_Status := ''published'',
     oe_RetryCount := 0, oe_LastError := None\<rparr>"

lemma raw_roundtrip: "j \<noteq> raw_nil \<Longrightarrow> decode_raw (Some (marshal_raw j)) = j"
  by (auto simp: raw_nil_def marshal_raw_def decode_raw_def split: json.splits)

context runtime_codec begin

lemma envelope_parsed:
  assumes "marshal_KafkaMessage R \<lparr>km_EventID = uuid_String R (oe_ID x), km_AggregateType = oe_AggregateType x,
      km_AggregateID = oe_AggregateID x, km_EventType = oe_EventType x, km_Payload = oe_Payload x,
      km_Metadata = oe_Metadata x, km_OccurredAt = oe_OccurredAt x\<rparr> = Inr j"
    and "oe_Payload x \<noteq> raw_nil" "oe_Metadata x \<noteq> raw_nil"
  shows "parseMessage R j = Inr (delivered x)"
  using assms
  by (auto simp: marshal_KafkaMessage_def parseMessage_def unmarshal_KafkaMessage_def time_roundtrip parse_string
      raw_roundtrip delivered_def split: sum.splits)

lemma Kafka_delivers:
  assumes "run_state (KafkaEventBus_Publish R write b x) w = (Inr u, w')"
    and "oe_Payload x \<noteq> raw_nil" "oe_Metadata x \<noteq> raw_nil"
  shows "\<exists>m w1. run_state (write m) w = (Inr (), w1) \<and> msg_Key m = oe_AggregateID x \<and>
    parseMessage R (msg_Value m) = Inr (delivered x)"
  using assms envelope_parsed [of x] by (auto simp: KafkaEventBus_Publish_def split: sum.splits prod.splits)

end

text \<open>An event that was published to Kafka with success was written under its aggregate's identifier
  (so that one aggregate stays on one partition), and the message parses back to the event, but for
  the relay's bookkeeping.\<close>

theorem kafka_roundtrip:
  assumes "runtime_codec R" "run_state (KafkaEventBus_Publish R write b x) w = (Inr u, w')"
    and "oe_Payload x \<noteq> raw_nil" "oe_Metadata x \<noteq> raw_nil"
  shows "\<exists>m w1. run_state (write m) w = (Inr (), w1) \<and> msg_Key m = oe_AggregateID x \<and>
    parseMessage R (msg_Value m) = Inr (delivered x)"
  using runtime_codec.Kafka_delivers [OF assms] .

text \<open>A writer that keeps the messages in a list, in a bus without local handlers; and the in-memory
  platform's codecs on any world.\<close>

definition list_writer :: "kafka_message \<Rightarrow> (kafka_message list, go_error + unit) state" where
  "list_writer m = State (\<lambda>w. (Inr (), w @ [m]))"

definition pure_runtime :: "'w runtime" where
  "pure_runtime = \<lparr>time_Now = ret 0, uuid_NewV7 = ret 0, uuid_New = ret 0, uuid_Parse = uuid_Parse mem_platform,
     uuid_Rest = uuid_Rest mem_platform, uuid_String = uuid_String mem_platform,
     time_MarshalText = time_MarshalText mem_platform, time_UnmarshalText = time_UnmarshalText mem_platform\<rparr>"

lemma pure_runtime_codec: "runtime_codec (pure_runtime :: 'w runtime)"
  by unfold_locales (auto simp: pure_runtime_def mem_platform_def split: if_splits)

theorem kafka_roundtrip_witness:
  "\<exists>m :: kafka_message. parseMessage (pure_runtime :: kafka_message list runtime) (msg_Value m) = Inr (delivered (to_port_event sc_e1))"
proof -
  have "run_state (KafkaEventBus_Publish pure_runtime list_writer no_handlers (to_port_event sc_e1)) []
      = (Inr (), snd (run_state (KafkaEventBus_Publish pure_runtime list_writer no_handlers (to_port_event sc_e1)) []))"
    by (simp add: KafkaEventBus_Publish_def marshal_KafkaMessage_def pure_runtime_def mem_eval list_writer_def
        no_handlers_def to_port_event_def sc_e1_def sc_entry_def)
  from kafka_roundtrip [OF pure_runtime_codec this] show ?thesis
    by (auto simp: to_port_event_def sc_e1_def sc_entry_def raw_nil_def marshal_EventMetadata_def)
qed

end
