(* ===== verification/Kafka_Consumer.thy ===== *)
theory Kafka_Consumer imports Messaging_Properties "HOL-Library.Sublist" begin

text \<open>
  The Kafka consumer (\<^verbatim>\<open>worker/kafka_consumer_worker.go\<close>) against the documented behaviour of
  the consumer group's reader: fetching yields the message at the reader's position and moves
  the position on, and committing a message commits every offset up to it.
\<close>

section \<open>The reader's laws\<close>

text \<open>
  One partition.  \<open>log\<close> is what was produced to it, \<open>position\<close> the offset the next fetch
  yields, \<open>committed\<close> the offset from which a restarted consumer starts.
\<close>

record kafka_offsets =
  kf_log :: "consumed_message list"
  kf_position :: nat
  kf_committed :: nat

definition numbered :: "consumed_message list \<Rightarrow> bool" where
  "numbered ms \<longleftrightarrow> (\<forall>i < length ms. cm_Offset (ms ! i) = i)"

locale kafka_group =
  fixes reader :: "'w kafka_reader" and b :: "'w handlers" and offsets :: "'w \<Rightarrow> kafka_offsets"
  assumes log_numbered: "numbered (kf_log (offsets w))"
    and fetch_ok: "run_state (kr_FetchMessage reader) w = (Inr m, w') \<Longrightarrow>
          prefix (kf_log (offsets w)) (kf_log (offsets w')) \<and> kf_position (offsets w) < length (kf_log (offsets w')) \<and>
          m = kf_log (offsets w') ! kf_position (offsets w) \<and>
          kf_position (offsets w') = kf_position (offsets w) + 1 \<and> kf_committed (offsets w') = kf_committed (offsets w)"
    and fetch_err: "run_state (kr_FetchMessage reader) w = (Inl e, w') \<Longrightarrow>
          prefix (kf_log (offsets w)) (kf_log (offsets w')) \<and> kf_position (offsets w') = kf_position (offsets w) \<and>
          kf_committed (offsets w') = kf_committed (offsets w)"
    and commit_ok: "run_state (kr_CommitMessages reader m) w = (Inr u, w') \<Longrightarrow>
          offsets w' = (offsets w)\<lparr>kf_committed := cm_Offset m + 1\<rparr>"
    and commit_err: "run_state (kr_CommitMessages reader m) w = (Inl e, w') \<Longrightarrow> offsets w' = offsets w"
    and done_same: "run_state (kr_Done reader) w = (d, w') \<Longrightarrow> offsets w' = offsets w"
    and sleep_same: "run_state (kr_Sleep reader) w = (v, w') \<Longrightarrow> offsets w' = offsets w"
    and close_same: "run_state (kr_Close reader) w = (c, w') \<Longrightarrow> offsets w' = offsets w"
    and handler_same: "h \<in> set (b ty) \<Longrightarrow> run_state (h x) w = (r, w') \<Longrightarrow> offsets w' = offsets w"

section \<open>One iteration\<close>

text \<open>What an iteration may have done to the offsets.\<close>

inductive consumed :: "('w, 'z) runtime_scheme \<Rightarrow> 'w handlers \<Rightarrow> kafka_offsets \<Rightarrow> bool \<Rightarrow> kafka_offsets \<Rightarrow> bool"
  for R b k where
  idle: "prefix (kf_log k) ms \<Longrightarrow> consumed R b k go (k\<lparr>kf_log := ms\<rparr>)"
| malformed: "prefix (kf_log k) ms \<Longrightarrow> kf_position k < length ms \<Longrightarrow>
     parseMessage R (cm_Value (ms ! kf_position k)) = Inl e \<Longrightarrow> c \<in> {kf_committed k, kf_position k + 1} \<Longrightarrow>
     consumed R b k True \<lparr>kf_log = ms, kf_position = kf_position k + 1, kf_committed = c\<rparr>"
| failed: "prefix (kf_log k) ms \<Longrightarrow> kf_position k < length ms \<Longrightarrow>
     parseMessage R (cm_Value (ms ! kf_position k)) = Inr ev \<Longrightarrow>
     run_state (KafkaEventBus_HandleMessage b ev) w = (Inl e, w') \<Longrightarrow>
     consumed R b k True \<lparr>kf_log = ms, kf_position = kf_position k + 1, kf_committed = kf_committed k\<rparr>"
| handled: "prefix (kf_log k) ms \<Longrightarrow> kf_position k < length ms \<Longrightarrow>
     parseMessage R (cm_Value (ms ! kf_position k)) = Inr ev \<Longrightarrow>
     run_state (KafkaEventBus_HandleMessage b ev) w = (Inr (), w') \<Longrightarrow> c \<in> {kf_committed k, kf_position k + 1} \<Longrightarrow>
     consumed R b k True \<lparr>kf_log = ms, kf_position = kf_position k + 1, kf_committed = c\<rparr>"

inductive_cases consumedE: "consumed R b k go k'"

lemma kafka_offsets_eqI:
  "kf_log k = kf_log k' \<Longrightarrow> kf_position k = kf_position k' \<Longrightarrow> kf_committed k = kf_committed k' \<Longrightarrow> (k :: kafka_offsets) = k'"
  by (cases k; cases k') simp

context kafka_group begin

lemma handle_same:
  "run_state (KafkaEventBus_HandleMessage b ev) w = (r, w') \<Longrightarrow> offsets w' = offsets w"
  using dispatch_invariant [of "b (oe_EventType ev)" ev "\<lambda>w'. offsets w' = offsets w"] handler_same
  by (auto simp: KafkaEventBus_HandleMessage_def split: if_splits)

lemma commit_offsets:
  assumes "run_state (kr_CommitMessages reader m) w = (r, w')"
    and "offsets w = \<lparr>kf_log = ms, kf_position = p + 1, kf_committed = c0\<rparr>" "cm_Offset m = p"
  shows "\<exists>c \<in> {c0, p + 1}. offsets w' = \<lparr>kf_log = ms, kf_position = p + 1, kf_committed = c\<rparr>"
  using assms commit_ok [of m w _ w'] commit_err [of m w _ w'] by (cases r) auto

lemma iteration_consumed:
  assumes "run_state (KafkaConsumerWorker_iteration R reader b) w = (go, w')"
  shows "consumed R b (offsets w) go (offsets w')"
proof -
  obtain stop w1 where D: "run_state (kr_Done reader) w = (stop, w1)" by fastforce
  note d = done_same [OF D]
  show ?thesis
  proof (cases stop)
    case True
    with assms D d have "offsets w' = offsets w"
      by (auto simp: KafkaConsumerWorker_iteration_def split: prod.splits dest: close_same)
    then show ?thesis using consumed.idle [of "offsets w" "kf_log (offsets w)"] by simp
  next
    case False
    obtain f w2 where F: "run_state (kr_FetchMessage reader) w1 = (f, w2)" by fastforce
    show ?thesis
    proof (cases f)
      case (Inl e)
      with assms D False F have "offsets w' = offsets w2"
        by (auto simp: KafkaConsumerWorker_iteration_def split: prod.splits if_splits dest!: done_same sleep_same)
      moreover from fetch_err [OF F [unfolded Inl]]
      have "offsets w2 = (offsets w)\<lparr>kf_log := kf_log (offsets w2)\<rparr>" "prefix (kf_log (offsets w)) (kf_log (offsets w2))"
        by (simp_all add: d kafka_offsets_eqI)
      ultimately show ?thesis using consumed.idle by metis
    next
      case (Inr m)
      let ?k = "offsets w" and ?ms = "kf_log (offsets w2)"
      note f = fetch_ok [OF F [unfolded Inr], unfolded d]
      note pre = f [THEN conjunct1] and lt = f [THEN conjunct2, THEN conjunct1]
      have off: "cm_Offset m = kf_position ?k"
        using f log_numbered [of w2] by (simp add: numbered_def)
      have k2: "offsets w2 = \<lparr>kf_log = ?ms, kf_position = kf_position ?k + 1, kf_committed = kf_committed ?k\<rparr>"
        using f by (intro kafka_offsets_eqI) auto
      show ?thesis
      proof (cases "parseMessage R (cm_Value m)")
        case (Inl e)
        with assms D False F \<open>f = Inr m\<close> obtain c where
          C: "run_state (kr_CommitMessages reader m) w2 = (c, w')" "go = True"
          by (auto simp: KafkaConsumerWorker_iteration_def split: prod.splits)
        have p: "parseMessage R (cm_Value (?ms ! kf_position ?k)) = Inl e" using f Inl by simp
        from commit_offsets [OF C(1) k2 off] obtain n where
          n: "n \<in> {kf_committed ?k, kf_position ?k + 1}"
            "offsets w' = \<lparr>kf_log = ?ms, kf_position = kf_position ?k + 1, kf_committed = n\<rparr>" by (elim bexE)
        show ?thesis unfolding n(2) C(2) by (rule consumed.malformed [OF pre lt p n(1)])
      next
        case (Inr ev)
        obtain h w3 where H: "run_state (KafkaEventBus_HandleMessage b ev) w2 = (h, w3)" by fastforce
        note h = handle_same [OF H]
        show ?thesis
        proof (cases h)
          case (Inl e)
          with assms D False F \<open>f = Inr m\<close> Inr H obtain v where
            S: "run_state (kr_Sleep reader) w3 = (v, w')" "go = True"
            by (auto simp: KafkaConsumerWorker_iteration_def split: prod.splits)
          have same: "offsets w' = offsets w3" using S(1) by (rule sleep_same)
          have H': "run_state (KafkaEventBus_HandleMessage b ev) w2 = (Inl e, w3)" using H Inl by simp
          have p: "parseMessage R (cm_Value (?ms ! kf_position ?k)) = Inr ev" using f Inr by simp
          have o: "offsets w' = \<lparr>kf_log = ?ms, kf_position = kf_position ?k + 1, kf_committed = kf_committed ?k\<rparr>"
            unfolding same h by (rule k2)
          show ?thesis unfolding o S(2) by (rule consumed.failed [OF pre lt p H'])
        next
          case (Inr u)
          with assms D False F \<open>f = Inr m\<close> \<open>parseMessage R (cm_Value m) = Inr ev\<close> H obtain c where
            C: "run_state (kr_CommitMessages reader m) w3 = (c, w')" "go = True"
            by (auto simp: KafkaConsumerWorker_iteration_def split: prod.splits)
          have H': "run_state (KafkaEventBus_HandleMessage b ev) w2 = (Inr (), w3)" using H Inr by simp
          have p: "parseMessage R (cm_Value (?ms ! kf_position ?k)) = Inr ev"
            using f \<open>parseMessage R (cm_Value m) = Inr ev\<close> by simp
          from commit_offsets [OF C(1) trans [OF h k2] off] obtain n where
            n: "n \<in> {kf_committed ?k, kf_position ?k + 1}"
              "offsets w' = \<lparr>kf_log = ?ms, kf_position = kf_position ?k + 1, kf_committed = n\<rparr>" by (elim bexE)
          show ?thesis unfolding n(2) C(2) by (rule consumed.handled [OF pre lt p H' n(1)])
        qed
      qed
    qed
  qed
qed

end

section \<open>A consumer over the in-memory platform\<close>

text \<open>The world: the database, the produced values, the position and the committed offset.\<close>

type_synonym consumer_world = "mem \<times> json list \<times> nat \<times> nat"

definition on_mem :: "(mem, 'a) state \<Rightarrow> (mem \<times> 'k, 'a) state" where
  "on_mem m = State (\<lambda>(s, k). case run_state m s of (x, s') \<Rightarrow> (x, (s', k)))"

definition list_reader :: "consumer_world kafka_reader" where
  "list_reader = \<lparr>kr_Done = ret False,
     kr_FetchMessage = State (\<lambda>(s, vs, p, c). if p < length vs
       then (Inr \<lparr>cm_Value = vs ! p, cm_Offset = p\<rparr>, (s, vs, p + 1, c))
       else (Inl (ErrDriver ''no message''), (s, vs, p, c))),
     kr_CommitMessages = (\<lambda>m. State (\<lambda>(s, vs, p, c). (Inr (), (s, vs, p, cm_Offset m + 1)))),
     kr_Close = ret (Inr ()), kr_Sleep = ret ()\<rparr>"

definition consumer_bus :: "(mem \<times> 'k) handlers" where
  "consumer_bus ty = map (\<lambda>h x. on_mem (h x)) (inmemory_bus mem_platform ty)"

definition world_offsets :: "consumer_world \<Rightarrow> kafka_offsets" where
  "world_offsets = (\<lambda>(s, vs, p, c). \<lparr>kf_log = map (\<lambda>i. \<lparr>cm_Value = vs ! i, cm_Offset = i\<rparr>) [0..<length vs],
     kf_position = p, kf_committed = c\<rparr>)"

lemma run_on_mem: "run_state (on_mem m) (s, k) = (case run_state m s of (x, s') \<Rightarrow> (x, (s', k)))"
  by (simp add: on_mem_def)

interpretation lk: kafka_group list_reader consumer_bus world_offsets
  by unfold_locales
    (auto simp: list_reader_def consumer_bus_def world_offsets_def numbered_def run_on_mem
      split: prod.splits if_splits)

section \<open>A failed message is skipped\<close>

context kafka_group begin

lemma second_iteration:
  assumes "run_state (kr_Done reader) w = (False, wa)" "run_state (kr_FetchMessage reader) wa = (Inr m, wb)"
    and "parseMessage R (cm_Value m) = Inr ev" "run_state (KafkaEventBus_HandleMessage b ev) wb = (Inl e, wc)"
    and "run_state (KafkaConsumerWorker_iteration R reader b) w = (go, w1)"
    and "run_state (KafkaConsumerWorker_iteration R reader b) w1 = (go2, w2)"
  shows "kf_committed (offsets w1) = kf_committed (offsets w) \<and> kf_position (offsets w1) = cm_Offset m + 1 \<and>
    kf_committed (offsets w2) \<in> {kf_committed (offsets w), cm_Offset m + 2} \<and>
    cm_Offset m < kf_position (offsets w2)"
proof -
  note f = fetch_ok [OF assms(2)] and d = done_same [OF assms(1)] and h = handle_same [OF assms(4)]
  have off: "cm_Offset m = kf_position (offsets w)"
    using f d log_numbered [of wb] by (simp add: numbered_def)
  from assms(1-5) obtain v where "run_state (kr_Sleep reader) wc = (v, w1)"
    by (auto simp: KafkaConsumerWorker_iteration_def split: prod.splits)
  from sleep_same [OF this] have w1: "kf_position (offsets w1) = cm_Offset m + 1"
    "kf_committed (offsets w1) = kf_committed (offsets w)"
    using f d h off by simp_all
  from iteration_consumed [OF assms(6)] show ?thesis
    by (cases rule: consumed.cases) (use w1 in auto)
qed

end

text \<open>C32: A message whose handler fails is not delivered again: the loop goes on to the next message, and
  as soon as that one is committed the offset of the failed one lies below the committed offset,
  so that a restarted consumer does not see it either.\<close>

theorem failed_message_is_skipped:
  assumes "kafka_group reader b offsets"
    and "run_state (kr_Done reader) w = (False, wa)" "run_state (kr_FetchMessage reader) wa = (Inr m, wb)"
    and "parseMessage R (cm_Value m) = Inr ev" "run_state (KafkaEventBus_HandleMessage b ev) wb = (Inl e, wc)"
    and "run_state (KafkaConsumerWorker_iteration R reader b) w = (go, w1)"
    and "run_state (KafkaConsumerWorker_iteration R reader b) w1 = (go2, w2)"
  shows "kf_committed (offsets w1) = kf_committed (offsets w) \<and> kf_position (offsets w1) = cm_Offset m + 1 \<and>
    kf_committed (offsets w2) \<in> {kf_committed (offsets w), cm_Offset m + 2} \<and>
    cm_Offset m < kf_position (offsets w2)"
  using kafka_group.second_iteration [OF assms] .

text \<open>The item of the scenario is consumed before its order, and then the confirmation.\<close>

definition sc_envelope :: "OutboxEventModel \<Rightarrow> json" where
  "sc_envelope e = projr (marshal_KafkaMessage (pure_runtime :: unit runtime)
     \<lparr>km_EventID = unary CHR ''u'' (unat (oem_ID e)), km_AggregateType = oem_AggregateType e,
      km_AggregateID = oem_AggregateID e, km_EventType = oem_EventType e, km_Payload = oem_Payload e,
      km_Metadata = oem_Metadata e, km_OccurredAt = oem_OccurredAt e\<rparr>)"

lemma sc_envelope_parsed:
  assumes "e \<in> {sc_e1, sc_e2, sc_e3}"
  shows "parseMessage (pure_runtime :: consumer_world runtime) (sc_envelope e) =
    Inr (to_port_event (sc_sent e ''published'' 0 None time_zero None))"
  using assms
  by (auto simp: sc_envelope_def parseMessage_def marshal_KafkaMessage_def unmarshal_KafkaMessage_def pure_runtime_def
      mem_eval to_port_event_def sc_sent_def sc_e1_def sc_e2_def sc_e3_def sc_entry_def decode_raw_def marshal_raw_def
      marshal_EventMetadata_def)

lemma consumer_handles:
  assumes "oe_EventType x \<in> {''OrderCreated'', ''OrderItemAdded'', ''OrderConfirmed''}"
  shows "run_state (KafkaEventBus_HandleMessage consumer_bus x) (s, k) =
    (case run_state (projection_handler mem_platform x) s of
       (Inl e, s') \<Rightarrow> (Inl (ErrWrap (''kafka handler error for '' @ oe_EventType x @ '': '') e), (s', k))
     | (Inr u, s') \<Rightarrow> (Inr (), (s', k)))"
  using assms
  by (auto simp: KafkaEventBus_HandleMessage_def consumer_bus_def inmemory_bus_def ProjectionWorker_Setup_def
      Subscribe_def no_handlers_def run_on_mem split: prod.splits sum.splits)

lemma list_reader_run [simp]:
  "run_state (kr_Done list_reader) w = (False, w)" "run_state (kr_Sleep list_reader) w = ((), w)"
  "p < length vs \<Longrightarrow> run_state (kr_FetchMessage list_reader) (s, vs, p, c) =
     (Inr \<lparr>cm_Value = vs ! p, cm_Offset = p\<rparr>, (s, vs, p + 1, c))"
  "run_state (kr_CommitMessages list_reader m) (s, vs, p, c) = (Inr (), (s, vs, p, cm_Offset m + 1))"
  by (simp_all add: list_reader_def)

lemmas sc_early = sc_handle_added_early [of "''published''" 0 None time_zero None 10 "[]"]
  sc_handle_confirmed_early [of "''published''" 0 None time_zero None 11 "[]" 10]

lemma sc_iterations:
  fixes R :: "consumer_world runtime" defines "R \<equiv> pure_runtime"
  defines "vs \<equiv> [sc_envelope sc_e2, sc_envelope sc_e3]"
  shows "run_state (KafkaConsumerWorker_iteration R list_reader consumer_bus) (sc_r 10 [] [] [] [] [], vs, 0, 0)
      = (True, (sc_r 11 [] [] [] [] [sc_item_view 10], vs, 1, 0))"
    and "run_state (KafkaConsumerWorker_iteration R list_reader consumer_bus)
        (sc_r 11 [] [] [] [] [sc_item_view 10], vs, 1, 0)
      = (True, (sc_r 12 [] [] [sc_processed 5 11] [] [sc_item_view 10], vs, 2, 2))"
  using sc_envelope_parsed [of sc_e2] sc_envelope_parsed [of sc_e3]
  by (simp_all add: KafkaConsumerWorker_iteration_def R_def vs_def consumer_handles sc_early)

theorem failed_message_is_skipped_witness:
  "\<exists>w2. rounds 2 (KafkaConsumerWorker_iteration pure_runtime list_reader consumer_bus)
       (sc_r 10 [] [] [] [] [], [sc_envelope sc_e2, sc_envelope sc_e3], 0, 0) w2 \<and>
     kf_committed (world_offsets w2) = 2 \<and> 0 < kf_position (world_offsets w2) \<and>
     snd w2 = ([sc_envelope sc_e2, sc_envelope sc_e3], 2, 2)"
proof -
  let ?vs = "[sc_envelope sc_e2, sc_envelope sc_e3]"
  let ?w1 = "(sc_r 11 [] [] [] [] [sc_item_view 10], ?vs, 1, 0) :: consumer_world"
  let ?w2 = "(sc_r 12 [] [] [sc_processed 5 11] [] [sc_item_view 10], ?vs, 2, 2) :: consumer_world"
  have h: "run_state (KafkaEventBus_HandleMessage consumer_bus (to_port_event (sc_sent sc_e2 ''published'' 0 None time_zero None)))
      (sc_r 10 [] [] [] [] [], ?vs, 1, 0)
    = (Inl (ErrWrap ''kafka handler error for OrderItemAdded: '' (ErrWrap ''get order for recalc: '' ErrOrderNotFound)), ?w1)"
    by (simp add: consumer_handles sc_early)
  have f: "run_state (kr_FetchMessage list_reader) (sc_r 10 [] [] [] [] [], ?vs, 0, 0)
      = (Inr \<lparr>cm_Value = sc_envelope sc_e2, cm_Offset = 0\<rparr>, (sc_r 10 [] [] [] [] [], ?vs, 1, 0))"
    by simp
  have "kf_committed (world_offsets ?w2) \<in> {0, 2} \<and> 0 < kf_position (world_offsets ?w2)"
    using failed_message_is_skipped [OF lk.kafka_group_axioms list_reader_run(1) f _ h
        sc_iterations] sc_envelope_parsed [of sc_e2]
    by (simp add: world_offsets_def)
  moreover have "rounds 2 (KafkaConsumerWorker_iteration pure_runtime list_reader consumer_bus)
      (sc_r 10 [] [] [] [] [], ?vs, 0, 0) ?w2"
    using sc_iterations by (simp add: numeral_2_eq_2)
  ultimately show ?thesis by (auto simp: world_offsets_def)
qed

end
