(* ===== verification/Kafka_Relay.thy ===== *)
theory Kafka_Relay imports Kafka_Consumer begin

text \<open>
  The relay with the Kafka bus, as \<^verbatim>\<open>internal/bootstrap/app.go\<close> wires it when Kafka is configured: an
  event is written to the topic, then given to the local projection, whose errors are dropped, and the
  consumer of the same process gives it to the projection once more.
\<close>

section \<open>The writer's laws\<close>

text \<open>
  One partition.  A write that succeeds has appended its message; one that fails may have appended
  some, or none.  Neither the database nor the handlers write to the topic.
\<close>

locale kafka_relay = runtime_codec R + outbox_store ob R outbox frame
  for R :: "('w, 'z) runtime_scheme" and ob :: "'w OutboxStore"
    and outbox :: "'w \<Rightarrow> uuid \<Rightarrow> OutboxEvent option" and frame :: "'w \<Rightarrow> 'f" +
  fixes produce :: "kafka_message \<Rightarrow> ('w, go_error + unit) state" and b :: "'w handlers"
    and topic :: "'w \<Rightarrow> kafka_message list"
  assumes write_ok: "run_state (produce m) w = (Inr u, w') \<Longrightarrow> topic w' = topic w @ [m] \<and> outbox w' = outbox w"
    and write_err: "run_state (produce m) w = (Inl e, w') \<Longrightarrow> prefix (topic w) (topic w') \<and> outbox w' = outbox w"
    and handler_keeps: "h \<in> set (b ty) \<Longrightarrow> run_state (h x) w = (r, w') \<Longrightarrow> topic w' = topic w \<and> outbox w' = outbox w"
    and fetch_topic: "run_state (ob_FetchPending ob n) w = (f, w') \<Longrightarrow> topic w' = topic w"
    and published_topic: "run_state (ob_MarkPublished ob i) w = (p, w') \<Longrightarrow> topic w' = topic w"
    and failed_topic: "run_state (ob_MarkFailed ob i msg) w = (q, w') \<Longrightarrow> topic w' = topic w"

section \<open>A batch\<close>

definition message_for :: "('w, 'z) runtime_scheme \<Rightarrow> OutboxEvent \<Rightarrow> kafka_message \<Rightarrow> bool" where
  "message_for R x m \<longleftrightarrow> msg_Key m = oe_AggregateID x \<and> parseMessage R (msg_Value m) = Inr (delivered x)"

text \<open>An entry whose payload and metadata are documents, as \<^verbatim>\<open>Append\<close> writes them.\<close>

definition sendable :: "OutboxEvent \<Rightarrow> bool" where
  "sendable x \<longleftrightarrow> oe_Payload x \<noteq> raw_nil \<and> oe_Metadata x \<noteq> raw_nil"

context kafka_relay begin

lemma publish_topic:
  assumes "run_state (KafkaEventBus_Publish R produce b x) w = (p, w')"
  shows "prefix (topic w) (topic w') \<and> outbox w' = outbox w \<and>
    (p = Inr () \<longrightarrow> sendable x \<longrightarrow> (\<exists>m \<in> set (topic w'). message_for R x m))"
proof (cases "marshal_KafkaMessage R
         \<lparr>km_EventID = uuid_String R (oe_ID x), km_AggregateType = oe_AggregateType x,
          km_AggregateID = oe_AggregateID x, km_EventType = oe_EventType x,
          km_Payload = oe_Payload x, km_Metadata = oe_Metadata x, km_OccurredAt = oe_OccurredAt x\<rparr>")
  case (Inl e)
  with assms show ?thesis by (auto simp: KafkaEventBus_Publish_def)
next
  case (Inr val)
  note enc = this
  define m where "m = \<lparr>msg_Key = oe_AggregateID x, msg_Value = val,
    msg_Headers = [(''event_type'', oe_EventType x), (''aggregate_type'', oe_AggregateType x),
      (''event_id'', uuid_String R (oe_ID x))]\<rparr>"
  obtain r w1 where W: "run_state (produce m) w = (r, w1)" by fastforce
  show ?thesis
  proof (cases r)
    case (Inl e)
    with assms enc W [unfolded m_def] have "w' = w1" "p \<noteq> Inr ()"
      by (auto simp: KafkaEventBus_Publish_def)
    with write_err [OF W [unfolded Inl]] show ?thesis by simp
  next
    case (Inr u)
    with assms enc W [unfolded m_def] obtain v where
      D: "run_state (dispatchLocal (b (oe_EventType x)) x) w1 = (v, w')"
      by (auto simp: KafkaEventBus_Publish_def split: prod.splits)
    have "topic w' = topic w1 \<and> outbox w' = outbox w1"
      by (rule dispatchLocal_invariant [OF _ D, where I = "\<lambda>w'. topic w' = topic w1 \<and> outbox w' = outbox w1"])
        (use handler_keeps in \<open>auto simp del: split_paired_All\<close>)
    moreover have "message_for R x m" if "sendable x"
      using envelope_parsed [OF enc] that by (simp add: message_for_def sendable_def m_def)
    ultimately show ?thesis using write_ok [OF W [unfolded Inr]] by auto
  qed
qed

lemma mark_step:
  assumes "run_state (case p of Inl err \<Rightarrow> ob_MarkFailed ob (oe_ID x) (error_text err)
      | Inr _ \<Rightarrow> ob_MarkPublished ob (oe_ID x)) w = (m, w')"
    and "outbox w (oe_ID x) = Some x" "oe_Status x = ''pending''"
  shows "topic w' = topic w \<and> (\<forall>k. k \<noteq> oe_ID x \<longrightarrow> outbox w' k = outbox w k) \<and>
    (\<forall>y. outbox w' (oe_ID x) = Some y \<longrightarrow> oe_Status y = ''published'' \<longrightarrow> p = Inr ())"
proof (cases p)
  case (Inl err)
  with assms(1) have M: "run_state (ob_MarkFailed ob (oe_ID x) (error_text err)) w = (m, w')" by simp
  show ?thesis
  proof (cases m)
    case Inl
    with failed_err [of "oe_ID x" "error_text err" w _ w'] M failed_topic [OF M] assms(2,3) show ?thesis by auto
  next
    case (Inr u)
    from failed_ok [OF M [unfolded Inr]] assms(2,3) obtain y where
      y: "outbox w' = (outbox w)(oe_ID x \<mapsto> y)" "attempted (error_text err) x y" by auto
    then have "oe_Status y \<in> {''pending'', ''failed''}"
      using assms(3) kept_sel(7) unfolding attempted_def by fastforce
    with y(1) failed_topic [OF M] show ?thesis by auto
  qed
next
  case (Inr u)
  with assms(1) have M: "run_state (ob_MarkPublished ob (oe_ID x)) w = (m, w')" by simp
  have "outbox w' k = outbox w k" if "k \<noteq> oe_ID x" for k
  proof (cases m)
    case Inl
    with published_err M show ?thesis by simp
  next
    case (Inr v)
    from published_ok [OF M [unfolded Inr]] obtain now where
      "entries_updated (\<lambda>y. oe_ID y = oe_ID x) (published_at now) (outbox w) (outbox w')" by blast
    from this [unfolded entries_updated_def, THEN spec, of k] that outbox_key [of w k] show ?thesis
      by (cases "outbox w k") auto
  qed
  with published_topic [OF M] Inr show ?thesis by simp
qed

lemma process_topic:
  assumes "run_state (process_events ob (KafkaEventBus_Publish R produce b) xs) w = (c, w')"
    and "\<forall>x \<in> set xs. outbox w (oe_ID x) = Some x \<and> oe_Status x = ''pending''" "distinct (map oe_ID xs)"
  shows "prefix (topic w) (topic w') \<and> (\<forall>k. k \<notin> oe_ID ` set xs \<longrightarrow> outbox w' k = outbox w k) \<and>
    (\<forall>x \<in> set xs. \<forall>y. outbox w' (oe_ID x) = Some y \<longrightarrow> oe_Status y = ''published'' \<longrightarrow> sendable x \<longrightarrow>
       (\<exists>m \<in> set (topic w'). message_for R x m))"
  using assms
proof (induction xs arbitrary: w c)
  case (Cons x xs)
  obtain p w1 where P: "run_state (KafkaEventBus_Publish R produce b x) w = (p, w1)" by fastforce
  obtain m w2 where M: "run_state (case p of Inl err \<Rightarrow> ob_MarkFailed ob (oe_ID x) (error_text err)
      | Inr _ \<Rightarrow> ob_MarkPublished ob (oe_ID x)) w1 = (m, w2)" by fastforce
  from Cons.prems(1) P M obtain c2 where R: "run_state (process_events ob (KafkaEventBus_Publish R produce b) xs) w2 = (c2, w')"
    by (auto split: prod.splits sum.splits)
  note pub = publish_topic [OF P]
  have x: "outbox w1 (oe_ID x) = Some x" "oe_Status x = ''pending''" using Cons.prems(2) pub by auto
  note mark = mark_step [OF M x]
  have "\<forall>x' \<in> set xs. outbox w2 (oe_ID x') = Some x' \<and> oe_Status x' = ''pending''"
  proof
    fix x' assume "x' \<in> set xs"
    with Cons.prems(2,3) have "oe_ID x' \<noteq> oe_ID x" "outbox w (oe_ID x') = Some x'" "oe_Status x' = ''pending''"
      by (auto simp: image_iff)
    with pub mark show "outbox w2 (oe_ID x') = Some x' \<and> oe_Status x' = ''pending''" by simp
  qed
  note rest = Cons.IH [OF R this] and later = this
  have rest: "prefix (topic w2) (topic w')" "\<And>k. k \<notin> oe_ID ` set xs \<Longrightarrow> outbox w' k = outbox w2 k"
    "\<forall>x \<in> set xs. \<forall>y. outbox w' (oe_ID x) = Some y \<longrightarrow> oe_Status y = ''published'' \<longrightarrow> sendable x \<longrightarrow>
       (\<exists>m \<in> set (topic w'). message_for R x m)"
    using rest Cons.prems(3) by auto
  have grows: "prefix (topic w) (topic w')" using pub mark rest(1) by (metis prefix_order.trans)
  have "\<exists>m \<in> set (topic w'). message_for R x m"
    if y: "outbox w' (oe_ID x) = Some y" "oe_Status y = ''published''" "sendable x" for y
  proof -
    have "outbox w2 (oe_ID x) = Some y" using rest(2) [of "oe_ID x"] Cons.prems(3) y(1) by simp
    with mark y(2) have "p = Inr ()" by blast
    with pub y(3) obtain m where "m \<in> set (topic w1)" "message_for R x m" by blast
    with mark rest(1) show ?thesis by (metis set_mono_prefix subsetD)
  qed
  with grows rest(2,3) mark pub show ?case by auto
qed simp

lemma batch_topic:
  assumes "run_state (OutboxWorker_processBatch ob (KafkaEventBus_Publish R produce b) n) w = (c, w')" "0 \<le> sint n"
    and "outbox w k = Some x" "oe_Status x \<noteq> ''published''" "outbox w' k = Some y" "oe_Status y = ''published''" "sendable x"
  shows "\<exists>m \<in> set (topic w'). message_for R x m"
proof -
  obtain f w1 where F: "run_state (ob_FetchPending ob n) w = (f, w1)" by fastforce
  show ?thesis
  proof (cases f)
    case (Inl e)
    with assms(1) F have "w' = w1" by (simp add: OutboxWorker_processBatch_def)
    with fetch_err [OF F [unfolded Inl]] assms(3-6) show ?thesis by simp
  next
    case (Inr xs)
    note f = fetch_ok [OF F [unfolded Inr] assms(2)]
    with assms(3-6) F Inr assms(1) obtain c2 where
      P: "run_state (process_events ob (KafkaEventBus_Publish R produce b) xs) w1 = (c2, w')"
      by (cases "xs = []") (auto simp: OutboxWorker_processBatch_def)
    have "\<forall>x \<in> set xs. outbox w1 (oe_ID x) = Some x \<and> oe_Status x = ''pending''" using f by auto
    note t = process_topic [OF P this] f
    have "k \<in> oe_ID ` set xs" using t assms(3-6) by (metis option.inject)
    then obtain x' where "x' \<in> set xs" "k = oe_ID x'" by blast
    with t assms(3) have "x \<in> set xs" "k = oe_ID x" by auto
    with t assms(5-7) show ?thesis by blast
  qed
qed

end

section \<open>The in-memory platform beside a topic\<close>

text \<open>A store of the database in a world that holds more.\<close>

definition store_on_mem :: "mem OutboxStore \<Rightarrow> (mem \<times> 'k) OutboxStore" where
  "store_on_mem ob =
     \<lparr>ob_Append = (\<lambda>evs. on_mem (ob_Append ob evs)), ob_FetchPending = (\<lambda>n. on_mem (ob_FetchPending ob n)),
      ob_MarkPublished = (\<lambda>i. on_mem (ob_MarkPublished ob i)), ob_MarkFailed = (\<lambda>i msg. on_mem (ob_MarkFailed ob i msg)),
      ob_RequeueFailed = on_mem (ob_RequeueFailed ob)\<rparr>"

abbreviation mem_store :: "(mem \<times> 'k) OutboxStore" where
  "mem_store \<equiv> store_on_mem (NewGormOutboxStore mem_platform)"

definition beside_writer :: "(kafka_message \<Rightarrow> 'k \<Rightarrow> 'k) \<Rightarrow> kafka_message \<Rightarrow> (mem \<times> 'k, go_error + unit) state" where
  "beside_writer g m = State (\<lambda>(s, k). (Inr (), (s, g m k)))"

abbreviation topic_writer :: "kafka_message \<Rightarrow> (mem \<times> kafka_message list, go_error + unit) state" where
  "topic_writer \<equiv> beside_writer (\<lambda>m ms. ms @ [m])"

lemma run_on_mem_eq: "run_state (on_mem m) w = (x, w') \<longleftrightarrow> run_state m (fst w) = (x, fst w') \<and> snd w' = snd w"
  by (cases w; cases w'; cases "run_state m (fst w)") (auto simp: run_on_mem)

lemma entry_for_pure: "entry_for pure_runtime = entry_for mem_platform"
proof (intro ext)
  fix e x show "entry_for (pure_runtime :: 'w runtime) e x = entry_for mem_platform e x"
    by (cases e) (simp_all add: entry_for_def pure_runtime_def marshal_OrderCreated_def marshal_OrderItemAdded_def
        marshal_OrderConfirmed_def)
qed

context gorm_platform begin

lemma outbox_laws: "outbox_store (NewGormOutboxStore E) E (\<lambda>w. stored_events (view w)) (\<lambda>w. outbox_frame (view w))"
  by unfold_locales

lemma handler_events: "run_state (projection_handler E x) w = (r, w') \<Longrightarrow> stored_events (view w') = stored_events (view w)"
  by (rule write_part_events(1) [OF handler_write])

end

interpretation mob: outbox_store "NewGormOutboxStore mem_platform" mem_platform "\<lambda>w. stored_events (mem_view w)"
  "\<lambda>w. outbox_frame (mem_view w)"
  by (rule gorm_platform.outbox_laws [OF mem.gorm_platform_axioms])

lemma mem_store_laws:
  "outbox_store mem_store (pure_runtime :: (mem \<times> 'k) runtime) (\<lambda>w. stored_events (mem_view (fst w)))
     (\<lambda>w. outbox_frame (mem_view (fst w)))"
proof (unfold_locales, goal_cases)
  case (8 i msg w u w')
  then show ?case using mob.failed_ok [of i msg "fst w" u "fst w'"] by (simp add: store_on_mem_def run_on_mem_eq)
qed (auto simp: store_on_mem_def run_on_mem_eq entry_for_pure simp del: ob_sel
      dest: mob.append_ok mob.append_err mob.outbox_key mob.fetch_ok mob.fetch_err
        mob.published_ok mob.published_err mob.failed_err mob.requeue_ok mob.requeue_err)

lemma consumer_bus_handlers: "h \<in> set (consumer_bus ty) \<Longrightarrow> h = (\<lambda>x. on_mem (projection_handler mem_platform x))"
  by (auto simp: consumer_bus_def dest: inmemory_bus_handlers)

interpretation km: kafka_relay pure_runtime mem_store "\<lambda>w. stored_events (mem_view (fst w))"
  "\<lambda>w. outbox_frame (mem_view (fst w))" topic_writer consumer_bus snd
proof (intro kafka_relay.intro kafka_relay_axioms.intro pure_runtime_codec mem_store_laws)
  fix h ty x and w w' :: "mem \<times> kafka_message list" and r
  assume "h \<in> set (consumer_bus ty)" "run_state (h x) w = (r, w')"
  then show "snd w' = snd w \<and> stored_events (mem_view (fst w')) = stored_events (mem_view (fst w))"
    using gorm_platform.handler_events [OF mem.gorm_platform_axioms] by (auto simp: run_on_mem_eq dest!: consumer_bus_handlers)
qed (auto simp: beside_writer_def store_on_mem_def run_on_mem_eq split: prod.splits)

end
