(* ===== verification/Kafka_Relay_Properties.thy ===== *)
theory Kafka_Relay_Properties imports Kafka_Relay begin

text \<open>
  The properties of the service with Kafka: what is published is on the topic, and one failing call
  of the local projection is enough to lose a confirmation although every message is consumed.
\<close>

section \<open>Batches on the in-memory platform\<close>

definition sc_message :: "OutboxEventModel \<Rightarrow> kafka_message" where
  "sc_message e = \<lparr>msg_Key = oem_AggregateID e, msg_Value = sc_envelope e,
     msg_Headers = [(''event_type'', oem_EventType e), (''aggregate_type'', oem_AggregateType e),
       (''event_id'', uuid_String mem_platform (oem_ID e))]\<rparr>"

abbreviation sc_kafka :: "(kafka_message \<Rightarrow> 'k \<Rightarrow> 'k) \<Rightarrow> (mem \<times> 'k) publisher" where
  "sc_kafka g \<equiv> KafkaEventBus_Publish pure_runtime (beside_writer g) consumer_bus"

lemma sc_encoded:
  assumes "e \<in> {sc_e1, sc_e2, sc_e3}"
  shows "marshal_KafkaMessage (pure_runtime :: 'w runtime)
     \<lparr>km_EventID = uuid_String (pure_runtime :: 'w runtime) (oem_ID e), km_AggregateType = oem_AggregateType e,
      km_AggregateID = oem_AggregateID e, km_EventType = oem_EventType e, km_Payload = oem_Payload e,
      km_Metadata = oem_Metadata e, km_OccurredAt = oem_OccurredAt e\<rparr> = Inr (sc_envelope e)"
  using assms
  by (auto simp: sc_envelope_def marshal_KafkaMessage_def pure_runtime_def mem_eval sc_e1_def sc_e2_def sc_e3_def sc_entry_def)

lemma uuid_String_pure: "uuid_String (pure_runtime :: 'w runtime) = uuid_String mem_platform"
  by (simp add: pure_runtime_def)

lemma port_sel:
  "oe_ID (to_port_event e) = oem_ID e" "oe_AggregateType (to_port_event e) = oem_AggregateType e"
  "oe_AggregateID (to_port_event e) = oem_AggregateID e" "oe_EventType (to_port_event e) = oem_EventType e"
  "oe_Payload (to_port_event e) = oem_Payload e" "oe_Metadata (to_port_event e) = oem_Metadata e"
  "oe_OccurredAt (to_port_event e) = oem_OccurredAt e" "oe_Status (to_port_event e) = oem_Status e"
  by (simp_all add: to_port_event_def)

lemma sc_sends:
  fixes k :: 'k
  assumes "e \<in> {sc_e1, sc_e2, sc_e3}"
    and "run_state (projection_handler mem_platform (to_port_event e)) s = (r, s')"
  shows "run_state (sc_kafka g (to_port_event e)) (s, k) = (Inr (), (s', g (sc_message e) k))"
proof -
  have "oem_EventType e \<in> {''OrderCreated'', ''OrderItemAdded'', ''OrderConfirmed''}" using assms(1) by auto
  then have "(consumer_bus :: (mem \<times> 'k) handlers) (oem_EventType e) = [\<lambda>x. on_mem (projection_handler mem_platform x)]"
    by (auto simp: consumer_bus_def inmemory_bus_def ProjectionWorker_Setup_def Subscribe_def no_handlers_def)
  with assms(2) sc_encoded [OF assms(1), where 'w = "mem \<times> 'k", unfolded uuid_String_pure] show ?thesis
    by (simp add: KafkaEventBus_Publish_def port_sel beside_writer_def run_on_mem sc_message_def uuid_String_pure)
qed

lemma sc_marks:
  "run_state (GormOutboxStore_MarkPublished mem_platform i) s = (m, s') \<Longrightarrow>
     run_state (ob_MarkPublished mem_store i) (s, k) = (m, (s', k))"
  "run_state (GormOutboxStore_FetchPending mem_platform n) s = (f, s') \<Longrightarrow>
     run_state (ob_FetchPending mem_store n) (s, k) = (f, (s', k))"
  by (simp_all add: store_on_mem_def run_on_mem)

abbreviation sc_sent_all :: "(kafka_message \<Rightarrow> 'k \<Rightarrow> 'k) \<Rightarrow> 'k \<Rightarrow> 'k" where
  "sc_sent_all g k \<equiv> g (sc_message sc_e3) (g (sc_message sc_e2) (g (sc_message sc_e1) k))"

lemma sc_kafka_batch:
  "run_state (OutboxWorker_processBatch mem_store (sc_kafka g) 100) (sc_w3, k) = ((3, 0), (sc_r_done, sc_sent_all g k))"
proof -
  let ?process = "process_events mem_store (sc_kafka g)" and ?x = "\<lambda>e. to_port_event (sc_new e)"
  note send = process_published [where publish = "sc_kafka g" and ob = mem_store]
  have 3: "run_state (?process [?x sc_e3])
      (sc_r 15 [] [sc_e3, sc_p sc_e2 14, sc_p sc_e1 11] [sc_processed 4 13, sc_processed 2 10]
        [sc_view ''DRAFT'' 1500 1 13] [sc_item_view 12], k') = ((0 + 1, 0), (sc_r_done, g (sc_message (sc_new sc_e3)) k'))" for k'
    by (rule send [OF sc_sends [OF _ sc_handle_confirmed] sc_marks(1) [OF mem_mark_published]])
      (simp_all add: sc_p_def sc_r_done_def)
  have 2: "run_state (?process [?x sc_e2, ?x sc_e3])
      (sc_r 12 [] [sc_e3, sc_e2, sc_p sc_e1 11] [sc_processed 2 10] [sc_view ''DRAFT'' 0 0 2] [], k') =
      ((0 + 1 + 1, 0), (sc_r_done, g (sc_message (sc_new sc_e3)) (g (sc_message (sc_new sc_e2)) k')))" for k'
    by (rule send [OF sc_sends [OF _ sc_handle_added] _ 3]) (simp_all add: sc_marks(1) [OF mem_mark_published] sc_p_def)
  have "run_state (?process [?x sc_e1, ?x sc_e2, ?x sc_e3])
      (sc_r 10 [] [sc_e3, sc_e2, sc_e1] [] [] [], k) = ((0 + 1 + 1 + 1, 0),
        (sc_r_done, g (sc_message (sc_new sc_e3)) (g (sc_message (sc_new sc_e2)) (g (sc_message (sc_new sc_e1)) k))))"
    by (rule send [OF sc_sends [OF _ sc_handle_created] _ 2]) (simp_all add: sc_marks(1) [OF mem_mark_published] sc_p_def)
  then show ?thesis
    by (simp add: sc_w3_r OutboxWorker_processBatch_def sc_marks(2) [OF sc_fetch] del: process_events.simps)
qed

text \<open>The same batch when one call of the local projection fails: the order's view is not created.\<close>

definition sc_k1 :: mem where
  "sc_k1 = sc_r 15 [] [sc_p sc_e3 14, sc_p sc_e2 12, sc_p sc_e1 10] [sc_processed 5 13] [] [sc_item_view 11]"

definition sc_outage :: mem where
  "sc_outage = sc_w3\<lparr>m_faults := [False, False, True]\<rparr>"

lemma sc_kafka_batch_fault:
  "run_state (OutboxWorker_processBatch mem_store (sc_kafka g) 100) (sc_outage, k) = ((3, 0), (sc_k1, sc_sent_all g k))"
proof -
  let ?process = "process_events mem_store (sc_kafka g)" and ?x = "\<lambda>e. to_port_event (sc_new e)"
  note send = process_published [where publish = "sc_kafka g" and ob = mem_store]
  have 3: "run_state (?process [?x sc_e3])
      (sc_r 13 [] [sc_e3, sc_p sc_e2 12, sc_p sc_e1 10] [] [] [sc_item_view 11], k') =
      ((0 + 1, 0), (sc_k1, g (sc_message (sc_new sc_e3)) k'))" for k'
    by (rule send [OF sc_sends [OF _ sc_handle_confirmed_early]]) (simp_all add: sc_marks(1) [OF mem_mark_published] sc_p_def sc_k1_def)
  have 2: "run_state (?process [?x sc_e2, ?x sc_e3])
      (sc_r 11 [] [sc_e3, sc_e2, sc_p sc_e1 10] [] [] [], k') =
      ((0 + 1 + 1, 0), (sc_k1, g (sc_message (sc_new sc_e3)) (g (sc_message (sc_new sc_e2)) k')))" for k'
    by (rule send [OF sc_sends [OF _ sc_handle_added_early] _ 3]) (simp_all add: sc_marks(1) [OF mem_mark_published] sc_p_def)
  have "run_state (?process [?x sc_e1, ?x sc_e2, ?x sc_e3])
      (sc_r 10 [False, True] [sc_e3, sc_e2, sc_e1] [] [] [], k) = ((0 + 1 + 1 + 1, 0),
        (sc_k1, g (sc_message (sc_new sc_e3)) (g (sc_message (sc_new sc_e2)) (g (sc_message (sc_new sc_e1)) k))))"
    by (rule send [OF sc_sends [OF _ sc_handle_created_fault] _ 2]) (simp_all add: sc_marks(1) [OF mem_mark_published] sc_p_def)
  moreover have *: "sc_outage = sc_r 10 [False, False, True] [sc_e3, sc_e2, sc_e1] [] [] []"
    by (simp add: sc_outage_def sc_r_def sc_w3_def mem_empty_def)
  ultimately show ?thesis
    unfolding * by (simp add: OutboxWorker_processBatch_def sc_marks(2) [OF sc_fetch_fault] del: process_events.simps)
qed

section \<open>The consumer catches up\<close>

text \<open>The consumer of the scenario's topic, from its first message.\<close>

abbreviation list_produce :: "kafka_message \<Rightarrow> json list \<times> nat \<times> nat \<Rightarrow> json list \<times> nat \<times> nat" where
  "list_produce m \<equiv> \<lambda>(vs, p, c). (vs @ [msg_Value m], p, c)"

abbreviation sc_topic :: "json list" where
  "sc_topic \<equiv> [sc_envelope sc_e1, sc_envelope sc_e2, sc_envelope sc_e3]"

abbreviation sc_consume :: "(consumer_world, bool) state" where
  "sc_consume \<equiv> KafkaConsumerWorker_iteration pure_runtime list_reader consumer_bus"

definition sc_k4 :: mem where
  "sc_k4 = sc_r 18 [] [sc_p sc_e3 14, sc_p sc_e2 12, sc_p sc_e1 10] [sc_processed 4 17, sc_processed 2 15, sc_processed 5 13]
     [sc_view ''DRAFT'' 1500 1 17] [sc_item_view 16]"

lemma sc_again:
  "run_state (projection_handler mem_platform (to_port_event (sc_sent sc_e3 st n err at pub))) sc_k4 = (Inr (), sc_k4)"
  by (simp add: sc_k4_def sc_handle)

lemma sc_caught:
  "run_state sc_consume (sc_k1, sc_topic, 0, 0) =
     (True, (sc_r 16 [] [sc_p sc_e3 14, sc_p sc_e2 12, sc_p sc_e1 10] [sc_processed 2 15, sc_processed 5 13]
        [sc_view ''DRAFT'' 0 0 2] [sc_item_view 11], sc_topic, 1, 1))"
  "run_state sc_consume (sc_r 16 [] [sc_p sc_e3 14, sc_p sc_e2 12, sc_p sc_e1 10] [sc_processed 2 15, sc_processed 5 13]
        [sc_view ''DRAFT'' 0 0 2] [sc_item_view 11], sc_topic, 1, 1) = (True, (sc_k4, sc_topic, 2, 2))"
  "run_state sc_consume (sc_k4, sc_topic, 2, 2) = (True, (sc_k4, sc_topic, 3, 3))"
  using sc_envelope_parsed [of sc_e1] sc_envelope_parsed [of sc_e2] sc_envelope_parsed [of sc_e3]
    sc_handle_created [of "[sc_processed 5 13]" 13 "''published''" 0 None time_zero None 15]
    sc_handle_added [of "[sc_processed 2 15, sc_processed 5 13]" 15 13 "[sc_item_view 11]" 11 16 "''published''" 0 None time_zero None]
    sc_again [of "''published''" 0 None time_zero None]
  by (simp_all add: KafkaConsumerWorker_iteration_def consumer_handles sc_k1_def sc_k4_def)

text \<open>Then nothing is left to do.\<close>

lemma sc_rest:
  "run_state (OutboxWorker_processBatch mem_store (sc_kafka g) 100) (sc_k4, k) = ((0, 0), (sc_k4, k))"
  "run_state sc_consume (sc_k4, sc_topic, 3, 3) = (True, (sc_k4, sc_topic, 3, 3))"
proof -
  have "run_state (GormOutboxStore_FetchPending mem_platform 100) sc_k4 = (Inr [], sc_k4)"
    by (simp add: GormOutboxStore_FetchPending_def mem_eval sc_relay sc_k4_def sc_entries)
  then show "run_state (OutboxWorker_processBatch mem_store (sc_kafka g) 100) (sc_k4, k) = ((0, 0), (sc_k4, k))"
    by (simp add: OutboxWorker_processBatch_def sc_marks(2))
  show "run_state sc_consume (sc_k4, sc_topic, 3, 3) = (True, (sc_k4, sc_topic, 3, 3))"
    by (simp add: KafkaConsumerWorker_iteration_def list_reader_def)
qed

lemma sc_k4_tables:
  "map oem_Status (m_outbox sc_k4) = [''published'', ''published'', ''published'']"
  "stored_processed_events (mem_view sc_k4) = {(5, HandlerName), (4, HandlerName), (2, HandlerName)}"
  "\<exists>p. stored_orders (mem_view sc_k4) (OrderID 1) = Some p \<and> p_status p = StatusConfirmed"
  "\<exists>v. stored_views (mem_view sc_k4) 1 = Some v \<and> vr_status v = ''DRAFT''"
proof -
  show "map oem_Status (m_outbox sc_k4) = [''published'', ''published'', ''published'']"
    by (simp add: sc_k4_def sc_r_def sc_p_def)
  show "stored_processed_events (mem_view sc_k4) = {(5, HandlerName), (4, HandlerName), (2, HandlerName)}"
    unfolding sc_k4_def sc_stored_read by (auto simp: mem_rows_def sc_processed_def pe_key_def HandlerName_def)
  show "\<exists>p. stored_orders (mem_view sc_k4) (OrderID 1) = Some p \<and> p_status p = StatusConfirmed"
    by (simp add: StatusConfirmed_def sc_k4_def stored_orders_def mem_view_def mem_map_def mem_rows_def sc_r_def sc_w3_def
        sc_row_def items_of_def rows_of_def)
  show "\<exists>v. stored_views (mem_view sc_k4) 1 = Some v \<and> vr_status v = ''DRAFT''"
    by (simp add: sc_k4_def stored_views_def mem_view_def mem_map_def mem_rows_def sc_r_def sc_view_def view_of_model_def
        to_order_view_def view_row_of_def)
qed

section \<open>Properties\<close>

text \<open>C27: With Kafka, an entry that a batch of the relay marks as published has its message on the topic, under
  the identifier of its aggregate, so that one aggregate stays on one partition; the consumer's parser
  makes the entry's event of it again, but for the relay's bookkeeping.\<close>

theorem kafka_published_is_written:
  assumes "kafka_relay R ob outbox frame produce b topic" and "0 \<le> sint n"
    and "run_state (OutboxWorker_processBatch ob (KafkaEventBus_Publish R produce b) n) w = (c, w')"
    and "outbox w k = Some x" "oe_Status x \<noteq> ''published''" "outbox w' k = Some y" "oe_Status y = ''published''"
    and "oe_Payload x \<noteq> raw_nil" "oe_Metadata x \<noteq> raw_nil"
  shows "\<exists>m \<in> set (topic w'). msg_Key m = oe_AggregateID x \<and> parseMessage R (msg_Value m) = Inr (delivered x)"
  using kafka_relay.batch_topic [OF assms(1,3,2,4-7)] assms(8,9) by (simp add: message_for_def sendable_def)

theorem kafka_published_is_written_witness:
  "\<exists>m \<in> set (sc_sent_all (\<lambda>m ms. ms @ [m]) []). msg_Key m = ''u'' \<and>
     parseMessage (pure_runtime :: (mem \<times> kafka_message list) runtime) (msg_Value m) = Inr (delivered (to_port_event sc_e1))"
proof -
  have x: "stored_events (mem_view sc_w3) 2 = Some (to_port_event sc_e1)"
    "stored_events (mem_view sc_r_done) 2 = Some (to_port_event (sc_p sc_e1 11))"
    unfolding sc_w3_r sc_r_done_def by (simp_all add: stored_events_def mem_view_def mem_map_def mem_rows_def sc_r_def)
  have e: "oem_Status sc_e1 = ''pending''" "oem_Payload sc_e1 \<noteq> raw_nil" "oem_Metadata sc_e1 \<noteq> raw_nil" "oem_AggregateID sc_e1 = ''u''"
    by (simp_all add: sc_e1_def sc_entry_def raw_nil_def marshal_EventMetadata_def)
  show ?thesis
    using kafka_published_is_written [where k = 2 and x = "to_port_event sc_e1" and y = "to_port_event (sc_p sc_e1 11)", OF km.kafka_relay_axioms _ sc_kafka_batch [of _ "[]"]] x e
    by (simp add: port_sel sc_p_def)
qed

text \<open>C31: With Kafka, one failing call of the database loses a confirmation.  The relay publishes the three
  events of the order; the local projection fails on the creation, and its error is dropped, so that the
  confirmation, handled locally, updates no view and counts as handled.  The consumer then reads every
  message with success and skips that one: all is published, handled and committed, the order is
  confirmed, its view says DRAFT, and neither another batch nor another iteration changes anything.\<close>

theorem kafka_loses_confirmation:
  "\<exists>w1 w2. run_state (OutboxWorker_processBatch mem_store (sc_kafka list_produce) 100)
         (sc_w3\<lparr>m_faults := [False, False, True]\<rparr>, [], 0, 0) = ((3, 0), w1) \<and>
     rounds 3 sc_consume w1 w2 \<and>
     map oem_Status (m_outbox (fst w2)) = [''published'', ''published'', ''published''] \<and>
     stored_processed_events (mem_view (fst w2)) = {(5, HandlerName), (4, HandlerName), (2, HandlerName)} \<and>
     kf_committed (world_offsets w2) = length (kf_log (world_offsets w2)) \<and>
     (\<exists>p. stored_orders (mem_view (fst w2)) (OrderID 1) = Some p \<and> p_status p = StatusConfirmed) \<and>
     (\<exists>v. stored_views (mem_view (fst w2)) 1 = Some v \<and> vr_status v = ''DRAFT'') \<and>
     run_state (OutboxWorker_processBatch mem_store (sc_kafka list_produce) 100) w2 = ((0, 0), w2) \<and>
     run_state sc_consume w2 = (True, w2)"
proof (rule exI [of _ "(sc_k1, sc_topic, 0, 0)"], rule exI [of _ "(sc_k4, sc_topic, 3, 3)"], intro conjI)
  show "run_state (OutboxWorker_processBatch mem_store (sc_kafka list_produce) 100)
         (sc_w3\<lparr>m_faults := [False, False, True]\<rparr>, [], 0, 0) = ((3, 0), (sc_k1, sc_topic, 0, 0))"
    unfolding sc_outage_def [symmetric] by (subst sc_kafka_batch_fault) (simp add: sc_message_def)
  show "rounds 3 sc_consume (sc_k1, sc_topic, 0, 0) (sc_k4, sc_topic, 3, 3)"
    using sc_caught by (simp add: numeral_3_eq_3)
qed (use sc_k4_tables sc_rest in \<open>simp_all add: world_offsets_def\<close>)

end
