(* ===== verification/Idempotency_Properties.thy ===== *)
theory Idempotency_Properties imports Event_Stores Scenario begin

text \<open>
  The store of the HTTP idempotency keys: a stored response is found until it expires.
\<close>

context gorm_platform begin

lemma Store_ok:
  assumes "run_state (GormIdempotencyStore_Store E ttl k res) w = (Inr u, w')"
    and "run_state (time_Now E) w = (t1, wa)" "run_state (time_Now E) wa = (t2, wb)"
    and "ir_StatusCode res \<noteq> 0" "ir_ResponseBody res \<noteq> None" "t2 + ttl \<noteq> time_zero"
  shows "\<exists>m. t_idempotency (view w') k = Some m \<and> ik_ResponseStatus m = ir_StatusCode res \<and>
    ik_ResponseBody m = ir_ResponseBody res \<and> ik_ExpiresAt m = t2 + ttl"
proof -
  let ?m = "\<lparr>ik_Key = k, ik_ResponseStatus = ir_StatusCode res, ik_ResponseBody = ir_ResponseBody res,
    ik_CreatedAt = t1, ik_ExpiresAt = t2 + ttl\<rparr>"
  have "run_state (g_AssignFirstOrCreate (pf_idempotency E) (\<lambda>m. ik_Key m = k) ?m) wb = (Inr u, w')"
    using assms(1-3) by (simp add: GormIdempotencyStore_Store_def)
  from idempotency.AssignFirstOrCreate_ok [OF this] obtain r' where
    v: "view w' = (view wb)\<lparr>t_idempotency := (t_idempotency (view wb))(k \<mapsto> r')\<rparr>" and
    s: "stored_idempotency (case t_idempotency (view wb) k of None \<Rightarrow> ?m | Some r0 \<Rightarrow> merge_idempotency ?m r0) r'"
    by auto
  have "ik_ResponseStatus r' = ir_StatusCode res \<and> ik_ResponseBody r' = ir_ResponseBody res \<and> ik_ExpiresAt r' = t2 + ttl"
    using s assms(4-6)
    by (cases r'; cases "t_idempotency (view wb) k")
      (auto simp: stored_idempotency_def merge_idempotency_def nonzero_def split: option.splits)
  then show ?thesis by (simp add: v)
qed

lemma Check_stored:
  assumes "run_state (GormIdempotencyStore_Check E k) w = (Inr r, w')" "run_state (time_Now E) w = (now, wa)"
    and "t_idempotency (view w) k = Some m"
  shows "r = (if now < ik_ExpiresAt m
      then Some \<lparr>ir_StatusCode = ik_ResponseStatus m, ir_ResponseBody = ik_ResponseBody m\<rparr> else None)"
proof -
  let ?P = "\<lambda>m. ik_Key m = k \<and> ik_ExpiresAt m > now"
  obtain f w1 where F: "run_state (g_First (pf_idempotency E) ?P) wa = (f, w1)" by fastforce
  have v: "view wa = view w" using assms(2) by (rule now_pure)
  have key: "ik_Key m = k" by (rule idempotency.table_key [OF assms(3)])
  show ?thesis
  proof (cases f)
    case (Inl e)
    with assms(1,2) F have "e = GormErrRecordNotFound" "r = None"
      by (auto simp: GormIdempotencyStore_Check_def split: if_splits)
    moreover from idempotency.First_err [OF F [unfolded Inl]] this(1)
    have "matching ?P (t_idempotency (view w)) = {}" by (simp add: v)
    then have "\<not> ?P m" using assms(3) by (auto simp: matching_def)
    ultimately show ?thesis using key by simp
  next
    case (Inr x)
    from idempotency.First_ok [OF F [unfolded Inr]] have "t_idempotency (view w) k = Some x" "?P x"
      by (auto simp: v)
    moreover from this assms(3) have "x = m" by simp
    ultimately show ?thesis using assms(1,2) F Inr by (auto simp: GormIdempotencyStore_Check_def)
  qed
qed

end

text \<open>C37: A response with a non-zero status and a body that is not nil, stored under an idempotency key, is
  what a later check of the key returns, as long as the key's row was not touched since and the time
  to live has not passed; once it has passed, the check returns nothing.\<close>

theorem idempotency_roundtrip:
  assumes "gorm_platform E view"
    and "run_state (id_Store (NewGormIdempotencyStore E ttl) k res) w = (Inr u, w1)"
    and "run_state (time_Now E) w = (t1, wa)" "run_state (time_Now E) wa = (t2, wb)"
    and "t_idempotency (view w1') k = t_idempotency (view w1) k"
    and "run_state (id_Check (NewGormIdempotencyStore E ttl) k) w1' = (Inr r, w2)" "run_state (time_Now E) w1' = (now, wc)"
    and "ir_StatusCode res \<noteq> 0" "ir_ResponseBody res \<noteq> None" "t2 + ttl \<noteq> time_zero"
  shows "r = (if now < t2 + ttl then Some res else None)"
proof -
  from gorm_platform.Store_ok [OF assms(1) _ assms(3,4,8,9,10), of k u w1] assms(2,5)
  obtain m where "t_idempotency (view w1') k = Some m" "ik_ResponseStatus m = ir_StatusCode res"
    "ik_ResponseBody m = ir_ResponseBody res" "ik_ExpiresAt m = t2 + ttl"
    by (auto simp: NewGormIdempotencyStore_def)
  with gorm_platform.Check_stored [OF assms(1) _ assms(7) this(1), of r w2] assms(6) show ?thesis
    by (simp add: NewGormIdempotencyStore_def)
qed

definition sc_result :: IdempotencyResult where
  "sc_result = \<lparr>ir_StatusCode = 201, ir_ResponseBody = Some (JObj [''order_id'' \<mapsto> JStr ''u''])\<rparr>"

lemma sc_store_key:
  "run_state (id_Store (NewGormIdempotencyStore mem_platform 10) ''k'' sc_result) mem_empty =
     (Inr (), mem_empty\<lparr>m_clock := 3, m_idempotency := [\<lparr>ik_Key = ''k'', ik_ResponseStatus = 201,
        ik_ResponseBody = ir_ResponseBody sc_result, ik_CreatedAt = 1, ik_ExpiresAt = 12\<rparr>]\<rparr>)"
  by (simp add: NewGormIdempotencyStore_def GormIdempotencyStore_Store_def mem_eval sc_result_def)

theorem idempotency_roundtrip_witness:
  "fst (run_state (id_Check (NewGormIdempotencyStore mem_platform 10) ''k'')
     (snd (run_state (id_Store (NewGormIdempotencyStore mem_platform 10) ''k'' sc_result) mem_empty))) = Inr (Some sc_result)"
proof -
  let ?w1 = "mem_empty\<lparr>m_clock := 3, m_idempotency := [\<lparr>ik_Key = ''k'', ik_ResponseStatus = 201,
        ik_ResponseBody = ir_ResponseBody sc_result, ik_CreatedAt = 1, ik_ExpiresAt = 12\<rparr>]\<rparr>"
  have "\<exists>r w2. run_state (id_Check (NewGormIdempotencyStore mem_platform 10) ''k'') ?w1 = (Inr r, w2)"
    by (simp add: NewGormIdempotencyStore_def GormIdempotencyStore_Check_def mem_eval)
  then obtain r w2 where c: "run_state (id_Check (NewGormIdempotencyStore mem_platform 10) ''k'') ?w1 = (Inr r, w2)" by blast
  have "r = (if 3 < (2 :: time) + 10 then Some sc_result else None)"
    by (rule idempotency_roundtrip [OF mem.gorm_platform_axioms sc_store_key _ _ refl c, of 1 "mem_empty\<lparr>m_clock := 2\<rparr>"
          2 "mem_empty\<lparr>m_clock := 3\<rparr>" 3 "?w1\<lparr>m_clock := 4\<rparr>"])
      (simp_all add: mem_eval sc_result_def)
  with c show ?thesis by (simp add: sc_store_key)
qed

end
