(* ===== verification/Queries.thy ===== *)
theory Queries imports Ports begin

text \<open>
  The query side of the application: the response types (\<^verbatim>\<open>application/dto/dto.go\<close>) and the
  two query handlers (\<^verbatim>\<open>application/query/*.go\<close>), over any read model store.
\<close>

section \<open>Responses\<close>

record OrderItemResponse =
  oir_ID :: string
  oir_ProductID :: string
  oir_ProductName :: string
  oir_Quantity :: go_int
  oir_UnitPrice :: int64
  oir_TotalPrice :: int64

record OrderResponse =
  or_ID :: string
  or_CustomerID :: string
  or_Status :: string
  or_TotalAmount :: int64
  or_ItemCount :: go_int
  or_Items :: "OrderItemResponse list"
  or_CreatedAt :: time
  or_UpdatedAt :: time

record PaginatedOrdersResponse =
  pr_Orders :: "OrderResponse list"
  pr_TotalCount :: int64
  pr_Page :: go_int
  pr_PageSize :: go_int

section \<open>One order\<close>

record GetOrderByID =
  gq_OrderID :: string

definition item_response :: "('w, 'z) runtime_scheme \<Rightarrow> OrderItemView \<Rightarrow> OrderItemResponse" where
  "item_response R v =
     \<lparr>oir_ID = uuid_String R (iv_ID v), oir_ProductID = iv_ProductID v, oir_ProductName = iv_ProductName v,
      oir_Quantity = iv_Quantity v, oir_UnitPrice = iv_UnitPrice v, oir_TotalPrice = iv_TotalPrice v\<rparr>"

definition order_response ::
  "('w, 'z) runtime_scheme \<Rightarrow> OrderView \<Rightarrow> OrderItemResponse list \<Rightarrow> OrderResponse" where
  "order_response R v items =
     \<lparr>or_ID = uuid_String R (ov_ID v), or_CustomerID = uuid_String R (ov_CustomerID v), or_Status = ov_Status v,
      or_TotalAmount = ov_TotalAmount v, or_ItemCount = ov_ItemCount v, or_Items = items,
      or_CreatedAt = ov_CreatedAt v, or_UpdatedAt = ov_UpdatedAt v\<rparr>"

definition GetOrderHandler_Handle ::
  "('w, 'z) runtime_scheme \<Rightarrow> 'w ReadModelStore \<Rightarrow> GetOrderByID \<Rightarrow> ('w, go_error + OrderResponse) state" where
  "GetOrderHandler_Handle R rm q =
     (case uuid_Parse R (gq_OrderID q) of
        Inl err \<Rightarrow> ret (Inl (ErrWrap ''invalid order id: '' err))
      | Inr i \<Rightarrow> do {
          r \<leftarrow> rm_GetOrderByID rm i;
          case r of
            Inl err \<Rightarrow> ret (Inl err)
          | Inr (orderView, itemViews) \<Rightarrow>
              ret (Inr (order_response R orderView (map (item_response R) itemViews)))
        })"

section \<open>A page of orders\<close>

record ListOrders =
  lq_CustomerID :: "string option"
  lq_Status :: "string option"
  lq_CreatedFrom :: "time option"
  lq_CreatedTo :: "time option"
  lq_SortBy :: string
  lq_SortDir :: string
  lq_Page :: go_int
  lq_PageSize :: go_int

text \<open>The filter: a customer that does not parse is dropped, the page is clamped.\<close>

definition list_filter :: "('w, 'z) runtime_scheme \<Rightarrow> ListOrders \<Rightarrow> ListOrdersFilter" where
  "list_filter R q =
     \<lparr>fl_CustomerID = (case lq_CustomerID q of None \<Rightarrow> None
        | Some s \<Rightarrow> (case uuid_Parse R s of Inl _ \<Rightarrow> None | Inr i \<Rightarrow> Some i)),
      fl_Status = lq_Status q, fl_CreatedFrom = lq_CreatedFrom q, fl_CreatedTo = lq_CreatedTo q,
      fl_SortBy = lq_SortBy q, fl_SortDir = lq_SortDir q,
      fl_Page = (if sint (lq_Page q) < 1 then 1 else lq_Page q),
      fl_PageSize = (if sint (lq_PageSize q) < 1 \<or> sint (lq_PageSize q) > 100 then 20 else lq_PageSize q)\<rparr>"

definition ListOrdersHandler_Handle ::
  "('w, 'z) runtime_scheme \<Rightarrow> 'w ReadModelStore \<Rightarrow> ListOrders \<Rightarrow> ('w, go_error + PaginatedOrdersResponse) state" where
  "ListOrdersHandler_Handle R rm q = do {
     r \<leftarrow> rm_ListOrders rm (list_filter R q);
     case r of
       Inl err \<Rightarrow> ret (Inl err)
     | Inr result \<Rightarrow> ret (Inr
         \<lparr>pr_Orders = map (\<lambda>ov. order_response R ov []) (po_Orders result), pr_TotalCount = po_TotalCount result,
          pr_Page = po_Page result, pr_PageSize = po_PageSize result\<rparr>)
   }"

lemmas queries_eval [go_defs] = item_response_def order_response_def GetOrderHandler_Handle_def list_filter_def
  ListOrdersHandler_Handle_def

section \<open>The clamped page\<close>

lemma list_filter_bounds:
  "1 \<le> sint (fl_Page (list_filter R q))" "1 \<le> sint (fl_PageSize (list_filter R q))"
  "sint (fl_PageSize (list_filter R q)) \<le> 100"
  by (simp_all add: list_filter_def)

text \<open>The offset is exact until the product leaves the 64-bit range.\<close>

lemma offset_exact:
  assumes "1 \<le> sint (p :: go_int)" "0 \<le> sint s" "(sint p - 1) * sint s < 2 ^ 63"
  shows "sint ((p - 1) * s) = (sint p - 1) * sint s"
proof -
  have p: "sint (p - 1) = sint p - 1"
    using sint_add_exact [of p "- 1"] assms(1) order.strict_trans [OF sint_int64_range(2) [of p], of 9223372036854775809]
    by simp
  have "- (2 ^ 63) \<le> (sint p - 1) * sint s"
    using assms(1,2) by (intro order_trans [OF _ mult_nonneg_nonneg]) simp_all
  then show ?thesis using sint_mult_exact [of "p - 1" s, unfolded p] assms(3) by blast
qed

end
