(* ===== verification/Go_Text.thy ===== *)
theory Go_Text imports Prelude "HOL-Library.Sublist" begin

text \<open>
  What the code uses of \<^verbatim>\<open>strconv\<close> and \<^verbatim>\<open>strings\<close>: decimal text of integers and back,
  prefixes and suffixes.
\<close>

section \<open>Decimal text\<close>

definition digit_char :: "nat \<Rightarrow> char" where
  "digit_char d = ''0123456789'' ! d"

definition digit_value :: "char \<Rightarrow> nat option" where
  "digit_value c = (let n = (of_char c :: nat) in if 48 \<le> n \<and> n \<le> 57 then Some (n - 48) else None)"

fun nat_text :: "nat \<Rightarrow> string" where
  "nat_text n = (if n < 10 then [digit_char n] else nat_text (n div 10) @ [digit_char (n mod 10)])"

declare nat_text.simps [simp del]

text \<open>\<^verbatim>\<open>strconv.Itoa\<close>, which is also how \<^verbatim>\<open>%v\<close> prints an integer.\<close>

definition Itoa :: "int64 \<Rightarrow> string" where
  "Itoa x = (if sint x < 0 then ''-'' @ nat_text (nat (- sint x)) else nat_text (nat (sint x)))"

fun digits_value :: "string \<Rightarrow> nat \<Rightarrow> nat option" where
  "digits_value [] acc = Some acc"
| "digits_value (c # cs) acc = (case digit_value c of None \<Rightarrow> None | Some d \<Rightarrow> digits_value cs (acc * 10 + d))"

text \<open>\<^verbatim>\<open>strconv.Atoi\<close>: an optional sign, decimal digits, and a value that fits.\<close>

definition Atoi :: "string \<Rightarrow> go_int option" where
  "Atoi s =
     (let neg = (case s of c # _ \<Rightarrow> c = CHR ''-'' | [] \<Rightarrow> False);
          ds = (case s of c # cs \<Rightarrow> if c = CHR ''-'' \<or> c = CHR ''+'' then cs else s | [] \<Rightarrow> s)
      in if ds = [] then None
         else (case digits_value ds 0 of None \<Rightarrow> None
           | Some n \<Rightarrow> let z = (if neg then - int n else int n) in
               if - (2 ^ 63) \<le> z \<and> z < 2 ^ 63 then Some (word_of_int z) else None))"

definition HasPrefix :: "string \<Rightarrow> string \<Rightarrow> bool" where
  "HasPrefix s p \<longleftrightarrow> take (length p) s = p"

definition HasSuffix :: "string \<Rightarrow> string \<Rightarrow> bool" where
  "HasSuffix s p \<longleftrightarrow> HasPrefix (rev s) (rev p)"

definition TrimPrefix :: "string \<Rightarrow> string \<Rightarrow> string" where
  "TrimPrefix s p = (if HasPrefix s p then drop (length p) s else s)"

lemmas go_text_eval [go_defs] = digit_char_def digit_value_def Itoa_def Atoi_def HasPrefix_def HasSuffix_def TrimPrefix_def

lemma HasPrefix_iff: "HasPrefix s p \<longleftrightarrow> prefix p s"
  by (metis HasPrefix_def prefix_def append_eq_conv_conj append_take_drop_id)

section \<open>Printing and parsing\<close>

lemma digit_value_char: "d < 10 \<Longrightarrow> digit_value (digit_char d) = Some d"
  by (auto simp: digit_value_def digit_char_def less_Suc_eq numeral_eq_Suc)

lemma digits_value_append:
  "digits_value (xs @ ys) acc = (case digits_value xs acc of None \<Rightarrow> None | Some n \<Rightarrow> digits_value ys n)"
  by (induction xs arbitrary: acc) (auto split: option.splits)

lemma digits_value_nat_text: "digits_value (nat_text n) 0 = Some n"
proof (induction n rule: nat_text.induct)
  case (1 n)
  show ?case
    by (subst nat_text.simps) (use 1 in \<open>auto simp: digits_value_append digit_value_char\<close>)
qed

lemma digit_char_not_sign: "d < 10 \<Longrightarrow> digit_char d \<noteq> CHR ''-'' \<and> digit_char d \<noteq> CHR ''+''"
  by (auto simp: digit_char_def less_Suc_eq numeral_eq_Suc)

lemma nat_text_Cons: "\<exists>c cs. nat_text n = c # cs \<and> c \<noteq> CHR ''-'' \<and> c \<noteq> CHR ''+''"
proof (induction n rule: nat_text.induct)
  case (1 n)
  show ?case
  proof (cases "n < 10")
    case True
    then show ?thesis using digit_char_not_sign by (subst nat_text.simps) simp
  next
    case False
    with 1 obtain c cs where "nat_text (n div 10) = c # cs" "c \<noteq> CHR ''-''" "c \<noteq> CHR ''+''" by blast
    with False show ?thesis by (subst nat_text.simps) simp
  qed
qed

lemma Atoi_Itoa: "Atoi (Itoa x) = Some x"
proof -
  obtain c cs where c: "nat_text (nat \<bar>sint x\<bar>) = c # cs" "c \<noteq> CHR ''-''" "c \<noteq> CHR ''+''"
    using nat_text_Cons by blast
  have v: "digits_value (c # cs) 0 = Some (nat \<bar>sint x\<bar>)" using digits_value_nat_text [of "nat \<bar>sint x\<bar>"] c(1) by simp
  have "- (2 ^ 63) \<le> sint x \<and> sint x < 2 ^ 63" using sint_int64_bounds [of x] by simp
  with c v show ?thesis
    by (cases "sint x < 0") (simp_all add: Atoi_def Itoa_def Let_def abs_if del: digits_value.simps)
qed

end
