(* ===== verification/Telemetry.thy ===== *)
theory Telemetry imports Domain_Values Go_Text "HOL-Library.AList" begin

text \<open>
  Logging (\<^verbatim>\<open>infrastructure/observability/*.go\<close>): the cores that the service stacks on zap,
  which print a line, store it in the database, and send it to an OpenTelemetry collector, and how
  they are flushed.  The encoder, the sinks and the collector's client are the world's.
\<close>

section \<open>Levels\<close>

datatype level = DebugLevel | InfoLevel | WarnLevel | ErrorLevel | DPanicLevel | PanicLevel | FatalLevel

fun level_num :: "level \<Rightarrow> int" where
  "level_num DebugLevel = -1"
| "level_num InfoLevel = 0"
| "level_num WarnLevel = 1"
| "level_num ErrorLevel = 2"
| "level_num DPanicLevel = 3"
| "level_num PanicLevel = 4"
| "level_num FatalLevel = 5"

instantiation level :: linorder
begin

definition less_eq_level :: "level \<Rightarrow> level \<Rightarrow> bool" where
  "less_eq_level l k \<longleftrightarrow> level_num l \<le> level_num k"

definition less_level :: "level \<Rightarrow> level \<Rightarrow> bool" where
  "less_level l k \<longleftrightarrow> level_num l < level_num k"

instance
proof
  fix l k :: level
  show "l \<le> k \<Longrightarrow> k \<le> l \<Longrightarrow> l = k" by (cases l; cases k) (simp_all add: less_eq_level_def)
qed (auto simp: less_eq_level_def less_level_def)

end

lemma level_le [simp]:
  "InfoLevel \<le> WarnLevel" "InfoLevel \<le> ErrorLevel" "DebugLevel \<le> l" "ErrorLevel \<le> WarnLevel \<longleftrightarrow> False"
  "ErrorLevel \<le> InfoLevel \<longleftrightarrow> False"
  by (cases l; simp add: less_eq_level_def)+

fun level_text :: "level \<Rightarrow> string" where
  "level_text DebugLevel = ''debug''"
| "level_text InfoLevel = ''info''"
| "level_text WarnLevel = ''warn''"
| "level_text ErrorLevel = ''error''"
| "level_text DPanicLevel = ''dpanic''"
| "level_text PanicLevel = ''panic''"
| "level_text FatalLevel = ''fatal''"

definition config_level :: "string \<Rightarrow> level" where
  "config_level s =
     (if s = ''debug'' then DebugLevel else if s = ''warn'' then WarnLevel
      else if s = ''error'' then ErrorLevel else InfoLevel)"

section \<open>Fields\<close>

text \<open>
  The dynamic types a field's value may have.  \<open>FInt\<close> stands for the integer types that fit into
  \<^verbatim>\<open>int64\<close>, \<open>FUint\<close> for \<^verbatim>\<open>uint\<close> and \<^verbatim>\<open>uint64\<close>; a float is kept as its text, and \<open>FOther\<close>
  is any other value as \<^verbatim>\<open>fmt.Sprint\<close> prints it.  \<open>FNamespace\<close> is no value: it opens a map of its
  name for the fields after it.
\<close>

datatype field =
    FStr string
  | FBool bool
  | FInt int
  | FUint "64 word"
  | FFloat string
  | FBytes string
  | FError go_error
  | FStrs "string list"
  | FMap "(string \<times> field) list"
  | FOther string
  | FNamespace

type_synonym fields = "(string \<times> field) list"

text \<open>zap's map encoder: the last field of a name stays, an error becomes its text.\<close>

fun encode_field :: "field \<Rightarrow> field" where
  "encode_field (FError e) = FStr (error_text e)"
| "encode_field v = v"

fun encode_into :: "fields \<Rightarrow> fields \<Rightarrow> fields" where
  "encode_into m [] = m"
| "encode_into m ((k, v) # fs) =
     (if v = FNamespace then AList.update k (FMap (encode_into [] fs)) m
      else encode_into (AList.update k (encode_field v) m) fs)"

definition map_encoder :: "fields \<Rightarrow> fields" where
  "map_encoder fs = encode_into [] fs"

definition string_field :: "fields \<Rightarrow> string \<Rightarrow> string" where
  "string_field m k = (case map_of m k of Some (FStr s) \<Rightarrow> s | _ \<Rightarrow> '''')"

text \<open>What the sugared logger is asked to log, and the entry zap makes of it.\<close>

record log_record =
  lg_Level :: level
  lg_Message :: string
  lg_Fields :: fields

record entry =
  en_Level :: level
  en_Time :: time
  en_LoggerName :: string
  en_Message :: string
  en_Caller :: "(string \<times> nat) option"
  en_Stack :: string

section \<open>The database hook\<close>

text \<open>Time, level, message, logger, caller, trace, correlation and fields.\<close>

type_synonym 'w save_log =
  "time \<Rightarrow> string \<Rightarrow> string \<Rightarrow> string \<Rightarrow> string \<Rightarrow> string \<Rightarrow> string \<Rightarrow> fields \<Rightarrow> ('w, go_error + unit) state"

definition caller_text :: "(string \<times> nat) option \<Rightarrow> string" where
  "caller_text c = (case c of None \<Rightarrow> ''undefined'' | Some (path, line) \<Rightarrow> path @ '':'' @ nat_text line)"

definition Hook :: "'w save_log option \<Rightarrow> entry \<Rightarrow> fields \<Rightarrow> ('w, go_error + unit) state" where
  "Hook saveLog en fs =
     (case saveLog of
        None \<Rightarrow> ret (Inr ())
      | Some save \<Rightarrow>
          let fieldsMap = map_encoder fs in
          save (en_Time en) (level_text (en_Level en)) (en_Message en) (en_LoggerName en) (caller_text (en_Caller en))
            (string_field fieldsMap ''trace_id'') (string_field fieldsMap ''correlation_id'') fieldsMap)"

text \<open>Every hook runs; a hook's error is dropped.\<close>

fun run_hooks :: "'w save_log option list \<Rightarrow> entry \<Rightarrow> fields \<Rightarrow> ('w, unit) state" where
  "run_hooks [] en fs = ret ()"
| "run_hooks (h # hs) en fs = do { r \<leftarrow> Hook h en fs; run_hooks hs en fs }"

section \<open>Records for the collector\<close>

datatype severity = SeverityDebug | SeverityInfo | SeverityWarn | SeverityError | SeverityFatal

fun zapLevelToOTelSeverity :: "level \<Rightarrow> severity" where
  "zapLevelToOTelSeverity DebugLevel = SeverityDebug"
| "zapLevelToOTelSeverity InfoLevel = SeverityInfo"
| "zapLevelToOTelSeverity WarnLevel = SeverityWarn"
| "zapLevelToOTelSeverity ErrorLevel = SeverityError"
| "zapLevelToOTelSeverity DPanicLevel = SeverityError"
| "zapLevelToOTelSeverity PanicLevel = SeverityError"
| "zapLevelToOTelSeverity FatalLevel = SeverityFatal"

datatype otel_value =
    OString string
  | OBool bool
  | OInt64 int
  | OFloat64 string
  | OBytes string
  | OSlice "otel_value list"
  | OMap "(string \<times> otel_value) list"

text \<open>The conversion of an unsigned integer to \<^verbatim>\<open>int64\<close> keeps the bits.\<close>

fun otelKeyValue :: "field \<Rightarrow> otel_value" where
  "otelKeyValue (FStr s) = OString s"
| "otelKeyValue (FBool b) = OBool b"
| "otelKeyValue (FInt i) = OInt64 i"
| "otelKeyValue (FUint u) = OInt64 (sint u)"
| "otelKeyValue (FFloat s) = OFloat64 s"
| "otelKeyValue (FBytes s) = OBytes s"
| "otelKeyValue (FError e) = OString (error_text e)"
| "otelKeyValue (FStrs ss) = OSlice (map OString ss)"
| "otelKeyValue (FMap kvs) = OMap (map (\<lambda>(k, v). (k, otelKeyValue v)) kvs)"
| "otelKeyValue (FOther s) = OString s"
| "otelKeyValue FNamespace = OMap []"

record otel_record =
  or_Timestamp :: time
  or_ObservedTimestamp :: time
  or_Severity :: severity
  or_SeverityText :: string
  or_Body :: string
  or_Attributes :: "(string \<times> otel_value) list"
  or_Span :: "(string \<times> string) option"

text \<open>The collector's client, the clock, and the parsers of trace and span identifiers.\<close>

record 'w otel_client =
  ot_Emit :: "otel_record \<Rightarrow> ('w, unit) state"
  ot_Now :: "('w, time) state"
  ot_TraceIDFromHex :: "string \<Rightarrow> string option"
  ot_SpanIDFromHex :: "string \<Rightarrow> string option"

definition spanContextFromFields :: "'w otel_client \<Rightarrow> fields \<Rightarrow> (string \<times> string) option" where
  "spanContextFromFields C m =
     (if string_field m ''trace_id'' = '''' \<or> string_field m ''span_id'' = '''' then None
      else (case ot_TraceIDFromHex C (string_field m ''trace_id'') of
        None \<Rightarrow> None
      | Some traceID \<Rightarrow> (case ot_SpanIDFromHex C (string_field m ''span_id'') of
            None \<Rightarrow> None
          | Some spanID \<Rightarrow> Some (traceID, spanID))))"

text \<open>The order of the attributes that come from the map is not fixed by the code.\<close>

definition otel_attributes :: "entry \<Rightarrow> fields \<Rightarrow> (string \<times> otel_value) list" where
  "otel_attributes en m =
     map (\<lambda>(k, v). (k, otelKeyValue v)) m @
     (if en_LoggerName en \<noteq> '''' then [(''logger'', OString (en_LoggerName en))] else []) @
     (case en_Caller en of None \<Rightarrow> []
      | Some (path, line) \<Rightarrow> [(''code.file.path'', OString path), (''code.line.number'', OInt64 (int line))]) @
     (if en_Stack en \<noteq> '''' then [(''stacktrace'', OString (en_Stack en))] else [])"

definition otel_Write :: "'w otel_client \<Rightarrow> entry \<Rightarrow> fields \<Rightarrow> ('w, go_error + unit) state" where
  "otel_Write C en allFields =
     (let m = map_encoder allFields in do {
        now \<leftarrow> ot_Now C;
        ot_Emit C \<lparr>or_Timestamp = en_Time en, or_ObservedTimestamp = now,
          or_Severity = zapLevelToOTelSeverity (en_Level en), or_SeverityText = level_text (en_Level en),
          or_Body = en_Message en, or_Attributes = otel_attributes en m, or_Span = spanContextFromFields C m\<rparr>;
        ret (Inr ())
      })"

section \<open>Cores\<close>

text \<open>Where the lines of zap's own core go, and how they are flushed.\<close>

record 'w line_sink =
  ls_Write :: "entry \<Rightarrow> fields \<Rightarrow> ('w, go_error + unit) state"
  ls_Sync :: "('w, go_error + unit) state"

text \<open>
  zap's own core, which prints what \<^verbatim>\<open>With\<close> collected and the fields of the call; the core with
  hooks; the core for the collector; and zap's tee.
\<close>

datatype 'w core =
    SinkCore level fields "'w line_sink"
  | HookedCore "'w core" "'w save_log option list"
  | OtelCore "'w otel_client" level fields
  | TeeCore "'w core list"

fun Enabled :: "'w core \<Rightarrow> level \<Rightarrow> bool" where
  "Enabled (SinkCore lvl own sink) l \<longleftrightarrow> lvl \<le> l"
| "Enabled (HookedCore c hooks) l \<longleftrightarrow> Enabled c l"
| "Enabled (OtelCore C lvl own) l \<longleftrightarrow> lvl \<le> l"
| "Enabled (TeeCore cs) l \<longleftrightarrow> (\<exists>c \<in> set cs. Enabled c l)"

fun With :: "'w core \<Rightarrow> fields \<Rightarrow> 'w core" where
  "With (SinkCore lvl own sink) fs = SinkCore lvl (own @ fs) sink"
| "With (HookedCore c hooks) fs = HookedCore (With c fs) hooks"
| "With (OtelCore C lvl own) fs = OtelCore C lvl (own @ fs)"
| "With (TeeCore cs) fs = TeeCore (map (\<lambda>c. With c fs) cs)"

fun Write :: "'w core \<Rightarrow> entry \<Rightarrow> fields \<Rightarrow> ('w, go_error + unit) state"
  and Write_all :: "'w core list \<Rightarrow> entry \<Rightarrow> fields \<Rightarrow> ('w, go_error + unit) state" where
  "Write (SinkCore lvl own sink) en fs = ls_Write sink en (own @ fs)"
| "Write (HookedCore c hooks) en fs = do {
     r \<leftarrow> Write c en fs;
     case r of
       Inl err \<Rightarrow> ret (Inl err)
     | Inr _ \<Rightarrow> do { run_hooks hooks en fs; ret (Inr ()) }
   }"
| "Write (OtelCore C lvl own) en fs = otel_Write C en (own @ fs)"
| "Write (TeeCore cs) en fs = Write_all cs en fs"
| "Write_all [] en fs = ret (Inr ())"
| "Write_all (c # cs) en fs = do {
     r \<leftarrow> Write c en fs;
     rs \<leftarrow> Write_all cs en fs;
     ret (case r of Inl err \<Rightarrow> Inl err | Inr _ \<Rightarrow> rs)
   }"

text \<open>Flushing: the core for the collector has nothing to flush; a tee flushes all of its cores.\<close>

fun Sync :: "'w core \<Rightarrow> ('w, go_error + unit) state"
  and Sync_all :: "'w core list \<Rightarrow> ('w, go_error + unit) state" where
  "Sync (SinkCore lvl own sink) = ls_Sync sink"
| "Sync (HookedCore c hooks) = Sync c"
| "Sync (OtelCore C lvl own) = ret (Inr ())"
| "Sync (TeeCore cs) = Sync_all cs"
| "Sync_all [] = ret (Inr ())"
| "Sync_all (c # cs) = do {
     r \<leftarrow> Sync c;
     rs \<leftarrow> Sync_all cs;
     ret (case r of Inl err \<Rightarrow> Inl err | Inr _ \<Rightarrow> rs)
   }"

text \<open>The cores that take an entry: every core of the service adds itself when it is enabled.\<close>

fun Check :: "'w core \<Rightarrow> level \<Rightarrow> 'w core list" where
  "Check (TeeCore cs) l = concat (map (\<lambda>c. Check c l) cs)"
| "Check c l = (if Enabled c l then [c] else [])"

section \<open>The logger\<close>

fun write_checked :: "'w core list \<Rightarrow> entry \<Rightarrow> fields \<Rightarrow> ('w, unit) state" where
  "write_checked [] en fs = ret ()"
| "write_checked (c # cs) en fs = do { r \<leftarrow> Write c en fs; write_checked cs en fs }"

text \<open>
  The sugared logger's \<^verbatim>\<open>Infow\<close> and its siblings.  \<open>caller\<close> and \<open>stack\<close> are what zap finds on
  the stack; the stack is attached from the error level on.
\<close>

definition Logw ::
  "('w, 'z) runtime_scheme \<Rightarrow> (string \<times> nat) option \<Rightarrow> string \<Rightarrow> 'w core \<Rightarrow> log_record \<Rightarrow> ('w, unit) state" where
  "Logw R caller stack c r =
     (if \<not> Enabled c (lg_Level r) then ret ()
      else do {
        now \<leftarrow> time_Now R;
        write_checked (Check c (lg_Level r))
          \<lparr>en_Level = lg_Level r, en_Time = now, en_LoggerName = '''', en_Message = lg_Message r, en_Caller = caller,
           en_Stack = (if ErrorLevel \<le> lg_Level r then stack else '''')\<rparr> (lg_Fields r)
      })"

text \<open>
  What zap's JSON encoder is told; its encoders of levels, times, durations and callers go by the
  names they have in \<^verbatim>\<open>zapcore\<close>.
\<close>

record EncoderConfig =
  ec_TimeKey :: string
  ec_LevelKey :: string
  ec_NameKey :: string
  ec_CallerKey :: string
  ec_FunctionKey :: string
  ec_MessageKey :: string
  ec_StacktraceKey :: string
  ec_LineEnding :: string
  ec_EncodeLevel :: string
  ec_EncodeTime :: string
  ec_EncodeDuration :: string
  ec_EncodeCaller :: string

definition encoderConfig :: EncoderConfig where
  "encoderConfig =
     \<lparr>ec_TimeKey = ''timestamp'', ec_LevelKey = ''level'', ec_NameKey = ''logger'', ec_CallerKey = ''caller'',
      ec_FunctionKey = ''function'', ec_MessageKey = ''msg'', ec_StacktraceKey = ''stacktrace'',
      ec_LineEnding = [CHR 0x0A], ec_EncodeLevel = ''LowercaseLevelEncoder'',
      ec_EncodeTime = ''ISO8601TimeEncoder'', ec_EncodeDuration = ''SecondsDurationEncoder'',
      ec_EncodeCaller = ''ShortCallerEncoder''\<rparr>"

text \<open>
  A line goes to the standard output and, when a path is given, to the file.  \<open>encode\<close> is zap's JSON
  encoder; \<open>openFile\<close> makes the directory and opens the file, either of which may fail.
\<close>

record 'w write_syncer =
  ws_Write :: "string \<Rightarrow> ('w, go_error + unit) state"
  ws_Sync :: "('w, go_error + unit) state"

definition in_turn :: "('w, go_error + unit) state \<Rightarrow> ('w, go_error + unit) state \<Rightarrow> ('w, go_error + unit) state" where
  "in_turn a b = do {
     r \<leftarrow> a;
     s \<leftarrow> b;
     ret (case r of Inl err \<Rightarrow> Inl err | Inr _ \<Rightarrow> s)
   }"

definition both_sinks :: "'w write_syncer \<Rightarrow> 'w write_syncer \<Rightarrow> 'w write_syncer" where
  "both_sinks a b =
     \<lparr>ws_Write = (\<lambda>line. in_turn (ws_Write a line) (ws_Write b line)), ws_Sync = in_turn (ws_Sync a) (ws_Sync b)\<rparr>"

definition line_sink_to :: "(entry \<Rightarrow> fields \<Rightarrow> go_error + string) \<Rightarrow> 'w write_syncer \<Rightarrow> 'w line_sink" where
  "line_sink_to encode out =
     \<lparr>ls_Write = (\<lambda>en fs. case encode en fs of Inl err \<Rightarrow> ret (Inl err) | Inr line \<Rightarrow> ws_Write out line),
      ls_Sync = ws_Sync out\<rparr>"

definition NewLogger ::
  "(EncoderConfig \<Rightarrow> entry \<Rightarrow> fields \<Rightarrow> go_error + string) \<Rightarrow> (string \<Rightarrow> go_error + 'w write_syncer) \<Rightarrow>
   'w write_syncer \<Rightarrow> string \<Rightarrow> string \<Rightarrow> go_error + 'w core" where
  "NewLogger encode openFile stdout level filePath =
     (let core = (\<lambda>out. SinkCore (config_level level) [] (line_sink_to (encode encoderConfig) out)) in
      if filePath \<noteq> '''' then
        (case openFile filePath of
           Inl err \<Rightarrow> Inl err
         | Inr file \<Rightarrow> Inr (core (both_sinks stdout file)))
      else Inr (core stdout))"

definition LoggerWithDatabasePersistence :: "'w core \<Rightarrow> 'w save_log option list \<Rightarrow> 'w core" where
  "LoggerWithDatabasePersistence c hooks = HookedCore c hooks"

definition WrapWithDatabaseLogging :: "'w core \<Rightarrow> 'w save_log option \<Rightarrow> 'w core" where
  "WrapWithDatabaseLogging logger save = (case save of None \<Rightarrow> logger | Some _ \<Rightarrow> logger)"

lemmas telemetry_eval [go_defs] = config_level_def map_encoder_def string_field_def caller_text_def Hook_def
  spanContextFromFields_def otel_attributes_def otel_Write_def Logw_def encoderConfig_def in_turn_def both_sinks_def line_sink_to_def NewLogger_def
  LoggerWithDatabasePersistence_def WrapWithDatabaseLogging_def

section \<open>Endpoints of collectors\<close>

definition is_space :: "char \<Rightarrow> bool" where
  "is_space c \<longleftrightarrow> of_char c \<in> {9, 10, 11, 12, 13, 32 :: nat}"

text \<open>\<^verbatim>\<open>strings.TrimSpace\<close> on ASCII; \<open>urlHost\<close> is \<^verbatim>\<open>url.Parse\<close> followed by the selection of the host.\<close>

definition TrimSpace :: "string \<Rightarrow> string" where
  "TrimSpace s = rev (dropWhile is_space (rev (dropWhile is_space s)))"

definition normalizeOTLPEndpoint :: "(string \<Rightarrow> go_error + string) \<Rightarrow> string \<Rightarrow> go_error + string" where
  "normalizeOTLPEndpoint urlHost endpoint0 =
     (let endpoint = TrimSpace endpoint0 in
      if endpoint = '''' then Inr ''''
      else if sublist ''://'' endpoint then
        (case urlHost endpoint of
           Inl err \<Rightarrow> Inl err
         | Inr host \<Rightarrow> if host = '''' then Inl (ErrText (''missing host in endpoint '' @ go_quote endpoint)) else Inr host)
      else Inr endpoint)"

text \<open>
  The logger with the collector beside it and the clean-up function; without an endpoint it stays
  as it is.  \<open>newExporter\<close>, \<open>newResource\<close> and \<open>newClient\<close> are the constructors of the
  OpenTelemetry packages, \<open>shutdown\<close> stops the provider made of an exporter.
\<close>

definition InitSigNozLogger ::
  "(log_record \<Rightarrow> 'w core \<Rightarrow> ('w, unit) state) \<Rightarrow> (string \<Rightarrow> go_error + string) \<Rightarrow> (string \<Rightarrow> go_error + 'x) \<Rightarrow>
   (string \<Rightarrow> go_error + 'y) \<Rightarrow> ('x \<Rightarrow> 'y \<Rightarrow> 'w otel_client) \<Rightarrow> ('x \<Rightarrow> 'y \<Rightarrow> ('w, go_error + unit) state) \<Rightarrow>
   string \<Rightarrow> string \<Rightarrow> 'w core option \<Rightarrow> ('w, go_error + 'w core option \<times> ('w, unit) state) state" where
  "InitSigNozLogger infow urlHost newExporter newResource newClient shutdown serviceName signozEndpoint existing =
     (if signozEndpoint = '''' then
        (case existing of
           None \<Rightarrow> ret (Inr (None, ret ()))
         | Some c \<Rightarrow> do {
             infow \<lparr>lg_Level = InfoLevel, lg_Message = ''SigNoz logs disabled: no SIGNOZ_OTLP_ENDPOINT configured'',
               lg_Fields = []\<rparr> c;
             ret (Inr (existing, ret ()))
           })
      else (case normalizeOTLPEndpoint urlHost signozEndpoint of
        Inl err \<Rightarrow> ret (Inl (ErrWrap ''normalize SigNoz OTLP endpoint: '' err))
      | Inr endpoint \<Rightarrow> (case newExporter endpoint of
        Inl err \<Rightarrow> ret (Inl (ErrWrap ''create OTLP log exporter: '' err))
      | Inr exporter \<Rightarrow> (case newResource serviceName of
        Inl err \<Rightarrow> ret (Inl (ErrWrap ''create resource: '' err))
      | Inr res \<Rightarrow>
          let otelCore = OtelCore (newClient exporter res) DebugLevel [];
              finalLogger = (case existing of Some c \<Rightarrow> TeeCore [c, otelCore] | None \<Rightarrow> otelCore);
              cleanup = do { _ \<leftarrow> Sync finalLogger; _ \<leftarrow> shutdown exporter res; ret () }
          in do {
            infow \<lparr>lg_Level = InfoLevel, lg_Message = ''SigNoz logs initialized'', lg_Fields =
              [(''endpoint'', FStr endpoint), (''service_name'', FStr serviceName),
               (''status'', FStr ''CHECKING_CONNECTION'')]\<rparr> finalLogger;
            ret (Inr (Some finalLogger, cleanup))
          }))))"

section \<open>GORM's log\<close>

text \<open>GORM's levels are 1 to 4: silent, error, warn, info.\<close>

record 'w GormZapLogger =
  gz_Log :: "log_record \<Rightarrow> ('w, unit) state"
  gz_LogLevel :: nat
  gz_SlowThreshold :: time
  gz_SlowThresholdText :: string
  gz_IgnoreRecordNotFoundError :: bool

definition NewGormLogger :: "(log_record \<Rightarrow> ('w, unit) state) \<Rightarrow> 'w GormZapLogger" where
  "NewGormLogger log =
     \<lparr>gz_Log = log, gz_LogLevel = 3, gz_SlowThreshold = 200 * 1000, gz_SlowThresholdText = ''200ms'',
      gz_IgnoreRecordNotFoundError = True\<rparr>"

definition LogMode :: "'w GormZapLogger \<Rightarrow> nat \<Rightarrow> 'w GormZapLogger" where
  "LogMode l level = l\<lparr>gz_LogLevel := level\<rparr>"

definition gorm_print :: "'w GormZapLogger \<Rightarrow> nat \<Rightarrow> level \<Rightarrow> string \<Rightarrow> ('w, unit) state" where
  "gorm_print l from lvl msg =
     (if gz_LogLevel l \<ge> from then gz_Log l \<lparr>lg_Level = lvl, lg_Message = msg, lg_Fields = []\<rparr> else ret ())"

text \<open>One statement that took \<open>elapsed\<close>, with the span and the correlation of its context.\<close>

definition gorm_Trace ::
  "'w GormZapLogger \<Rightarrow> time \<Rightarrow> (string \<times> string) option \<Rightarrow> string \<Rightarrow> string \<Rightarrow> int64 \<Rightarrow> go_error option \<Rightarrow> ('w, unit) state" where
  "gorm_Trace l elapsed span correlationID sql rows err =
     (if gz_LogLevel l \<le> 1 then ret ()
      else let fs = [(''elapsed_ms'', FInt (sgn elapsed * (\<bar>elapsed\<bar> div 1000)))] @
          (case span of None \<Rightarrow> [] | Some (traceID, spanID) \<Rightarrow> [(''trace_id'', FStr traceID), (''span_id'', FStr spanID)]) @
          (if correlationID \<noteq> '''' then [(''correlation_id'', FStr correlationID)] else [])
        in
        if (case err of None \<Rightarrow> False | Some e \<Rightarrow> gz_LogLevel l \<ge> 2 \<and>
            (\<not> errors_is e GormErrRecordNotFound \<or> \<not> gz_IgnoreRecordNotFoundError l))
        then gz_Log l \<lparr>lg_Level = ErrorLevel, lg_Message = ''database error'',
          lg_Fields = fs @ [(''error'', FError (the err)), (''rows'', FInt (sint rows)), (''sql'', FStr sql)]\<rparr>
        else if elapsed > gz_SlowThreshold l \<and> gz_LogLevel l \<ge> 3
        then gz_Log l \<lparr>lg_Level = WarnLevel, lg_Message = ''database slow query'',
          lg_Fields = fs @ [(''rows'', FInt (sint rows)), (''sql'', FStr sql), (''slow_threshold'', FOther (gz_SlowThresholdText l))]\<rparr>
        else if gz_LogLevel l = 4
        then gz_Log l \<lparr>lg_Level = InfoLevel, lg_Message = ''database query'',
          lg_Fields = fs @ [(''rows'', FInt (sint rows)), (''sql'', FStr sql)]\<rparr>
        else ret ())"

lemmas gorm_log_eval [go_defs] = is_space_def TrimSpace_def normalizeOTLPEndpoint_def InitSigNozLogger_def
  NewGormLogger_def LogMode_def gorm_print_def gorm_Trace_def

end
