(* ===== verification/Http.thy ===== *)
theory Http imports Commands Queries Telemetry begin

text \<open>
  The HTTP interface (\<^verbatim>\<open>interfaces/http/error_mapper.go\<close>, \<^verbatim>\<open>request_validator.go\<close>,
  \<^verbatim>\<open>handler.go\<close>): requests are decoded and validated, turned into commands and queries, and
  results and errors into responses.  The router and the JSON printer are outside: a handler
  is a function of the request, and a response carries the value that is printed.  The handlers
  for Gin also write their lines to the logger of the service.
\<close>

section \<open>Requests and responses\<close>

text \<open>
  A request as a handler sees it.  A parameter or header that is absent reads as the empty
  string.  \<open>rq_Body\<close> is what reading the whole body yields,
  \<open>rq_ContentType\<close> its media type as Gin reports it.  \<open>rq_Span\<close> is the trace and span
  of the context, when valid.
\<close>

record http_request =
  rq_Method :: string
  rq_Path :: string
  rq_FullPath :: string
  rq_RawQuery :: string
  rq_Param :: "string \<Rightarrow> string"
  rq_QueryValue :: "string \<Rightarrow> string option"
  rq_Header :: "string \<Rightarrow> string"
  rq_Body :: "go_error + string"
  rq_ContentType :: string
  rq_ClientIP :: string
  rq_Span :: "(string \<times> string) option"
  rq_CorrelationID :: string

record ValidationError =
  ve_Field :: string
  ve_Tag :: string
  ve_Value :: string
  ve_Message :: string

record ErrorResponse =
  er_Code :: string
  er_Message :: string
  er_Details :: "ValidationError list"
  er_TraceID :: string

datatype payload =
    PError ErrorResponse
  | PCreated string
  | PMessage string
  | POrder OrderResponse
  | POrders PaginatedOrdersResponse
  | PPanic string string
  | PStatus string
  | PNotReady string string
  | PFailure string
  | PRequeued int64

record http_response =
  rs_Status :: nat
  rs_Header :: "string \<Rightarrow> string option"
  rs_Body :: payload

definition json_response :: "nat \<Rightarrow> payload \<Rightarrow> http_response" where
  "json_response status body =
     \<lparr>rs_Status = status, rs_Header = [''Content-Type'' \<mapsto> ''application/json''], rs_Body = body\<rparr>"

text \<open>The libraries: the JSON parser, the media type parser, the validator's \<^verbatim>\<open>uuid\<close> tag, and the printer.\<close>

record http_libs =
  hl_DecodeJSON :: "string \<Rightarrow> json option"
  hl_ParseMediaType :: "string \<Rightarrow> string option"
  hl_IsUUID :: "string \<Rightarrow> bool"
  hl_Render :: "payload \<Rightarrow> string"

section \<open>Errors\<close>

definition mapError :: "go_error \<Rightarrow> string \<times> nat \<times> string" where
  "mapError err =
     (if errors_is err ErrOrderNotFound then (''ORDER_NOT_FOUND'', 404, error_text err)
      else if errors_is err ErrItemNotFound then (''ITEM_NOT_FOUND'', 404, error_text err)
      else if errors_is err ErrOrderNotModifiable then (''ORDER_NOT_MODIFIABLE'', 409, error_text err)
      else if errors_is err ErrNoItems then (''NO_ITEMS'', 422, error_text err)
      else if errors_is err ErrInvalidQuantity then (''INVALID_QUANTITY'', 400, error_text err)
      else if errors_is err ErrInvalidPrice then (''INVALID_PRICE'', 400, error_text err)
      else if errors_is err ErrConcurrencyConflict then (''CONCURRENCY_CONFLICT'', 409, error_text err)
      else if errors_is err ErrInvalidCustomerID then (''INVALID_CUSTOMER_ID'', 400, error_text err)
      else (''INTERNAL_ERROR'', 500, ''An unexpected error occurred''))"

definition writeError :: "http_request \<Rightarrow> nat \<Rightarrow> string \<Rightarrow> string \<Rightarrow> ValidationError list \<Rightarrow> http_response" where
  "writeError rq status code msg details = json_response status (PError
     \<lparr>er_Code = code, er_Message = msg, er_Details = details,
      er_TraceID = (case rq_Span rq of None \<Rightarrow> '''' | Some (trace, span) \<Rightarrow> trace)\<rparr>)"

definition mapAndWriteError :: "http_request \<Rightarrow> go_error \<Rightarrow> http_response" where
  "mapAndWriteError rq err = (case mapError err of (code, status, msg) \<Rightarrow> writeError rq status code msg [])"

section \<open>Request bodies\<close>

record CreateOrderRequest =
  crq_CustomerID :: string

record AddItemRequest =
  arq_ProductID :: string
  arq_ProductName :: string
  arq_Quantity :: go_int
  arq_UnitPrice :: int64

text \<open>The keys of a decoded object are the field names, which the parser matches regardless of case.\<close>

definition unmarshal_CreateOrderRequest :: "json \<Rightarrow> go_error + CreateOrderRequest" where
  "unmarshal_CreateOrderRequest j =
     (case decode_object j of Inl e \<Rightarrow> Inl e | Inr m \<Rightarrow>
      case decode_string (m ''customer_id'') of Inl e \<Rightarrow> Inl e | Inr c \<Rightarrow> Inr \<lparr>crq_CustomerID = c\<rparr>)"

definition unmarshal_AddItemRequest :: "json \<Rightarrow> go_error + AddItemRequest" where
  "unmarshal_AddItemRequest j =
     (case decode_object j of Inl e \<Rightarrow> Inl e | Inr m \<Rightarrow>
      case decode_string (m ''product_id'') of Inl e \<Rightarrow> Inl e | Inr pid \<Rightarrow>
      case decode_string (m ''product_name'') of Inl e \<Rightarrow> Inl e | Inr pname \<Rightarrow>
      case decode_int (m ''quantity'') of Inl e \<Rightarrow> Inl e | Inr q \<Rightarrow>
      case decode_int (m ''unit_price'') of Inl e \<Rightarrow> Inl e | Inr u \<Rightarrow>
        Inr \<lparr>arq_ProductID = pid, arq_ProductName = pname, arq_Quantity = q, arq_UnitPrice = u\<rparr>)"

definition decode_body :: "http_libs \<Rightarrow> http_request \<Rightarrow> (json \<Rightarrow> go_error + 'a) \<Rightarrow> go_error + 'a" where
  "decode_body L rq unmarshal =
     (case rq_Body rq of Inl err \<Rightarrow> Inl err
      | Inr s \<Rightarrow> (case hl_DecodeJSON L s of None \<Rightarrow> Inl (ErrJSON ''invalid JSON'') | Some j \<Rightarrow> unmarshal j))"

section \<open>Validation\<close>

text \<open>One error per field: the validator stops at the first tag a field fails.\<close>

definition ValidationError_of :: "string \<Rightarrow> string \<Rightarrow> string \<Rightarrow> ValidationError" where
  "ValidationError_of field tag value =
     \<lparr>ve_Field = field, ve_Tag = tag, ve_Value = value,
      ve_Message = ''Field '' @ [CHR 0x27] @ field @ [CHR 0x27] @ '' failed on '' @ [CHR 0x27] @ tag @ [CHR 0x27] @ '' validation''\<rparr>"

definition Validate_CreateOrderRequest :: "http_libs \<Rightarrow> CreateOrderRequest \<Rightarrow> ValidationError list" where
  "Validate_CreateOrderRequest L r =
     (if crq_CustomerID r = '''' then [ValidationError_of ''CustomerID'' ''required'' '''']
      else if \<not> hl_IsUUID L (crq_CustomerID r) then [ValidationError_of ''CustomerID'' ''uuid'' (crq_CustomerID r)]
      else [])"

definition validate_required :: "string \<Rightarrow> string \<Rightarrow> ValidationError list" where
  "validate_required field v = (if v = '''' then [ValidationError_of field ''required'' ''''] else [])"

definition validate_positive :: "string \<Rightarrow> int64 \<Rightarrow> ValidationError list" where
  "validate_positive field v =
     (if v = 0 then [ValidationError_of field ''required'' (Itoa v)]
      else if \<not> sint v > 0 then [ValidationError_of field ''gt'' (Itoa v)] else [])"

definition Validate_AddItemRequest :: "AddItemRequest \<Rightarrow> ValidationError list" where
  "Validate_AddItemRequest r =
     validate_required ''ProductID'' (arq_ProductID r) @ validate_required ''ProductName'' (arq_ProductName r) @
     validate_positive ''Quantity'' (arq_Quantity r) @ validate_positive ''UnitPrice'' (arq_UnitPrice r)"

section \<open>The handlers\<close>

record 'w Handler =
  h_createOrder :: "CreateOrder \<Rightarrow> ('w, go_error + string) state"
  h_addItem :: "AddItemToOrder \<Rightarrow> ('w, go_error + unit) state"
  h_confirmOrder :: "ConfirmOrder \<Rightarrow> ('w, go_error + unit) state"
  h_getOrder :: "GetOrderByID \<Rightarrow> ('w, go_error + OrderResponse) state"
  h_listOrders :: "ListOrders \<Rightarrow> ('w, go_error + PaginatedOrdersResponse) state"
  h_libs :: http_libs
  h_log :: "log_record \<Rightarrow> ('w, unit) state"

type_synonym 'w http_handler = "http_request \<Rightarrow> ('w, http_response) state"

definition invalid_json :: ErrorResponse where
  "invalid_json = \<lparr>er_Code = ''INVALID_REQUEST'', er_Message = ''Invalid JSON body'', er_Details = [], er_TraceID = ''''\<rparr>"

definition invalid_fields :: "ValidationError list \<Rightarrow> ErrorResponse" where
  "invalid_fields errs = \<lparr>er_Code = ''VALIDATION_ERROR'', er_Message = ''Request validation failed'',
     er_Details = errs, er_TraceID = ''''\<rparr>"

definition add_item_command :: "string \<Rightarrow> AddItemRequest \<Rightarrow> AddItemToOrder" where
  "add_item_command orderID r =
     \<lparr>cai_OrderID = orderID, cai_ProductID = arq_ProductID r, cai_ProductName = arq_ProductName r,
      cai_Quantity = arq_Quantity r, cai_UnitPrice = arq_UnitPrice r\<rparr>"

subsection \<open>On \<^verbatim>\<open>net/http\<close>\<close>

definition HandleCreateOrder :: "'w Handler \<Rightarrow> 'w http_handler" where
  "HandleCreateOrder h rq =
     (case decode_body (h_libs h) rq unmarshal_CreateOrderRequest of
        Inl err \<Rightarrow> ret (writeError rq 400 ''INVALID_REQUEST'' ''Invalid JSON body'' [])
      | Inr req \<Rightarrow>
          let errs = Validate_CreateOrderRequest (h_libs h) req
          in if errs \<noteq> [] then ret (writeError rq 400 ''VALIDATION_ERROR'' ''Request validation failed'' errs)
          else do {
            r \<leftarrow> h_createOrder h \<lparr>cco_CustomerID = crq_CustomerID req\<rparr>;
            case r of
              Inl err \<Rightarrow> ret (mapAndWriteError rq err)
            | Inr orderID \<Rightarrow> ret (json_response 201 (PCreated orderID))
          })"

definition HandleAddItem :: "'w Handler \<Rightarrow> 'w http_handler" where
  "HandleAddItem h rq =
     (case decode_body (h_libs h) rq unmarshal_AddItemRequest of
        Inl err \<Rightarrow> ret (writeError rq 400 ''INVALID_REQUEST'' ''Invalid JSON body'' [])
      | Inr req \<Rightarrow>
          let errs = Validate_AddItemRequest req
          in if errs \<noteq> [] then ret (writeError rq 400 ''VALIDATION_ERROR'' ''Request validation failed'' errs)
          else do {
            r \<leftarrow> h_addItem h (add_item_command (rq_Param rq ''orderID'') req);
            case r of
              Inl err \<Rightarrow> ret (mapAndWriteError rq err)
            | Inr _ \<Rightarrow> ret (json_response 200 (PMessage ''item added''))
          })"

definition HandleConfirmOrder :: "'w Handler \<Rightarrow> 'w http_handler" where
  "HandleConfirmOrder h rq = do {
     r \<leftarrow> h_confirmOrder h \<lparr>ccf_OrderID = rq_Param rq ''orderID''\<rparr>;
     case r of
       Inl err \<Rightarrow> ret (mapAndWriteError rq err)
     | Inr _ \<Rightarrow> ret (json_response 200 (PMessage ''order confirmed''))
   }"

definition HandleGetOrder :: "'w Handler \<Rightarrow> 'w http_handler" where
  "HandleGetOrder h rq = do {
     r \<leftarrow> h_getOrder h \<lparr>gq_OrderID = rq_Param rq ''orderID''\<rparr>;
     case r of
       Inl err \<Rightarrow> ret (mapAndWriteError rq err)
     | Inr result \<Rightarrow> ret (json_response 200 (POrder result))
   }"

text \<open>Absent and empty query values read alike; only a default distinguishes them.\<close>

definition query_get :: "http_request \<Rightarrow> string \<Rightarrow> string" where
  "query_get rq k = (case rq_QueryValue rq k of None \<Rightarrow> '''' | Some v \<Rightarrow> v)"

definition DefaultQuery :: "http_request \<Rightarrow> string \<Rightarrow> string \<Rightarrow> string" where
  "DefaultQuery rq k d = (case rq_QueryValue rq k of None \<Rightarrow> d | Some v \<Rightarrow> v)"

definition positive_or :: "go_int \<Rightarrow> string \<Rightarrow> go_int" where
  "positive_or d v = (if v = '''' then d
     else (case Atoi v of None \<Rightarrow> d | Some p \<Rightarrow> if sint p > 0 then p else d))"

definition list_query :: "http_request \<Rightarrow> string \<Rightarrow> string \<Rightarrow> ListOrders" where
  "list_query rq sortBy sortDir =
     \<lparr>lq_CustomerID = (let v = query_get rq ''customer_id'' in if v \<noteq> '''' then Some v else None),
      lq_Status = (let v = query_get rq ''status'' in if v \<noteq> '''' then Some v else None),
      lq_CreatedFrom = None, lq_CreatedTo = None, lq_SortBy = sortBy, lq_SortDir = sortDir,
      lq_Page = positive_or 1 (query_get rq ''page''), lq_PageSize = positive_or 20 (query_get rq ''size'')\<rparr>"

definition HandleListOrders :: "'w Handler \<Rightarrow> 'w http_handler" where
  "HandleListOrders h rq = do {
     r \<leftarrow> h_listOrders h (list_query rq (query_get rq ''sort'') (query_get rq ''dir''));
     case r of
       Inl err \<Rightarrow> ret (mapAndWriteError rq err)
     | Inr result \<Rightarrow> ret (json_response 200 (POrders result))
   }"

subsection \<open>On Gin\<close>

text \<open>
  \<^verbatim>\<open>c.JSON\<close> sets its own content type.  \<^verbatim>\<open>c.BindJSON\<close>, when it fails, has already sent the
  header with status 400 as plain text.
\<close>

definition gin_json :: "nat \<Rightarrow> payload \<Rightarrow> http_response" where
  "gin_json status body = \<lparr>rs_Status = status,
     rs_Header = [''Content-Type'' \<mapsto> ''application/json; charset=utf-8''], rs_Body = body\<rparr>"

definition gin_bind_error :: http_response where
  "gin_bind_error = \<lparr>rs_Status = 400, rs_Header = [''Content-Type'' \<mapsto> ''text/plain; charset=utf-8''],
     rs_Body = PError invalid_json\<rparr>"

text \<open>A list of validation errors as \<^verbatim>\<open>fmt.Sprint\<close> prints it.\<close>

fun separated :: "string list \<Rightarrow> string" where
  "separated [] = ''''"
| "separated [x] = x"
| "separated (x # y # ys) = x @ '' '' @ separated (y # ys)"

definition Sprint_errors :: "ValidationError list \<Rightarrow> string" where
  "Sprint_errors errs = ''['' @ separated (map (\<lambda>v. ''{'' @ separated [ve_Field v, ve_Tag v, ve_Value v, ve_Message v] @ ''}'') errs) @ '']''"

definition mapAndWriteGinError :: "'w Handler \<Rightarrow> http_request \<Rightarrow> go_error \<Rightarrow> ('w, http_response) state" where
  "mapAndWriteGinError h rq err = do {
     h_log h \<lparr>lg_Level = ErrorLevel, lg_Message = ''handler error'',
       lg_Fields = [(''error'', FStr (error_text err)), (''type'', FStr ''domain_error'')]\<rparr>;
     ret (mapAndWriteError rq err)
   }"

definition GinHandleCreateOrder :: "'w Handler \<Rightarrow> 'w http_handler" where
  "GinHandleCreateOrder h rq =
     (case decode_body (h_libs h) rq unmarshal_CreateOrderRequest of
        Inl err \<Rightarrow> do {
          h_log h \<lparr>lg_Level = DebugLevel, lg_Message = ''invalid request body'', lg_Fields = [(''error'', FError err)]\<rparr>;
          ret gin_bind_error
        }
      | Inr req \<Rightarrow>
          let errs = Validate_CreateOrderRequest (h_libs h) req
          in if errs \<noteq> [] then do {
            h_log h \<lparr>lg_Level = DebugLevel, lg_Message = ''validation failed'',
              lg_Fields = [(''validation errors'', FOther (Sprint_errors errs))]\<rparr>;
            ret (gin_json 400 (PError (invalid_fields errs)))
          } else do {
            h_log h \<lparr>lg_Level = InfoLevel, lg_Message = ''creating order'',
              lg_Fields = [(''customer_id'', FStr (crq_CustomerID req))]\<rparr>;
            r \<leftarrow> h_createOrder h \<lparr>cco_CustomerID = crq_CustomerID req\<rparr>;
            case r of
              Inl err \<Rightarrow> mapAndWriteGinError h rq err
            | Inr orderID \<Rightarrow> do {
                h_log h \<lparr>lg_Level = InfoLevel, lg_Message = ''order created successfully'',
                  lg_Fields = [(''order_id'', FStr orderID), (''customer_id'', FStr (crq_CustomerID req))]\<rparr>;
                ret (gin_json 201 (PCreated orderID))
              }
          })"

definition GinHandleAddItem :: "'w Handler \<Rightarrow> 'w http_handler" where
  "GinHandleAddItem h rq =
     (let orderID = rq_Param rq ''orderID'' in
      case decode_body (h_libs h) rq unmarshal_AddItemRequest of
        Inl err \<Rightarrow> do {
          h_log h \<lparr>lg_Level = DebugLevel, lg_Message = ''invalid request body'',
            lg_Fields = [(''error'', FError err), (''order_id'', FStr orderID)]\<rparr>;
          ret gin_bind_error
        }
      | Inr req \<Rightarrow>
          let errs = Validate_AddItemRequest req
          in if errs \<noteq> [] then do {
            h_log h \<lparr>lg_Level = DebugLevel, lg_Message = ''validation failed'',
              lg_Fields = [(''order_id'', FStr orderID), (''validation errors'', FOther (Sprint_errors errs))]\<rparr>;
            ret (gin_json 400 (PError (invalid_fields errs)))
          } else do {
            h_log h \<lparr>lg_Level = InfoLevel, lg_Message = ''adding item to order'',
              lg_Fields = [(''order_id'', FStr orderID), (''product_id'', FStr (arq_ProductID req)),
                (''product_name'', FStr (arq_ProductName req)), (''quantity'', FInt (sint (arq_Quantity req)))]\<rparr>;
            r \<leftarrow> h_addItem h (add_item_command orderID req);
            case r of
              Inl err \<Rightarrow> mapAndWriteGinError h rq err
            | Inr _ \<Rightarrow> do {
                h_log h \<lparr>lg_Level = InfoLevel, lg_Message = ''item added successfully'',
                  lg_Fields = [(''order_id'', FStr orderID), (''product_id'', FStr (arq_ProductID req))]\<rparr>;
                ret (gin_json 200 (PMessage ''item added''))
              }
          })"

definition GinHandleConfirmOrder :: "'w Handler \<Rightarrow> 'w http_handler" where
  "GinHandleConfirmOrder h rq = (let orderID = rq_Param rq ''orderID'' in do {
     h_log h \<lparr>lg_Level = InfoLevel, lg_Message = ''confirming order'', lg_Fields = [(''order_id'', FStr orderID)]\<rparr>;
     r \<leftarrow> h_confirmOrder h \<lparr>ccf_OrderID = orderID\<rparr>;
     case r of
       Inl err \<Rightarrow> mapAndWriteGinError h rq err
     | Inr _ \<Rightarrow> do {
         h_log h \<lparr>lg_Level = InfoLevel, lg_Message = ''order confirmed successfully'',
           lg_Fields = [(''order_id'', FStr orderID)]\<rparr>;
         ret (gin_json 200 (PMessage ''order confirmed''))
       }
   })"

definition GinHandleGetOrder :: "'w Handler \<Rightarrow> 'w http_handler" where
  "GinHandleGetOrder h rq = (let orderID = rq_Param rq ''orderID'' in do {
     h_log h \<lparr>lg_Level = DebugLevel, lg_Message = ''fetching order'', lg_Fields = [(''order_id'', FStr orderID)]\<rparr>;
     r \<leftarrow> h_getOrder h \<lparr>gq_OrderID = orderID\<rparr>;
     case r of
       Inl err \<Rightarrow> mapAndWriteGinError h rq err
     | Inr result \<Rightarrow> do {
         h_log h \<lparr>lg_Level = DebugLevel, lg_Message = ''order fetched successfully'',
           lg_Fields = [(''order_id'', FStr orderID)]\<rparr>;
         ret (gin_json 200 (POrder result))
       }
   })"

definition GinHandleListOrders :: "'w Handler \<Rightarrow> 'w http_handler" where
  "GinHandleListOrders h rq =
     (let q = list_query rq (DefaultQuery rq ''sort'' ''created_at'') (DefaultQuery rq ''dir'' ''desc'') in do {
       h_log h \<lparr>lg_Level = DebugLevel, lg_Message = ''listing orders'',
         lg_Fields = [(''page'', FInt (sint (lq_Page q))), (''page_size'', FInt (sint (lq_PageSize q))),
           (''sort_by'', FStr (lq_SortBy q)), (''sort_dir'', FStr (lq_SortDir q))]\<rparr>;
       r \<leftarrow> h_listOrders h q;
       case r of
         Inl err \<Rightarrow> mapAndWriteGinError h rq err
       | Inr result \<Rightarrow> do {
           h_log h \<lparr>lg_Level = DebugLevel, lg_Message = ''orders listed successfully'',
             lg_Fields = [(''page'', FInt (sint (lq_Page q))), (''total_items'', FInt (int (length (pr_Orders result))))]\<rparr>;
           ret (gin_json 200 (POrders result))
         }
     })"

text \<open>The two routing tables: method, pattern and handler; the route of the Swagger pages is left out.\<close>

definition RegisterRoutes :: "'w Handler \<Rightarrow> (string \<times> string \<times> 'w http_handler) list" where
  "RegisterRoutes h =
     [(''POST'', ''/orders/'', HandleCreateOrder h), (''GET'', ''/orders/'', HandleListOrders h),
      (''GET'', ''/orders/{orderID}/'', HandleGetOrder h), (''POST'', ''/orders/{orderID}/items'', HandleAddItem h),
      (''POST'', ''/orders/{orderID}/confirm'', HandleConfirmOrder h)]"

definition RegisterGinRoutes :: "'w Handler \<Rightarrow> (string \<times> string \<times> 'w http_handler) list" where
  "RegisterGinRoutes h =
     [(''POST'', ''/orders'', GinHandleCreateOrder h), (''GET'', ''/orders'', GinHandleListOrders h),
      (''GET'', ''/orders/:orderID'', GinHandleGetOrder h), (''POST'', ''/orders/:orderID/items'', GinHandleAddItem h),
      (''POST'', ''/orders/:orderID/confirm'', GinHandleConfirmOrder h)]"

section \<open>The handlers of the service\<close>

definition NewHandler ::
  "('w, 'z) runtime_scheme \<Rightarrow> http_libs \<Rightarrow> (log_record \<Rightarrow> ('w, unit) state) \<Rightarrow> 'w UnitOfWork \<Rightarrow>
   'w ReadModelStore \<Rightarrow> 'w Handler" where
  "NewHandler R L logger uow rm =
     \<lparr>h_createOrder = CreateOrderHandler_Handle R uow, h_addItem = AddItemHandler_Handle R uow,
      h_confirmOrder = ConfirmOrderHandler_Handle R uow, h_getOrder = GetOrderHandler_Handle R rm,
      h_listOrders = ListOrdersHandler_Handle R rm, h_libs = L, h_log = logger\<rparr>"

lemmas http_eval [go_defs] = json_response_def mapError_def writeError_def mapAndWriteError_def
  unmarshal_CreateOrderRequest_def unmarshal_AddItemRequest_def decode_body_def ValidationError_of_def
  Validate_CreateOrderRequest_def validate_required_def validate_positive_def Validate_AddItemRequest_def
  invalid_json_def invalid_fields_def add_item_command_def HandleCreateOrder_def HandleAddItem_def
  HandleConfirmOrder_def HandleGetOrder_def query_get_def DefaultQuery_def positive_or_def list_query_def
  HandleListOrders_def gin_json_def gin_bind_error_def Sprint_errors_def mapAndWriteGinError_def GinHandleCreateOrder_def
  GinHandleAddItem_def GinHandleConfirmOrder_def GinHandleGetOrder_def GinHandleListOrders_def NewHandler_def

section \<open>Facts\<close>

text \<open>A relation between worlds that every operation of a handler respects, logging included, is
  respected by its endpoints.\<close>

definition handler_respects :: "('w \<Rightarrow> 'w \<Rightarrow> bool) \<Rightarrow> 'w Handler \<Rightarrow> bool" where
  "handler_respects P h \<longleftrightarrow> (\<forall>w. P w w) \<and> (\<forall>u v w. P u v \<longrightarrow> P v w \<longrightarrow> P u w) \<and>
     (\<forall>x w. P w (snd (run_state (h_log h x) w))) \<and> (\<forall>c w. P w (snd (run_state (h_createOrder h c) w))) \<and>
     (\<forall>c w. P w (snd (run_state (h_addItem h c) w))) \<and> (\<forall>c w. P w (snd (run_state (h_confirmOrder h c) w))) \<and>
     (\<forall>q w. P w (snd (run_state (h_getOrder h q) w))) \<and> (\<forall>q w. P w (snd (run_state (h_listOrders h q) w)))"

lemma respects_bind:
  assumes "handler_respects P h" "P w (snd (run_state m w))"
    and "\<And>x v. P w v \<Longrightarrow> P v (snd (run_state (f x) v))"
  shows "P w (snd (run_state (State_Monad.bind m f) w))"
proof -
  obtain x v where m: "run_state m w = (x, v)" by fastforce
  with assms(2,3) have "P w v" "P v (snd (run_state (f x) v))" by auto
  then have "P w (snd (run_state (f x) v))" using assms(1) unfolding handler_respects_def by blast
  then show ?thesis by (simp add: m)
qed

lemma respects_ops:
  assumes "handler_respects P h"
  shows "P w (snd (run_state (h_log h x) w))" "P w (snd (run_state (h_createOrder h c) w))"
    "P w (snd (run_state (h_addItem h a) w))" "P w (snd (run_state (h_confirmOrder h f) w))"
    "P w (snd (run_state (h_getOrder h g) w))" "P w (snd (run_state (h_listOrders h l) w))"
    "P w (snd (run_state (ret y) w))"
  using assms by (simp_all add: handler_respects_def)

lemma respects_sum:
  assumes "\<And>e. P w (snd (run_state (f e) w))" "\<And>y. P w (snd (run_state (g y) w))"
  shows "P w (snd (run_state (case_sum f g x) w))"
  using assms by (cases x) simp_all

lemma respects_if:
  "P w (snd (run_state f w)) \<Longrightarrow> P w (snd (run_state g w)) \<Longrightarrow> P w (snd (run_state (if b then f else g) w))"
  by simp

lemma gin_handlers_respect:
  assumes "handler_respects P h"
  shows "P w (snd (run_state (GinHandleCreateOrder h rq) w))" "P w (snd (run_state (GinHandleAddItem h rq) w))"
    "P w (snd (run_state (GinHandleConfirmOrder h rq) w))" "P w (snd (run_state (GinHandleGetOrder h rq) w))"
    "P w (snd (run_state (GinHandleListOrders h rq) w))"
proof -
  have err: "P w (snd (run_state (mapAndWriteGinError h rq e) w))" for e w
    unfolding mapAndWriteGinError_def by (intro respects_bind [OF assms] respects_ops [OF assms])
  note rules = respects_bind [OF assms] respects_ops [OF assms] respects_sum [of P] respects_if [of P] err
  show "P w (snd (run_state (GinHandleCreateOrder h rq) w))"
    unfolding GinHandleCreateOrder_def Let_def by (intro rules)
  show "P w (snd (run_state (GinHandleAddItem h rq) w))"
    unfolding GinHandleAddItem_def Let_def by (intro rules)
  show "P w (snd (run_state (GinHandleConfirmOrder h rq) w))"
    unfolding GinHandleConfirmOrder_def Let_def by (intro rules)
  show "P w (snd (run_state (GinHandleGetOrder h rq) w))"
    unfolding GinHandleGetOrder_def Let_def by (intro rules)
  show "P w (snd (run_state (GinHandleListOrders h rq) w))"
    unfolding GinHandleListOrders_def Let_def by (intro rules)
qed

lemma mapError_domain:
  "errors_is e t \<Longrightarrow> t \<in> set domain_errors \<Longrightarrow> snd (snd (mapError e)) = error_text e \<and> fst (snd (mapError e)) < 500"
  by (auto simp: mapError_def)

lemma mapError_other:
  "\<forall>t \<in> set domain_errors. \<not> errors_is e t \<Longrightarrow>
     mapError e = (''INTERNAL_ERROR'', 500, ''An unexpected error occurred'')"
  by (auto simp: mapError_def)

end
