(* ===== verification/Middleware.thy ===== *)
theory Middleware imports Http Telemetry begin

text \<open>
  The HTTP middleware (\<^verbatim>\<open>interfaces/http/middleware.go\<close>).  A wrapped handler either answers or
  panics; a panic carries its value as printed and the response headers set so far.  The logger, the histogram and the
  clock are the world's.  Span attributes are left out.
\<close>

section \<open>Handlers that may panic\<close>

type_synonym headers = "string \<Rightarrow> string option"

type_synonym 'w chain = "http_request \<Rightarrow> ('w, string \<times> headers + http_response) state"

text \<open>What the middleware uses of the world besides the runtime.\<close>

record 'w telemetry =
  tl_Log :: "log_record \<Rightarrow> ('w, unit) state"
  tl_Observe :: "string list \<Rightarrow> time \<Rightarrow> ('w, unit) state"
  tl_Stack :: string

definition set_header :: "string \<Rightarrow> string \<Rightarrow> string \<times> headers + http_response \<Rightarrow> string \<times> headers + http_response" where
  "set_header k v r =
     (case r of
        Inl (p, hs) \<Rightarrow> Inl (p, [k \<mapsto> v] ++ hs)
      | Inr rs \<Rightarrow> Inr (rs\<lparr>rs_Header := [k \<mapsto> v] ++ rs_Header rs\<rparr>))"

section \<open>The request identifier\<close>

definition correlation_id :: "('w, 'z) runtime_scheme \<Rightarrow> http_request \<Rightarrow> ('w, string) state" where
  "correlation_id R rq =
     (if rq_Header rq ''X-Correlation-ID'' = '''' then do { u \<leftarrow> uuid_New R; ret (uuid_String R u) }
      else ret (rq_Header rq ''X-Correlation-ID''))"

definition RequestIDMiddleware :: "('w, 'z) runtime_scheme \<Rightarrow> 'w chain \<Rightarrow> 'w chain" where
  "RequestIDMiddleware R next rq = do {
     correlationID \<leftarrow> correlation_id R rq;
     r \<leftarrow> next (rq\<lparr>rq_CorrelationID := correlationID\<rparr>);
     ret (set_header ''X-Correlation-ID'' correlationID r)
   }"

definition GinRequestIDMiddleware :: "('w, 'z) runtime_scheme \<Rightarrow> 'w chain \<Rightarrow> 'w chain" where
  "GinRequestIDMiddleware R next rq = do {
     correlationID \<leftarrow> correlation_id R rq;
     r \<leftarrow> next (rq\<lparr>rq_CorrelationID := correlationID\<rparr>);
     ret (set_header ''X-Correlation-ID'' correlationID r)
   }"

section \<open>Panics\<close>

definition RecoveryMiddleware :: "'w telemetry \<Rightarrow> 'w chain \<Rightarrow> 'w chain" where
  "RecoveryMiddleware T next rq = do {
     r \<leftarrow> next rq;
     case r of
       Inr rs \<Rightarrow> ret (Inr rs)
     | Inl (rec, hs) \<Rightarrow> do {
         tl_Log T \<lparr>lg_Level = ErrorLevel, lg_Message = ''panic recovered'',
           lg_Fields = [(''error'', FOther rec), (''stack'', FStr (tl_Stack T))]\<rparr>;
         let rs = writeError rq 500 ''INTERNAL_ERROR'' ''Internal server error'' [];
         ret (Inr (rs\<lparr>rs_Header := hs ++ rs_Header rs\<rparr>))
       }
   }"

definition GinRecoveryMiddleware :: "'w telemetry \<Rightarrow> 'w chain \<Rightarrow> 'w chain" where
  "GinRecoveryMiddleware T next rq = do {
     r \<leftarrow> next rq;
     case r of
       Inr rs \<Rightarrow> ret (Inr rs)
     | Inl (rec, hs) \<Rightarrow> do {
         tl_Log T \<lparr>lg_Level = ErrorLevel, lg_Message = ''panic recovered'',
           lg_Fields = [(''error'', FOther rec), (''stack'', FStr (tl_Stack T)), (''path'', FStr (rq_Path rq)),
             (''method'', FStr (rq_Method rq))]\<rparr>;
         let rs = gin_json 500 (PPanic ''Internal server error'' ''INTERNAL_ERROR'');
         ret (Inr (rs\<lparr>rs_Header := hs ++ rs_Header rs\<rparr>))
       }
   }"

section \<open>Metrics\<close>

definition shouldSkipRequestTelemetry :: "string \<Rightarrow> bool" where
  "shouldSkipRequestTelemetry path \<longleftrightarrow>
     path = ''/metrics'' \<or> HasPrefix path ''/health/'' \<or> HasPrefix path ''/swagger/''"

definition route_path :: "http_request \<Rightarrow> string" where
  "route_path rq = (if rq_FullPath rq = '''' then rq_Path rq else rq_FullPath rq)"

definition MetricsMiddleware :: "('w, 'z) runtime_scheme \<Rightarrow> 'w telemetry \<Rightarrow> 'w chain \<Rightarrow> 'w chain" where
  "MetricsMiddleware R T next rq = do {
     start \<leftarrow> time_Now R;
     r \<leftarrow> next rq;
     case r of
       Inl p \<Rightarrow> ret (Inl p)
     | Inr rs \<Rightarrow> do {
         now \<leftarrow> time_Now R;
         tl_Observe T [rq_Method rq, rq_Path rq, nat_text (rs_Status rs)] (now - start);
         ret (Inr rs)
       }
   }"

definition GinMetricsMiddleware :: "('w, 'z) runtime_scheme \<Rightarrow> 'w telemetry \<Rightarrow> 'w chain \<Rightarrow> 'w chain" where
  "GinMetricsMiddleware R T next rq = do {
     start \<leftarrow> time_Now R;
     r \<leftarrow> next rq;
     case r of
       Inl p \<Rightarrow> ret (Inl p)
     | Inr rs \<Rightarrow>
         if shouldSkipRequestTelemetry (rq_Path rq) then ret (Inr rs)
         else do {
           now \<leftarrow> time_Now R;
           tl_Observe T [rq_Method rq, route_path rq, nat_text (rs_Status rs)] (now - start);
           ret (Inr rs)
         }
   }"

section \<open>Access log\<close>

definition maxLoggedBodyBytes :: nat where
  "maxLoggedBodyBytes = 4096"

definition text_media :: "string \<Rightarrow> bool" where
  "text_media mediaType \<longleftrightarrow> HasPrefix mediaType ''text/'' \<or>
     mediaType \<in> {''application/json'', ''application/xml'', ''application/x-www-form-urlencoded''}"

definition formatBodyForLog :: "http_libs \<Rightarrow> string \<Rightarrow> string \<Rightarrow> string" where
  "formatBodyForLog L contentType body =
     (if body = '''' then ''''
      else if (case hl_ParseMediaType L contentType of None \<Rightarrow> False | Some mediaType \<Rightarrow> \<not> text_media mediaType)
        then ''<omitted: non-text body>''
      else if length body > maxLoggedBodyBytes then take maxLoggedBodyBytes body @ ''...(truncated)''
      else body)"

text \<open>The body is put back for the handler; a body that fails to read yields the error again.\<close>

definition readAndRestoreRequestBody :: "http_request \<Rightarrow> string \<times> go_error option" where
  "readAndRestoreRequestBody rq = (case rq_Body rq of Inl err \<Rightarrow> ('''', Some err) | Inr body \<Rightarrow> (body, None))"

definition span_ids :: "http_request \<Rightarrow> string \<times> string" where
  "span_ids rq = (case rq_Span rq of None \<Rightarrow> ('''', '''') | Some ids \<Rightarrow> ids)"

text \<open>Durations are in microseconds here.\<close>

definition milliseconds :: "int \<Rightarrow> int" where
  "milliseconds d = sgn d * (\<bar>d\<bar> div 1000)"

definition LoggingMiddleware :: "('w, 'z) runtime_scheme \<Rightarrow> 'w telemetry \<Rightarrow> 'w chain \<Rightarrow> 'w chain" where
  "LoggingMiddleware R T next rq = do {
     start \<leftarrow> time_Now R;
     r \<leftarrow> next rq;
     case r of
       Inl p \<Rightarrow> ret (Inl p)
     | Inr rs \<Rightarrow> do {
         now \<leftarrow> time_Now R;
         tl_Log T \<lparr>lg_Level = InfoLevel, lg_Message = ''http request'', lg_Fields =
           [(''method'', FStr (rq_Method rq)), (''path'', FStr (rq_Path rq)), (''status'', FInt (int (rs_Status rs))),
            (''duration_ms'', FInt (milliseconds (now - start))), (''correlation_id'', FStr (rq_CorrelationID rq)),
            (''trace_id'', FStr (fst (span_ids rq))), (''span_id'', FStr (snd (span_ids rq)))]\<rparr>;
         ret (Inr rs)
       }
   }"

definition access_record :: "http_libs \<Rightarrow> http_request \<Rightarrow> http_response \<Rightarrow> time \<Rightarrow> log_record" where
  "access_record L rq rs duration =
     \<lparr>lg_Level = InfoLevel, lg_Message = ''http request'', lg_Fields =
        [(''method'', FStr (rq_Method rq)), (''path'', FStr (route_path rq)), (''query'', FStr (rq_RawQuery rq)),
         (''status'', FInt (int (rs_Status rs))), (''duration_ms'', FInt (milliseconds duration)),
         (''correlation_id'', FStr (rq_CorrelationID rq)), (''trace_id'', FStr (fst (span_ids rq))),
         (''span_id'', FStr (snd (span_ids rq))), (''client_ip'', FStr (rq_ClientIP rq)),
         (''user_agent'', FStr (rq_Header rq ''User-Agent'')),
         (''request_body'', FStr (formatBodyForLog L (rq_ContentType rq) (fst (readAndRestoreRequestBody rq)))),
         (''response_body'', FStr (formatBodyForLog L (case rs_Header rs ''Content-Type'' of None \<Rightarrow> '''' | Some t \<Rightarrow> t)
            (hl_Render L (rs_Body rs))))]\<rparr>"

definition GinLoggingMiddlewareWithDB ::
  "('w, 'z) runtime_scheme \<Rightarrow> 'w telemetry \<Rightarrow> http_libs \<Rightarrow> 'w chain \<Rightarrow> 'w chain" where
  "GinLoggingMiddlewareWithDB R T L next rq = do {
     start \<leftarrow> time_Now R;
     r \<leftarrow> next rq;
     case r of
       Inl p \<Rightarrow> ret (Inl p)
     | Inr rs \<Rightarrow>
         if shouldSkipRequestTelemetry (rq_Path rq) then ret (Inr rs)
         else do {
           now \<leftarrow> time_Now R;
           tl_Log T (access_record L rq rs (now - start));
           case snd (readAndRestoreRequestBody rq) of
             None \<Rightarrow> ret (Inr rs)
           | Some err \<Rightarrow> do {
               tl_Log T \<lparr>lg_Level = WarnLevel, lg_Message = ''failed to read request body for logging'',
                 lg_Fields = [(''method'', FStr (rq_Method rq)), (''path'', FStr (route_path rq)),
                   (''error'', FError err)]\<rparr>;
               ret (Inr rs)
             }
         }
   }"

definition GinLoggingMiddleware ::
  "('w, 'z) runtime_scheme \<Rightarrow> 'w telemetry \<Rightarrow> http_libs \<Rightarrow> 'w chain \<Rightarrow> 'w chain" where
  "GinLoggingMiddleware R T L = GinLoggingMiddlewareWithDB R T L"

end
