(* ===== verification/Log_Store.thy ===== *)
theory Log_Store imports Telemetry begin

text \<open>
  The rows of telemetry (\<^verbatim>\<open>infrastructure/persistence/log_store.go\<close>, \<^verbatim>\<open>http_log.go\<close>,
  \<^verbatim>\<open>metric_store.go\<close>) and the saving of metrics (\<^verbatim>\<open>observability/metrics.go\<close>).  GORM's verbs on
  the two tables and the JSON encoder are parameters; a row's number is the database's.
\<close>

section \<open>Rows\<close>

record LogModel =
  lm_Timestamp :: time
  lm_Level :: string
  lm_Message :: string
  lm_LoggerName :: "string option"
  lm_Caller :: "string option"
  lm_TraceID :: "string option"
  lm_CorrelationID :: "string option"
  lm_Fields :: string
  lm_CreatedAt :: time

text \<open>\<open>'f\<close> stands for \<^verbatim>\<open>float64\<close>.\<close>

record 'f MetricModel =
  mm_Timestamp :: time
  mm_MetricName :: string
  mm_MetricType :: string
  mm_Value :: 'f
  mm_Labels :: string
  mm_CreatedAt :: time

record ('f, 'w) telemetry_db =
  td_CreateLog :: "LogModel \<Rightarrow> ('w, go_error + unit) state"
  td_SelectLogs :: "(LogModel \<Rightarrow> bool) \<Rightarrow> (LogModel \<Rightarrow> LogModel \<Rightarrow> bool) \<Rightarrow> (go_int \<times> go_int) option
     \<Rightarrow> ('w, go_error + LogModel list) state"
  td_CreateMetric :: "'f MetricModel \<Rightarrow> ('w, go_error + unit) state"
  td_SelectMetrics :: "('f MetricModel \<Rightarrow> bool) \<Rightarrow> ('f MetricModel \<Rightarrow> 'f MetricModel \<Rightarrow> bool)
     \<Rightarrow> ('w, go_error + 'f MetricModel list) state"
  td_Aggregate :: "string \<Rightarrow> ('f MetricModel \<Rightarrow> bool) \<Rightarrow> ('w, go_error + 'f) state"
  td_DeleteMetrics :: "('f MetricModel \<Rightarrow> bool) \<Rightarrow> ('w, go_error + unit) state"
  td_MarshalFields :: "fields \<Rightarrow> go_error + string"
  td_MarshalLabels :: "(string \<times> string) list \<Rightarrow> go_error + string"

section \<open>Logs\<close>

definition nonempty :: "string \<Rightarrow> string option" where
  "nonempty s = (if s \<noteq> '''' then Some s else None)"

text \<open>A nil map gives no data.\<close>

definition marshal_optional :: "('a \<Rightarrow> go_error + string) \<Rightarrow> 'a option \<Rightarrow> go_error + string" where
  "marshal_optional marshal x = (case x of None \<Rightarrow> Inr '''' | Some v \<Rightarrow> marshal v)"

definition log_row ::
  "time \<Rightarrow> string \<Rightarrow> string \<Rightarrow> string \<Rightarrow> string \<Rightarrow> string \<Rightarrow> string \<Rightarrow> string \<Rightarrow> LogModel" where
  "log_row timestamp level message loggerName caller traceID correlationID fieldsData =
     \<lparr>lm_Timestamp = timestamp, lm_Level = level, lm_Message = message, lm_LoggerName = nonempty loggerName,
      lm_Caller = nonempty caller, lm_TraceID = nonempty traceID, lm_CorrelationID = nonempty correlationID,
      lm_Fields = fieldsData, lm_CreatedAt = timestamp\<rparr>"

definition SaveLog ::
  "('f, 'w) telemetry_db \<Rightarrow> time \<Rightarrow> string \<Rightarrow> string \<Rightarrow> string \<Rightarrow> string \<Rightarrow> string \<Rightarrow> string \<Rightarrow> fields option
     \<Rightarrow> ('w, go_error + unit) state" where
  "SaveLog D timestamp level message loggerName caller traceID correlationID fs =
     (case marshal_optional (td_MarshalFields D) fs of
        Inl err \<Rightarrow> ret (Inl err)
      | Inr fieldsData \<Rightarrow>
          td_CreateLog D (log_row timestamp level message loggerName caller traceID correlationID fieldsData))"

text \<open>The function the hook of the service calls; the encoder's map is never nil.\<close>

definition saveFn :: "('f, 'w) telemetry_db \<Rightarrow> 'w save_log" where
  "saveFn D timestamp level message loggerName caller traceID correlationID fs =
     SaveLog D timestamp level message loggerName caller traceID correlationID (Some fs)"

definition QueryLogs ::
  "('f, 'w) telemetry_db \<Rightarrow> string \<Rightarrow> string \<Rightarrow> go_int \<Rightarrow> go_int \<Rightarrow> ('w, go_error + LogModel list) state" where
  "QueryLogs D level correlationID limit offset =
     td_SelectLogs D
       (\<lambda>r. (level \<noteq> '''' \<longrightarrow> lm_Level r = level) \<and> (correlationID \<noteq> '''' \<longrightarrow> lm_CorrelationID r = Some correlationID))
       (\<lambda>a b. lm_CreatedAt b \<le> lm_CreatedAt a) (Some (offset, limit))"

definition GetLogsByTraceID :: "('f, 'w) telemetry_db \<Rightarrow> string \<Rightarrow> ('w, go_error + LogModel list) state" where
  "GetLogsByTraceID D traceID =
     td_SelectLogs D (\<lambda>r. lm_TraceID r = Some traceID) (\<lambda>a b. lm_CreatedAt a \<le> lm_CreatedAt b) None"

definition SaveHTTPLog ::
  "('w, 'z) runtime_scheme \<Rightarrow> ('f, 'w) telemetry_db \<Rightarrow> string \<Rightarrow> string \<Rightarrow> int \<Rightarrow> time \<Rightarrow> string \<Rightarrow> string \<Rightarrow> string \<Rightarrow> string
     \<Rightarrow> string \<Rightarrow> ('w, go_error + unit) state" where
  "SaveHTTPLog R D method path statusCode duration correlationID traceID spanID clientIP userAgent =
     (case td_MarshalFields D
         [(''method'', FStr method), (''path'', FStr path), (''status'', FInt statusCode),
          (''duration_ms'', FInt (sgn duration * (\<bar>duration\<bar> div 1000))), (''client_ip'', FStr clientIP),
          (''user_agent'', FStr userAgent)] of
        Inl err \<Rightarrow> ret (Inl err)
      | Inr fieldsData \<Rightarrow> do {
          t1 \<leftarrow> time_Now R;
          t2 \<leftarrow> time_Now R;
          td_CreateLog D \<lparr>lm_Timestamp = t1, lm_Level = ''INFO'', lm_Message = ''http request'', lm_LoggerName = None,
            lm_Caller = None, lm_TraceID = nonempty traceID, lm_CorrelationID = nonempty correlationID,
            lm_Fields = fieldsData, lm_CreatedAt = t2\<rparr>
        })"

section \<open>Metrics\<close>

definition SaveMetric ::
  "('w, 'z) runtime_scheme \<Rightarrow> ('f, 'w) telemetry_db \<Rightarrow> string \<Rightarrow> string \<Rightarrow> 'f \<Rightarrow> (string \<times> string) list option
     \<Rightarrow> ('w, go_error + unit) state" where
  "SaveMetric R D metricName metricType v labels =
     (case marshal_optional (td_MarshalLabels D) labels of
        Inl err \<Rightarrow> ret (Inl err)
      | Inr labelsData \<Rightarrow> do {
          t1 \<leftarrow> time_Now R;
          t2 \<leftarrow> time_Now R;
          td_CreateMetric D \<lparr>mm_Timestamp = t1, mm_MetricName = metricName, mm_MetricType = metricType,
            mm_Value = v, mm_Labels = labelsData, mm_CreatedAt = t2\<rparr>
        })"

definition GetMetricsByName ::
  "('f, 'w) telemetry_db \<Rightarrow> string \<Rightarrow> time \<Rightarrow> ('w, go_error + 'f MetricModel list) state" where
  "GetMetricsByName D metricName since =
     td_SelectMetrics D (\<lambda>m. mm_MetricName m = metricName \<and> since \<le> mm_CreatedAt m)
       (\<lambda>a b. mm_CreatedAt b \<le> mm_CreatedAt a)"

definition aggregate_select :: "string \<Rightarrow> string" where
  "aggregate_select aggregation =
     (if aggregation = ''sum'' then ''COALESCE(SUM(value), 0)''
      else if aggregation = ''avg'' then ''COALESCE(AVG(value), 0)''
      else if aggregation = ''max'' then ''COALESCE(MAX(value), 0)''
      else if aggregation = ''min'' then ''COALESCE(MIN(value), 0)''
      else if aggregation = ''count'' then ''COUNT(*)''
      else ''COALESCE(SUM(value), 0)'')"

definition AggregateMetric ::
  "('f, 'w) telemetry_db \<Rightarrow> string \<Rightarrow> string \<Rightarrow> time \<Rightarrow> ('w, go_error + 'f) state" where
  "AggregateMetric D metricName aggregation since =
     td_Aggregate D (aggregate_select aggregation) (\<lambda>m. mm_MetricName m = metricName \<and> since \<le> mm_CreatedAt m)"

definition DeleteOldMetrics ::
  "('w, 'z) runtime_scheme \<Rightarrow> ('f, 'w) telemetry_db \<Rightarrow> time \<Rightarrow> ('w, go_error + unit) state" where
  "DeleteOldMetrics R D olderThan = do {
     now \<leftarrow> time_Now R;
     td_DeleteMetrics D (\<lambda>m. mm_CreatedAt m < now - olderThan)
   }"

text \<open>\<open>save\<close> is the store's \<^verbatim>\<open>SaveMetric\<close>; its errors are dropped.\<close>

definition saveCurrentMetrics ::
  "(string \<Rightarrow> string \<Rightarrow> 'f :: zero \<Rightarrow> (string \<times> string) list option \<Rightarrow> ('w, go_error + unit) state) \<Rightarrow> ('w, unit) state" where
  "saveCurrentMetrics save = do {
     a \<leftarrow> save ''outbox_pending_total'' ''gauge'' 0 None;
     b \<leftarrow> save ''outbox_publish_success_total'' ''counter'' 0 None;
     c \<leftarrow> save ''outbox_publish_failed_total'' ''counter'' 0 None;
     ret ()
   }"

lemmas log_store_eval [go_defs] = nonempty_def marshal_optional_def log_row_def SaveLog_def saveFn_def QueryLogs_def
  GetLogsByTraceID_def SaveHTTPLog_def SaveMetric_def GetMetricsByName_def aggregate_select_def AggregateMetric_def
  DeleteOldMetrics_def saveCurrentMetrics_def

end
