(* ===== verification/Config.thy ===== *)
theory Config imports Messaging Go_Text begin

text \<open>
  The configuration (\<^verbatim>\<open>internal/bootstrap/config.go\<close>).  The environment is a function, where
  an unset variable reads as the empty string; \<^verbatim>\<open>time.ParseDuration\<close> is a parameter, with
  durations in nanoseconds.
\<close>

section \<open>Environment variables\<close>

record environment =
  ev_Getenv :: "string \<Rightarrow> string"
  ev_ParseDuration :: "string \<Rightarrow> int64 option"

definition envStr :: "environment \<Rightarrow> string \<Rightarrow> string \<Rightarrow> string" where
  "envStr V key defaultVal = (let v = ev_Getenv V key in if v \<noteq> '''' then v else defaultVal)"

text \<open>\<^verbatim>\<open>strings.Split\<close> at a one-character separator.\<close>

fun split_at :: "char \<Rightarrow> string \<Rightarrow> string list" where
  "split_at sep [] = [[]]"
| "split_at sep (c # cs) =
     (if c = sep then [] # split_at sep cs
      else (case split_at sep cs of [] \<Rightarrow> [[c]] | p # ps \<Rightarrow> (c # p) # ps))"

definition envStrSlice :: "environment \<Rightarrow> string \<Rightarrow> string list \<Rightarrow> string list" where
  "envStrSlice V key defaultVal =
     (let v = ev_Getenv V key in if v \<noteq> '''' then split_at (CHR '','') v else defaultVal)"

definition envInt :: "environment \<Rightarrow> string \<Rightarrow> go_int \<Rightarrow> go_int" where
  "envInt V key defaultVal =
     (let v = ev_Getenv V key in
      if v \<noteq> '''' then (case Atoi v of Some i \<Rightarrow> i | None \<Rightarrow> defaultVal) else defaultVal)"

definition envDuration :: "environment \<Rightarrow> string \<Rightarrow> int64 \<Rightarrow> int64" where
  "envDuration V key defaultVal =
     (let v = ev_Getenv V key in
      if v \<noteq> '''' then (case ev_ParseDuration V v of Some d \<Rightarrow> d | None \<Rightarrow> defaultVal) else defaultVal)"

text \<open>
  \<^verbatim>\<open>strings.ToLower\<close> on the letters A to Z.  No other character has a lower case that occurs
  in the words compared with.
\<close>

definition lower_char :: "char \<Rightarrow> char" where
  "lower_char c = (let n = (of_char c :: nat) in if 65 \<le> n \<and> n \<le> 90 then char_of (n + 32) else c)"

definition ToLower :: "string \<Rightarrow> string" where
  "ToLower s = map lower_char s"

definition envBool :: "environment \<Rightarrow> string \<Rightarrow> bool \<Rightarrow> bool" where
  "envBool V key defaultVal =
     (let v = ev_Getenv V key in
      if v \<noteq> '''' then ToLower v = ''true'' \<or> v = ''1'' \<or> ToLower v = ''yes'' else defaultVal)"

section \<open>The configuration\<close>

record HTTPSConfig =
  hs_Enabled :: bool
  hs_CertFile :: string
  hs_KeyFile :: string

record ServerConfig =
  sv_Port :: go_int
  sv_ShutdownTimeout :: int64
  sv_HTTPS :: HTTPSConfig

record DatabaseConfig =
  db_Host :: string
  db_Port :: go_int
  db_User :: string
  db_Password :: string
  db_DBName :: string
  db_SSLMode :: string

record OutboxConfig =
  ox_BatchSize :: go_int
  ox_PollInterval :: int64
  ox_MaxRetries :: go_int

record BootKafkaConfig =
  bk_Brokers :: "string list"
  bk_Topic :: string
  bk_ConsumerGroup :: string
  bk_BatchSize :: go_int
  bk_BatchTimeout :: int64

record TracingConfig =
  tr_OTLPEndpoint :: string
  tr_ServiceName :: string

record LogConfig =
  lc_Level :: string
  lc_FilePath :: string

record Config =
  cf_Server :: ServerConfig
  cf_Database :: DatabaseConfig
  cf_Outbox :: OutboxConfig
  cf_Kafka :: BootKafkaConfig
  cf_Tracing :: TracingConfig
  cf_Log :: LogConfig
  cf_EventBusType :: string
  cf_SigNozEndpoint :: string

definition DSN :: "DatabaseConfig \<Rightarrow> string" where
  "DSN c = ''host='' @ db_Host c @ '' port='' @ Itoa (db_Port c) @ '' user='' @ db_User c @
     '' password='' @ db_Password c @ '' dbname='' @ db_DBName c @ '' sslmode='' @ db_SSLMode c"

definition LoadConfig :: "environment \<Rightarrow> Config" where
  "LoadConfig V =
     \<lparr>cf_Server =
        \<lparr>sv_Port = envInt V ''SERVER_PORT'' 8080,
         sv_ShutdownTimeout = envDuration V ''SERVER_SHUTDOWN_TIMEOUT'' (15 * 1000000000),
         sv_HTTPS =
           \<lparr>hs_Enabled = envBool V ''HTTPS_ENABLED'' False, hs_CertFile = envStr V ''HTTPS_CERT_FILE'' '''',
            hs_KeyFile = envStr V ''HTTPS_KEY_FILE'' ''''\<rparr>\<rparr>,
      cf_Database =
        \<lparr>db_Host = envStr V ''DB_HOST'' ''localhost'', db_Port = envInt V ''DB_PORT'' 5432,
         db_User = envStr V ''DB_USER'' ''order'', db_Password = envStr V ''DB_PASSWORD'' ''order123'',
         db_DBName = envStr V ''DB_NAME'' ''orderdb'', db_SSLMode = envStr V ''DB_SSLMODE'' ''disable''\<rparr>,
      cf_Outbox =
        \<lparr>ox_BatchSize = envInt V ''OUTBOX_BATCH_SIZE'' 50,
         ox_PollInterval = envDuration V ''OUTBOX_POLL_INTERVAL'' (1 * 1000000000),
         ox_MaxRetries = envInt V ''OUTBOX_MAX_RETRIES'' 10\<rparr>,
      cf_Kafka =
        \<lparr>bk_Brokers = envStrSlice V ''KAFKA_BROKERS'' [''localhost:9092''],
         bk_Topic = envStr V ''KAFKA_TOPIC'' ''order-events'',
         bk_ConsumerGroup = envStr V ''KAFKA_CONSUMER_GROUP'' ''order-projection'',
         bk_BatchSize = envInt V ''KAFKA_BATCH_SIZE'' 100,
         bk_BatchTimeout = envDuration V ''KAFKA_BATCH_TIMEOUT'' (10 * 1000000)\<rparr>,
      cf_Tracing =
        \<lparr>tr_OTLPEndpoint = envStr V ''OTEL_EXPORTER_OTLP_ENDPOINT'' '''',
         tr_ServiceName = envStr V ''OTEL_SERVICE_NAME'' ''order-service''\<rparr>,
      cf_Log = \<lparr>lc_Level = envStr V ''LOG_LEVEL'' ''info'', lc_FilePath = envStr V ''LOG_FILE_PATH'' ''''\<rparr>,
      cf_EventBusType = envStr V ''EVENT_BUS_TYPE'' ''inmemory'',
      cf_SigNozEndpoint = envStr V ''SIGNOZ_OTLP_ENDPOINT'' ''''\<rparr>"

lemmas config_eval [go_defs] = envStr_def envStrSlice_def envInt_def envDuration_def lower_char_def ToLower_def
  envBool_def DSN_def LoadConfig_def

section \<open>Facts\<close>

text \<open>A slice holds no separator and joins back to the value.\<close>

lemma split_at_nonempty: "split_at sep s \<noteq> []"
  by (induction s) (auto split: list.splits)

lemma split_at_pieces: "p \<in> set (split_at sep s) \<Longrightarrow> sep \<notin> set p"
  by (induction s arbitrary: p) (auto split: list.splits if_splits)

fun join_with :: "char \<Rightarrow> string list \<Rightarrow> string" where
  "join_with sep [] = []"
| "join_with sep [p] = p"
| "join_with sep (p # q # ps) = p @ sep # join_with sep (q # ps)"

lemma join_split_at: "join_with sep (split_at sep s) = s"
proof (induction s)
  case (Cons c cs)
  show ?case
  proof (cases "split_at sep cs")
    case Nil
    then show ?thesis using split_at_nonempty by blast
  next
    case (Cons p ps)
    with Cons.IH show ?thesis by (cases ps) auto
  qed
qed simp

text \<open>An integer variable takes any integer that is printed there, also one that makes no sense.\<close>

lemma Itoa_nonempty: "Itoa i \<noteq> ''''"
  using nat_text_Cons [of "nat (sint i)"] by (auto simp: Itoa_def)

lemma envInt_takes: "ev_Getenv V key = Itoa i \<Longrightarrow> envInt V key d = i"
  by (simp add: envInt_def Atoi_Itoa Itoa_nonempty)

end
