(* ===== verification/Service.thy ===== *)
theory Service imports Middleware Log_Store Relay Config begin

text \<open>
  The service as \<^verbatim>\<open>internal/bootstrap/app.go\<close> puts it together: the stores, the bus and the
  workers over one database, the middleware stack and the routes.  Starting and stopping
  processes, servers and loggers is left out.
\<close>

section \<open>Middleware stack\<close>

text \<open>The order of the \<^verbatim>\<open>r.Use\<close> calls, outermost first; tracing comes before and is left out.\<close>

definition gin_stack ::
  "('w, 'z) runtime_scheme \<Rightarrow> 'w telemetry \<Rightarrow> http_libs \<Rightarrow> 'w chain \<Rightarrow> 'w chain" where
  "gin_stack R T L handler =
     GinRecoveryMiddleware T (GinRequestIDMiddleware R
       (GinLoggingMiddlewareWithDB R T L (GinMetricsMiddleware R T handler)))"

section \<open>Routes of the application\<close>

definition health_live :: "'w http_handler" where
  "health_live rq = ret (gin_json 200 (PStatus ''alive''))"

text \<open>\<open>ping\<close> is \<^verbatim>\<open>sqlDB.PingContext\<close>.\<close>

definition health_ready :: "'w telemetry \<Rightarrow> ('w, go_error + unit) state \<Rightarrow> 'w http_handler" where
  "health_ready T ping rq = do {
     p \<leftarrow> ping;
     case p of
       Inl err \<Rightarrow> do {
         tl_Log T \<lparr>lg_Level = WarnLevel, lg_Message = ''health check failed'', lg_Fields = [(''error'', FError err)]\<rparr>;
         ret (gin_json 503 (PNotReady ''not ready'' (error_text err)))
       }
     | Inr _ \<Rightarrow> ret (gin_json 200 (PStatus ''ready''))
   }"

definition requeue_outbox :: "'w telemetry \<Rightarrow> 'w OutboxStore \<Rightarrow> 'w http_handler" where
  "requeue_outbox T ob rq = do {
     r \<leftarrow> ob_RequeueFailed ob;
     case r of
       Inl err \<Rightarrow> do {
         tl_Log T \<lparr>lg_Level = ErrorLevel, lg_Message = ''failed to requeue events'', lg_Fields = [(''error'', FError err)]\<rparr>;
         ret (gin_json 500 (PFailure (error_text err)))
       }
     | Inr count \<Rightarrow> do {
         tl_Log T \<lparr>lg_Level = InfoLevel, lg_Message = ''events requeued successfully'', lg_Fields = [(''count'', FInt (sint count))]\<rparr>;
         ret (gin_json 200 (PRequeued count))
       }
   }"

text \<open>The routes, without the Prometheus page.\<close>

definition service_routes ::
  "'w platform \<Rightarrow> 'w telemetry \<Rightarrow> http_libs \<Rightarrow> ('w, go_error + unit) state \<Rightarrow> (string \<times> string \<times> 'w http_handler) list" where
  "service_routes E T L ping =
     [(''GET'', ''/health/live'', health_live), (''GET'', ''/health/ready'', health_ready T ping)] @
     RegisterGinRoutes (NewHandler E L (tl_Log T) (NewGormUnitOfWork E) (NewGormReadModelStore E)) @
     [(''POST'', ''/admin/outbox/requeue'', requeue_outbox T (NewGormOutboxStore E))]"

section \<open>The logger\<close>

text \<open>
  The logger of the service prints and stores; its level is the configuration's, and \<open>sink\<close> is
  where \<^verbatim>\<open>NewLogger\<close> made it print.  With an endpoint for logs, \<open>collector\<close> is the client that
  \<^verbatim>\<open>InitSigNozLogger\<close> put beside it.  The same logger, with GORM's level at info, serves the
  database.
\<close>

definition stored_core :: "Config \<Rightarrow> 'w line_sink \<Rightarrow> ('f, 'w) telemetry_db \<Rightarrow> 'w core" where
  "stored_core cfg sink D = LoggerWithDatabasePersistence
     (SinkCore (config_level (lc_Level (cf_Log cfg))) [] sink) [Some (saveFn D)]"

definition service_core ::
  "Config \<Rightarrow> 'w otel_client option \<Rightarrow> 'w line_sink \<Rightarrow> ('f, 'w) telemetry_db \<Rightarrow> 'w core" where
  "service_core cfg collector sink D =
     (case collector of
        None \<Rightarrow> stored_core cfg sink D
      | Some C \<Rightarrow> TeeCore [stored_core cfg sink D, OtelCore C DebugLevel []])"

definition service_gorm_logger :: "(log_record \<Rightarrow> ('w, unit) state) \<Rightarrow> 'w GormZapLogger" where
  "service_gorm_logger log = LogMode (NewGormLogger log) 4"

definition zap_telemetry ::
  "('w, 'z) runtime_scheme \<Rightarrow> (string \<times> nat) option \<Rightarrow> string \<Rightarrow> 'w core \<Rightarrow>
   (string list \<Rightarrow> time \<Rightarrow> ('w, unit) state) \<Rightarrow> 'w telemetry" where
  "zap_telemetry R caller stack c observe =
     \<lparr>tl_Log = Logw R caller stack c, tl_Observe = observe, tl_Stack = stack\<rparr>"

section \<open>Event bus and workers\<close>

definition uses_kafka :: "Config \<Rightarrow> bool" where
  "uses_kafka cfg \<longleftrightarrow> cf_EventBusType cfg = ''kafka''"

definition bus_KafkaConfig :: "Config \<Rightarrow> KafkaConfig" where
  "bus_KafkaConfig cfg =
     \<lparr>kc_Brokers = bk_Brokers (cf_Kafka cfg), kc_Topic = bk_Topic (cf_Kafka cfg),
      kc_ConsumerGroup = bk_ConsumerGroup (cf_Kafka cfg), kc_BatchSize = bk_BatchSize (cf_Kafka cfg),
      kc_BatchTimeout = bk_BatchTimeout (cf_Kafka cfg), kc_MinBytes = 1, kc_MaxBytes = push_bit 20 10,
      kc_MaxWait = 500 * 1000000\<rparr>"

text \<open>
  The bus the relay publishes to; the projection is subscribed to either.  \<open>WriteMessages\<close> is the
  writer of the Kafka client.
\<close>

definition service_publisher ::
  "'w platform \<Rightarrow> Config \<Rightarrow> (kafka_message \<Rightarrow> ('w, go_error + unit) state) \<Rightarrow> 'w publisher" where
  "service_publisher E cfg WriteMessages =
     (let b = ProjectionWorker_Setup no_handlers (projection_handler E) in
      if uses_kafka cfg then KafkaEventBus_Publish E WriteMessages b else InMemoryEventBus_Publish b)"

definition service_relay ::
  "('w, bool) state \<Rightarrow> 'w platform \<Rightarrow> Config \<Rightarrow> (kafka_message \<Rightarrow> ('w, go_error + unit) state)
     \<Rightarrow> 'w \<Rightarrow> ((string + unit) \<times> 'w) option" where
  "service_relay wait E cfg WriteMessages =
     OutboxWorker_Run wait (NewGormOutboxStore E) (service_publisher E cfg WriteMessages)
       (ox_BatchSize (cf_Outbox cfg)) (ox_PollInterval (cf_Outbox cfg))"

definition service_consumer ::
  "'w platform \<Rightarrow> Config \<Rightarrow> (reader_config \<Rightarrow> 'w kafka_reader) \<Rightarrow> 'w \<Rightarrow> 'w option" where
  "service_consumer E cfg NewReader =
     (if uses_kafka cfg
      then KafkaConsumerWorker_Run E (NewReader (NewKafkaReader ((bus_KafkaConfig cfg)\<lparr>kc_BatchSize := 0, kc_BatchTimeout := 0\<rparr>)))
        (ProjectionWorker_Setup no_handlers (projection_handler E))
      else Some)"

lemmas service_eval [go_defs] = stored_core_def service_core_def service_gorm_logger_def zap_telemetry_def gin_stack_def health_live_def health_ready_def requeue_outbox_def service_routes_def
  uses_kafka_def bus_KafkaConfig_def service_publisher_def service_relay_def service_consumer_def

section \<open>Facts\<close>

text \<open>The default settings are those of \<^verbatim>\<open>DefaultKafkaConfig\<close>, and the relay runs with them.\<close>

lemma default_kafka_config:
  assumes "\<And>k. ev_Getenv V k = ''''"
  shows "bus_KafkaConfig (LoadConfig V) = DefaultKafkaConfig"
  by (simp add: bus_KafkaConfig_def LoadConfig_def envStr_def envStrSlice_def envInt_def envDuration_def
      DefaultKafkaConfig_def assms)

text \<open>The logger with a collector is the one \<^verbatim>\<open>InitSigNozLogger\<close> returns.\<close>

lemma InitSigNozLogger_core:
  assumes "run_state (InitSigNozLogger infow urlHost newExporter newResource newClient shutdown name endpoint
      (Some (stored_core cfg sink D))) w = (Inr (Some c, cleanup), w')"
  shows "\<exists>collector. c = service_core cfg collector sink D \<and> (collector = None \<longleftrightarrow> endpoint = '''')"
proof (cases "endpoint = ''''")
  case True
  with assms have "c = service_core cfg None sink D"
    by (auto simp: InitSigNozLogger_def service_core_def split: prod.splits)
  with True show ?thesis by blast
next
  case False
  with assms obtain C where "c = service_core cfg (Some C) sink D"
    by (auto simp: InitSigNozLogger_def service_core_def Let_def split: prod.splits sum.splits)
  with False show ?thesis by blast
qed

lemma NewLogger_core:
  "NewLogger encode openFile stdout lvl path = Inr c \<Longrightarrow> \<exists>sink. c = SinkCore (config_level lvl) [] sink"
  by (auto simp: NewLogger_def Let_def split: if_splits sum.splits)

lemma poll_interval_panics:
  assumes "ev_Getenv V ''OUTBOX_POLL_INTERVAL'' \<noteq> ''''"
    and "ev_ParseDuration V (ev_Getenv V ''OUTBOX_POLL_INTERVAL'') = Some d" "sint d \<le> 0"
  shows "service_relay wait E (LoadConfig V) W w = Some (Inl ''non-positive interval for NewTicker'', w)"
  using assms by (simp add: service_relay_def OutboxWorker_Run_def LoadConfig_def envDuration_def Let_def)

end
