(* ===== verification/Log_Properties.thy ===== *)
theory Log_Properties imports Service Mem_Platform begin

text \<open>
  The logger of the service: what becomes of a line on the standard output, in the table of logs and
  at the collector.
\<close>

section \<open>What a line becomes\<close>

definition line_entry :: "(string \<times> nat) option \<Rightarrow> string \<Rightarrow> log_record \<Rightarrow> time \<Rightarrow> entry" where
  "line_entry caller stack x now =
     \<lparr>en_Level = lg_Level x, en_Time = now, en_LoggerName = '''', en_Message = lg_Message x, en_Caller = caller,
      en_Stack = (if ErrorLevel \<le> lg_Level x then stack else '''')\<rparr>"

text \<open>The row's identifiers are the string fields of that name.\<close>

definition line_row :: "entry \<Rightarrow> fields \<Rightarrow> string \<Rightarrow> LogModel" where
  "line_row en fs data =
     log_row (en_Time en) (level_text (en_Level en)) (en_Message en) (en_LoggerName en) (caller_text (en_Caller en))
       (string_field (map_encoder fs) ''trace_id'') (string_field (map_encoder fs) ''correlation_id'') data"

definition line_sent :: "'w otel_client \<Rightarrow> entry \<Rightarrow> fields \<Rightarrow> time \<Rightarrow> otel_record" where
  "line_sent C en fs seen =
     \<lparr>or_Timestamp = en_Time en, or_ObservedTimestamp = seen, or_Severity = zapLevelToOTelSeverity (en_Level en),
      or_SeverityText = level_text (en_Level en), or_Body = en_Message en,
      or_Attributes = otel_attributes en (map_encoder fs), or_Span = spanContextFromFields C (map_encoder fs)\<rparr>"

section \<open>The sinks' laws\<close>

text \<open>
  \<open>printed\<close> is what the standard output received, \<open>rows\<close> what the table of logs holds, in the
  order of insertion, and \<open>sent\<close> what the collector received, when there is one.
\<close>

locale log_pipeline =
  fixes R :: "('w, 'z) runtime_scheme"
    and sink :: "'w line_sink"
    and D :: "('f, 'w) telemetry_db"
    and collector :: "'w otel_client option"
    and printed :: "'w \<Rightarrow> (entry \<times> fields) list"
    and rows :: "'w \<Rightarrow> LogModel list"
    and sent :: "'w \<Rightarrow> otel_record list"
  assumes sink_ok: "run_state (ls_Write sink en fs) w = (Inr u, w') \<Longrightarrow>
      printed w' = printed w @ [(en, fs)] \<and> rows w' = rows w \<and> sent w' = sent w"
    and sink_err: "run_state (ls_Write sink en fs) w = (Inl e, w') \<Longrightarrow>
      printed w' = printed w \<and> rows w' = rows w \<and> sent w' = sent w"
    and create_ok: "run_state (td_CreateLog D r) w = (Inr u, w') \<Longrightarrow>
      rows w' = rows w @ [r] \<and> printed w' = printed w \<and> sent w' = sent w"
    and create_err: "run_state (td_CreateLog D r) w = (Inl e, w') \<Longrightarrow>
      rows w' = rows w \<and> printed w' = printed w \<and> sent w' = sent w"
    and clock_same: "run_state (time_Now R) w = (t, w') \<Longrightarrow>
      rows w' = rows w \<and> printed w' = printed w \<and> sent w' = sent w"
    and emit_sends: "collector = Some C \<Longrightarrow> run_state (ot_Emit C m) w = (v, w') \<Longrightarrow>
      sent w' = sent w @ [m] \<and> rows w' = rows w \<and> printed w' = printed w"
    and seen_same: "collector = Some C \<Longrightarrow> run_state (ot_Now C) w = (t, w') \<Longrightarrow>
      sent w' = sent w \<and> rows w' = rows w \<and> printed w' = printed w"
begin

text \<open>The hook makes the row of the line and inserts it, unless its fields do not print as JSON.\<close>

lemma Hook_row:
  assumes "run_state (Hook (Some (saveFn D)) en fs) w = (r, w')"
  shows "printed w' = printed w \<and> sent w' = sent w \<and> (case td_MarshalFields D (map_encoder fs) of
      Inl e \<Rightarrow> rows w' = rows w
    | Inr data \<Rightarrow> \<exists>t w2. run_state (td_CreateLog D (line_row en fs data)) w = (t, w2) \<and>
        rows w' = rows w @ (case t of Inl e \<Rightarrow> [] | Inr _ \<Rightarrow> [line_row en fs data]))"
proof (cases "td_MarshalFields D (map_encoder fs)")
  case (Inl e)
  with assms show ?thesis by (auto simp: Hook_def saveFn_def SaveLog_def marshal_optional_def Let_def)
next
  case (Inr data)
  with assms have "run_state (td_CreateLog D (line_row en fs data)) w = (r, w')"
    by (simp add: Hook_def saveFn_def SaveLog_def marshal_optional_def line_row_def Let_def)
  with Inr show ?thesis by (cases r) (auto dest: create_ok create_err)
qed

text \<open>What the service's own core does with an entry.\<close>

definition stored_line :: "'w \<Rightarrow> entry \<Rightarrow> fields \<Rightarrow> (entry \<times> fields) list \<Rightarrow> LogModel list \<Rightarrow> bool" where
  "stored_line w en fs ps rs \<longleftrightarrow> (\<exists>s w1. run_state (ls_Write sink en fs) w = (s, w1) \<and>
     (case s of Inl e \<Rightarrow> ps = printed w \<and> rs = rows w
      | Inr _ \<Rightarrow> ps = printed w @ [(en, fs)] \<and> (case td_MarshalFields D (map_encoder fs) of
          Inl e \<Rightarrow> rs = rows w
        | Inr data \<Rightarrow> \<exists>t w2. run_state (td_CreateLog D (line_row en fs data)) w1 = (t, w2) \<and>
            rs = rows w @ (case t of Inl e \<Rightarrow> [] | Inr _ \<Rightarrow> [line_row en fs data]))))"

lemma stored_line_printed: "stored_line w en fs ps rs \<Longrightarrow> \<exists>ls. ps = printed w @ ls"
  unfolding stored_line_def by (elim exE conjE) (simp split: sum.split_asm)

lemma stored_core_write:
  assumes "run_state (Write (stored_core cfg sink D) en fs) w = (r, w')"
  shows "stored_line w en fs (printed w') (rows w') \<and> sent w' = sent w"
proof -
  obtain s w1 where S: "run_state (ls_Write sink en fs) w = (s, w1)" by fastforce
  note defs = stored_core_def LoggerWithDatabasePersistence_def
  show ?thesis
  proof (cases s)
    case (Inl e)
    with assms S have "w' = w1" by (simp add: defs)
    with Inl sink_err [OF S [unfolded Inl]] S show ?thesis by (simp add: stored_line_def)
  next
    case (Inr v)
    obtain h w2 where H: "run_state (Hook (Some (saveFn D)) en fs) w1 = (h, w2)" by fastforce
    from assms S H Inr have "w' = w2" by (simp add: defs)
    with Inr sink_ok [OF S [unfolded Inr]] Hook_row [OF H] S show ?thesis
      by (auto simp: stored_line_def split: sum.splits)
  qed
qed

lemma otel_core_write:
  assumes "collector = Some C" "run_state (Write (OtelCore C lvl []) en fs) w = (r, w')"
  shows "printed w' = printed w \<and> rows w' = rows w \<and> (\<exists>seen. sent w' = sent w @ [line_sent C en fs seen])"
proof -
  obtain t w1 where N: "run_state (ot_Now C) w = (t, w1)" by (rule prod.exhaust)
  obtain u w2 where E: "run_state (ot_Emit C (line_sent C en fs t)) w1 = (u, w2)" by (rule prod.exhaust)
  from assms(2) N E have "w' = w2" by (simp add: otel_Write_def line_sent_def Let_def)
  with emit_sends [OF assms(1) E] seen_same [OF assms(1) N] show ?thesis by auto
qed

lemma line_logged:
  assumes "run_state (Logw R caller stack (service_core cfg collector sink D) x) w = (u, w')"
  shows "if \<not> config_level (lc_Level (cf_Log cfg)) \<le> lg_Level x \<and> collector = None then w' = w
    else \<exists>now w0. run_state (time_Now R) w = (now, w0) \<and> (let en = line_entry caller stack x now; fs = lg_Fields x in
      (if config_level (lc_Level (cf_Log cfg)) \<le> lg_Level x then stored_line w0 en fs (printed w') (rows w')
       else printed w' = printed w \<and> rows w' = rows w) \<and>
      (case collector of None \<Rightarrow> sent w' = sent w | Some C \<Rightarrow> \<exists>seen. sent w' = sent w @ [line_sent C en fs seen]))"
proof -
  let ?on = "config_level (lc_Level (cf_Log cfg)) \<le> lg_Level x" and ?core = "stored_core cfg sink D"
  obtain now w0 where N: "run_state (time_Now R) w = (now, w0)" by fastforce
  let ?en = "line_entry caller stack x now" and ?fs = "lg_Fields x"
  note n = clock_same [OF N]
  note entry = line_entry_def [of caller stack x, symmetric]
  have core: "Check ?core l = (if config_level (lc_Level (cf_Log cfg)) \<le> l then [?core] else [])" for l
    by (simp add: stored_core_def LoggerWithDatabasePersistence_def)
  have on: "Enabled ?core l \<longleftrightarrow> config_level (lc_Level (cf_Log cfg)) \<le> l" for l
    by (simp add: stored_core_def LoggerWithDatabasePersistence_def)
  show ?thesis
  proof (cases collector)
    case None
    show ?thesis
    proof (cases ?on)
      case True
      obtain r w1 where W: "run_state (Write ?core ?en ?fs) w0 = (r, w1)" by fastforce
      from assms True None N W have "w' = w1" by (simp add: Logw_def service_core_def core on entry)
      with stored_core_write [OF W] n None True N show ?thesis by (simp add: Let_def)
    next
      case False
      with assms None show ?thesis by (simp add: Logw_def service_core_def on)
    qed
  next
    case (Some C)
    show ?thesis
    proof (cases ?on)
      case True
      obtain r w1 where W: "run_state (Write ?core ?en ?fs) w0 = (r, w1)" by fastforce
      obtain s w2 where O: "run_state (Write (OtelCore C DebugLevel []) ?en ?fs) w1 = (s, w2)" by fastforce
      from assms True Some N W O have "w' = w2" by (simp add: Logw_def service_core_def core on entry)
      with stored_core_write [OF W] otel_core_write [OF Some O] n Some True N show ?thesis
        by (auto simp: Let_def)
    next
      case False
      obtain s w2 where O: "run_state (Write (OtelCore C DebugLevel []) ?en ?fs) w0 = (s, w2)" by fastforce
      from assms False Some N O have "w' = w2" by (simp add: Logw_def service_core_def core on entry)
      with otel_core_write [OF Some O] n Some False N show ?thesis by (auto simp: Let_def)
    qed
  qed
qed

text \<open>The same, written out.\<close>

lemma line_traces:
  assumes "run_state (Logw R caller stack (service_core cfg collector sink D) x) w = (u, w')"
  shows "if \<not> config_level (lc_Level (cf_Log cfg)) \<le> lg_Level x \<and> collector = None then w' = w
    else \<exists>now w0. run_state (time_Now R) w = (now, w0) \<and> (let en = line_entry caller stack x now; fs = lg_Fields x in
      (if config_level (lc_Level (cf_Log cfg)) \<le> lg_Level x
       then \<exists>s w1. run_state (ls_Write sink en fs) w0 = (s, w1) \<and>
         (case s of Inl e \<Rightarrow> printed w' = printed w \<and> rows w' = rows w
          | Inr _ \<Rightarrow> printed w' = printed w @ [(en, fs)] \<and> (case td_MarshalFields D (map_encoder fs) of
              Inl e \<Rightarrow> rows w' = rows w
            | Inr data \<Rightarrow> \<exists>t w2. run_state (td_CreateLog D (line_row en fs data)) w1 = (t, w2) \<and>
                rows w' = rows w @ (case t of Inl e \<Rightarrow> [] | Inr _ \<Rightarrow> [line_row en fs data])))
       else printed w' = printed w \<and> rows w' = rows w) \<and>
      (case collector of None \<Rightarrow> sent w' = sent w | Some C \<Rightarrow> \<exists>seen. sent w' = sent w @ [line_sent C en fs seen]))"
proof (cases "\<not> config_level (lc_Level (cf_Log cfg)) \<le> lg_Level x \<and> collector = None")
  case True
  with line_logged [OF assms] show ?thesis by simp
next
  case False
  with line_logged [OF assms] obtain now w0 where N: "run_state (time_Now R) w = (now, w0)" and
    l: "let en = line_entry caller stack x now; fs = lg_Fields x in
      (if config_level (lc_Level (cf_Log cfg)) \<le> lg_Level x then stored_line w0 en fs (printed w') (rows w')
       else printed w' = printed w \<and> rows w' = rows w) \<and>
      (case collector of None \<Rightarrow> sent w' = sent w | Some C \<Rightarrow> \<exists>seen. sent w' = sent w @ [line_sent C en fs seen])"
    by (auto simp: Let_def)
  have same: "printed w0 = printed w" "rows w0 = rows w" using clock_same [OF N] by simp_all
  show ?thesis unfolding if_not_P [OF False] using N l [unfolded stored_line_def same] by blast
qed

text \<open>A line never removes one; on a standard output that takes everything, one at the level is added.\<close>

lemma line_appends:
  assumes "run_state (Logw R caller stack (service_core cfg collector sink D) x) w = (u, w')"
  shows "\<exists>ls. printed w' = printed w @ ls"
proof (cases "\<not> config_level (lc_Level (cf_Log cfg)) \<le> lg_Level x \<and> collector = None")
  case True
  with line_logged [OF assms] show ?thesis by simp
next
  case False
  with line_logged [OF assms] obtain now w0 where N: "run_state (time_Now R) w = (now, w0)"
    and l: "stored_line w0 (line_entry caller stack x now) (lg_Fields x) (printed w') (rows w') \<or> printed w' = printed w"
    by (auto simp: Let_def split: if_splits)
  from l stored_line_printed clock_same [OF N] show ?thesis by fastforce
qed

lemma line_printed:
  assumes "run_state (Logw R caller stack (service_core cfg collector sink D) x) w = (u, w')"
    and "config_level (lc_Level (cf_Log cfg)) \<le> lg_Level x"
    and "\<And>en fs w r w'. run_state (ls_Write sink en fs) w = (r, w') \<Longrightarrow> r = Inr ()"
  shows "\<exists>now. printed w' = printed w @ [(line_entry caller stack x now, lg_Fields x)]"
proof -
  from line_logged [OF assms(1)] assms(2) obtain now w0 where N: "run_state (time_Now R) w = (now, w0)"
    and l: "stored_line w0 (line_entry caller stack x now) (lg_Fields x) (printed w') (rows w')"
    by (auto simp: Let_def)
  obtain s w1 where S: "run_state (ls_Write sink (line_entry caller stack x now) (lg_Fields x)) w0 = (s, w1)" by fastforce
  with assms(3) have "s = Inr ()" by blast
  with l S clock_same [OF N] show ?thesis by (auto simp: stored_line_def)
qed

end

section \<open>Lists as sinks\<close>

text \<open>
  A world with three lists beside it, for the standard output, the table and the collector, where the
  table has the width of the migration's column for correlation identifiers.
\<close>

type_synonym 's logging = "'s \<times> (entry \<times> fields) list \<times> LogModel list \<times> otel_record list"

definition beside_log :: "('s, 'a) state \<Rightarrow> ('s logging, 'a) state" where
  "beside_log m = State (\<lambda>(s, l). case run_state m s of (x, s') \<Rightarrow> (x, (s', l)))"

lemma run_beside_log [simp]:
  "run_state (beside_log m) w = (fst (run_state m (fst w)), (snd (run_state m (fst w)), snd w))"
  by (simp add: beside_log_def split: prod.splits)

definition logging_runtime :: "('s, 'z) runtime_scheme \<Rightarrow> 's logging runtime" where
  "logging_runtime R =
     \<lparr>time_Now = beside_log (time_Now R), uuid_NewV7 = beside_log (uuid_NewV7 R), uuid_New = beside_log (uuid_New R),
      uuid_Parse = uuid_Parse R, uuid_Rest = uuid_Rest R, uuid_String = uuid_String R,
      time_MarshalText = time_MarshalText R, time_UnmarshalText = time_UnmarshalText R\<rparr>"

definition list_sink :: "'s logging line_sink" where
  "list_sink = \<lparr>ls_Write = (\<lambda>en fs. State (\<lambda>(s, ps, l). (Inr (), (s, ps @ [(en, fs)], l)))), ls_Sync = ret (Inr ())\<rparr>"

definition too_long :: "LogModel \<Rightarrow> bool" where
  "too_long r = (case lm_CorrelationID r of None \<Rightarrow> False | Some c \<Rightarrow> length c > 36)"

definition list_db :: "(int, 's logging) telemetry_db" where
  "list_db =
     \<lparr>td_CreateLog = (\<lambda>r. State (\<lambda>(s, ps, rs, os).
        if too_long r then (Inl (ErrDriver ''value too long''), (s, ps, rs, os)) else (Inr (), (s, ps, rs @ [r], os)))),
      td_SelectLogs = (\<lambda>P le lim. State (\<lambda>(s, ps, rs, os). (Inr (filter P rs), (s, ps, rs, os)))),
      td_CreateMetric = (\<lambda>m. ret (Inr ())), td_SelectMetrics = (\<lambda>P le. ret (Inr [])),
      td_Aggregate = (\<lambda>f P. ret (Inr 0)), td_DeleteMetrics = (\<lambda>P. ret (Inr ())),
      td_MarshalFields = (\<lambda>fs. Inr ''{}''), td_MarshalLabels = (\<lambda>ls. Inr ''{}'')\<rparr>"

definition list_client :: "'s logging otel_client" where
  "list_client =
     \<lparr>ot_Emit = (\<lambda>r. State (\<lambda>(s, ps, rs, os). ((), (s, ps, rs, os @ [r])))), ot_Now = ret 0,
      ot_TraceIDFromHex = Some, ot_SpanIDFromHex = Some\<rparr>"

abbreviation ll_printed :: "'s logging \<Rightarrow> (entry \<times> fields) list" where "ll_printed w \<equiv> fst (snd w)"
abbreviation ll_rows :: "'s logging \<Rightarrow> LogModel list" where "ll_rows w \<equiv> fst (snd (snd w))"
abbreviation ll_sent :: "'s logging \<Rightarrow> otel_record list" where "ll_sent w \<equiv> snd (snd (snd w))"

interpretation ll: log_pipeline "logging_runtime E" list_sink list_db "if b then Some list_client else None"
  ll_printed ll_rows ll_sent for E b
  by unfold_locales
    (auto simp: logging_runtime_def list_sink_def list_db_def list_client_def split: if_splits prod.splits)

section \<open>A line\<close>

text \<open>C26: A line below the configured level is neither printed nor stored.  A line at or above it is handed to the
  standard output with its time, caller and, from the error level on, stack; when that takes it, it is
  printed once, and then the one row of the line, under the trace and correlation identifiers among
  its fields, is inserted, unless its fields do not print as JSON or the insert fails, which is not
  reported; when the standard output refuses it, it is neither printed nor stored.  With a collector
  every line, of whatever level, is sent to it once; without one nothing is sent.\<close>

theorem log_line_stored_once:
  assumes "log_pipeline R sink D collector printed rows sent"
    and "run_state (Logw R caller stack (service_core cfg collector sink D) x) w = (u, w')"
  shows "if \<not> config_level (lc_Level (cf_Log cfg)) \<le> lg_Level x \<and> collector = None then w' = w
    else \<exists>now w0. run_state (time_Now R) w = (now, w0) \<and> (let en = line_entry caller stack x now; fs = lg_Fields x in
      (if config_level (lc_Level (cf_Log cfg)) \<le> lg_Level x
       then \<exists>s w1. run_state (ls_Write sink en fs) w0 = (s, w1) \<and>
         (case s of Inl e \<Rightarrow> printed w' = printed w \<and> rows w' = rows w
          | Inr _ \<Rightarrow> printed w' = printed w @ [(en, fs)] \<and> (case td_MarshalFields D (map_encoder fs) of
              Inl e \<Rightarrow> rows w' = rows w
            | Inr data \<Rightarrow> \<exists>t w2. run_state (td_CreateLog D (line_row en fs data)) w1 = (t, w2) \<and>
                rows w' = rows w @ (case t of Inl e \<Rightarrow> [] | Inr _ \<Rightarrow> [line_row en fs data])))
       else printed w' = printed w \<and> rows w' = rows w) \<and>
      (case collector of None \<Rightarrow> sent w' = sent w | Some C \<Rightarrow> \<exists>seen. sent w' = sent w @ [line_sent C en fs seen]))"
  using log_pipeline.line_traces [OF assms] .

text \<open>A debug line under the default configuration, and an access line with a correlation identifier.\<close>

definition sc_config :: Config where
  "sc_config = LoadConfig \<lparr>ev_Getenv = (\<lambda>k. ''''), ev_ParseDuration = (\<lambda>s. None)\<rparr>"

definition sc_log :: "bool \<Rightarrow> level \<Rightarrow> string \<Rightarrow> mem logging" where
  "sc_log b l c = snd (run_state (Logw (logging_runtime mem_platform) None ''stack''
       (service_core sc_config (if b then Some list_client else None) list_sink list_db)
     \<lparr>lg_Level = l, lg_Message = ''http request'', lg_Fields = [(''correlation_id'', FStr c)]\<rparr>) (mem_empty, [], [], []))"

lemma sc_config_level: "config_level (lc_Level (cf_Log sc_config)) = InfoLevel"
  by (simp add: sc_config_def LoadConfig_def envStr_def config_level_def)

lemma sc_row_fits: "\<not> too_long (line_row en [(''correlation_id'', FStr ''c'')] data)"
  by (simp add: too_long_def line_row_def log_row_def nonempty_def map_encoder_def string_field_def)

theorem log_line_stored_once_witness:
  "ll_printed (sc_log True DebugLevel ''c'') = [] \<and> ll_rows (sc_log True DebugLevel ''c'') = [] \<and>
   length (ll_sent (sc_log True DebugLevel ''c'')) = 1 \<and>
   length (ll_printed (sc_log True InfoLevel ''c'')) = 1 \<and> length (ll_rows (sc_log True InfoLevel ''c'')) = 1"
proof -
  let ?x = "\<lambda>l. \<lparr>lg_Level = l, lg_Message = ''http request'', lg_Fields = [(''correlation_id'', FStr ''c'')]\<rparr>"
  have run: "run_state (Logw (logging_runtime mem_platform) None ''stack'' (service_core sc_config
      (if True then Some list_client else None) list_sink list_db) (?x l))
      (mem_empty, [], [], []) = ((), sc_log True l ''c'')" for l
    by (simp add: sc_log_def prod_eq_iff)
  from log_line_stored_once [OF ll.log_pipeline_axioms run [of DebugLevel]]
    log_line_stored_once [OF ll.log_pipeline_axioms run [of InfoLevel]]
  show ?thesis
    by (auto simp: sc_config_level less_eq_level_def Let_def list_sink_def list_db_def sc_row_fits
        split: if_splits prod.splits)
qed

text \<open>An identifier of the caller that the column does not hold: the line is printed and not stored.\<close>

lemma long_identifier_not_stored:
  assumes "length c > 36"
  shows "ll_rows (sc_log False InfoLevel c) = [] \<and> length (ll_printed (sc_log False InfoLevel c)) = 1"
  using assms
  by (cases c) (simp_all add: sc_log_def Logw_def service_core_def stored_core_def LoggerWithDatabasePersistence_def
      sc_config_level logging_runtime_def list_sink_def list_db_def Hook_def saveFn_def SaveLog_def marshal_optional_def
      Let_def log_row_def string_field_def map_encoder_def nonempty_def too_long_def list.size(3))

text \<open>The hook does not see the fields that \<^verbatim>\<open>With\<close> collected: they are printed and not stored.\<close>

lemma With_fields_not_hooked:
  "run_state (Write (With (HookedCore (SinkCore lvl own sink) hooks) fs) en gs) w =
     run_state (do { r \<leftarrow> ls_Write sink en ((own @ fs) @ gs);
       case r of Inl err \<Rightarrow> ret (Inl err) | Inr _ \<Rightarrow> do { run_hooks hooks en gs; ret (Inr ()) } }) w"
  by simp

end
