(* ===== verification/Query_Properties.thy ===== *)
theory Query_Properties imports Read_Properties Queries begin

text \<open>
  The properties of the queries on any database that obeys the laws of \<open>gorm_platform\<close>: what
  one order's response shows, and what a page of orders is.
\<close>

section \<open>Library\<close>

lemma total_preorder_le:
  "total_preorder (\<lambda>a b. f a \<le> (f b :: 'k :: linorder))" "total_preorder (\<lambda>a b. f b \<le> (f a :: 'k :: linorder))"
  by (auto simp: total_preorder_def intro: order_trans)

lemma total_preorder_image:
  assumes "total_preorder c"
  shows "total_preorder (\<lambda>a b. c (g a) (g b))" "total_preorder (\<lambda>a b. c (g b) (g a))"
  using assms unfolding total_preorder_def by blast+

lemma order_by_alt:
  "order_by collate clause =
     (if clause = ''created_at ASC'' then (\<lambda>a b. ovm_CreatedAt a \<le> ovm_CreatedAt b)
      else if clause = ''created_at DESC'' then (\<lambda>a b. ovm_CreatedAt b \<le> ovm_CreatedAt a)
      else if clause = ''updated_at ASC'' then (\<lambda>a b. ovm_UpdatedAt a \<le> ovm_UpdatedAt b)
      else if clause = ''updated_at DESC'' then (\<lambda>a b. ovm_UpdatedAt b \<le> ovm_UpdatedAt a)
      else if clause = ''total_amount ASC'' then (\<lambda>a b. sint (ovm_TotalAmount a) \<le> sint (ovm_TotalAmount b))
      else if clause = ''total_amount DESC'' then (\<lambda>a b. sint (ovm_TotalAmount b) \<le> sint (ovm_TotalAmount a))
      else if clause = ''status ASC'' then (\<lambda>a b. collate (ovm_Status a) (ovm_Status b))
      else if clause = ''status DESC'' then (\<lambda>a b. collate (ovm_Status b) (ovm_Status a))
      else (\<lambda>a b. True))"
  by (intro ext) (simp add: order_by_def)

lemma order_by_preorder:
  assumes "total_preorder collate"
  shows "total_preorder (order_by collate clause)"
  unfolding order_by_alt
  by (simp add: total_preorder_def [of "\<lambda>a b. True"])
    (intro conjI impI total_preorder_le total_preorder_image [OF assms])

text \<open>What a query asks for, and the order it asks for, read off its fields.\<close>

definition asked_for :: "'w platform \<Rightarrow> ListOrders \<Rightarrow> OrderViewModel \<Rightarrow> bool" where
  "asked_for E q m \<longleftrightarrow>
     (\<forall>s i. lq_CustomerID q = Some s \<and> uuid_Parse E s = Inr i \<longrightarrow> ovm_CustomerID m = i) \<and>
     (\<forall>s. lq_Status q = Some s \<and> s \<noteq> '''' \<longrightarrow> ovm_Status m = s) \<and>
     (\<forall>t. lq_CreatedFrom q = Some t \<longrightarrow> t \<le> ovm_CreatedAt m) \<and> (\<forall>t. lq_CreatedTo q = Some t \<longrightarrow> ovm_CreatedAt m \<le> t)"

definition column_le :: "(string \<Rightarrow> string \<Rightarrow> bool) \<Rightarrow> string \<Rightarrow> OrderViewModel \<Rightarrow> OrderViewModel \<Rightarrow> bool" where
  "column_le collate col a b =
     (if col = ''total_amount'' then sint (ovm_TotalAmount a) \<le> sint (ovm_TotalAmount b)
      else if col = ''status'' then collate (ovm_Status a) (ovm_Status b)
      else if col = ''updated_at'' then ovm_UpdatedAt a \<le> ovm_UpdatedAt b
      else ovm_CreatedAt a \<le> ovm_CreatedAt b)"

definition listed_before :: "'w platform \<Rightarrow> ListOrders \<Rightarrow> OrderViewModel \<Rightarrow> OrderViewModel \<Rightarrow> bool" where
  "listed_before E q a b =
     (if lq_SortBy q \<in> {''total_amount'', ''status'', ''updated_at'', ''created_at''} \<and> lq_SortDir q \<noteq> ''desc''
      then column_le (pf_collate E) (lq_SortBy q) a b else column_le (pf_collate E) (lq_SortBy q) b a)"

lemma asked_for_where: "list_where (list_filter E q) = asked_for E q"
  by (rule ext) (auto simp: list_where_def list_filter_def asked_for_def split: option.splits sum.splits)

lemma listed_before_clause: "order_by (pf_collate E) (order_clause (list_filter E q)) = listed_before E q"
proof (intro ext)
  fix a b
  show "order_by (pf_collate E) (order_clause (list_filter E q)) a b = listed_before E q a b"
    by (cases "lq_SortDir q = ''desc''")
      (auto simp: order_by_def order_clause_def list_filter_def listed_before_def column_le_def Let_def)
qed

context gorm_platform begin

text \<open>The page of a filter: a slice of the matching views, sorted as asked for.\<close>

lemma ListOrders_ok:
  assumes "run_state (rm_ListOrders (NewGormReadModelStore E) f) w = (Inr r, w')" "0 \<le> sint (fl_PageSize f)"
  shows "view w' = view w \<and> po_Page r = fl_Page f \<and> po_PageSize r = fl_PageSize f \<and>
    po_TotalCount r = of_nat (card (matching (list_where f) (t_order_views (view w)))) \<and>
    (\<exists>ms. distinct (map ovm_ID ms) \<and> set ms = rows_of (list_where f) (t_order_views (view w)) \<and>
       sorted_wrt (order_by (pf_collate E) (order_clause f)) ms \<and>
       po_Orders r = map to_order_view (take (nat (sint (fl_PageSize f)))
         (drop (nat (sint ((fl_Page f - 1) * fl_PageSize f))) ms)))"
proof -
  from assms(1) obtain n w1 ms where
    C: "run_state (g_Count (pf_order_views E) (list_where f)) w = (Inr n, w1)" and
    S: "run_state (g_Select (pf_order_views E) (list_where f) (order_by (pf_collate E) (order_clause f))
        ((fl_Page f - 1) * fl_PageSize f) (fl_PageSize f)) w1 = (Inr ms, w')" and
    r: "r = \<lparr>po_Orders = map to_order_view ms, po_TotalCount = n, po_Page = fl_Page f, po_PageSize = fl_PageSize f\<rparr>"
    by (auto simp: NewGormReadModelStore_def GormReadModelStore_ListOrders_def Let_def
        split: prod.splits sum.splits)
  note c = views.Count_ok [OF C]
  from views.Select_ok [OF S assms(2) order_by_preorder [OF collate_preorder]] c
  show ?thesis by (auto simp: r)
qed

lemma get_order_rows:
  assumes "run_state (rm_GetOrderByID (NewGormReadModelStore E) i) w = (Inr (v, items), w')"
  shows "\<exists>m ls. view w' = view w \<and> t_order_views (view w) i = Some m \<and> ovm_ID m = i \<and> v = to_order_view m \<and>
    items = map to_item_view ls \<and> distinct (map ivm_ID ls) \<and> set ls = rows_of (\<lambda>l. ivm_OrderID l = i) (t_item_views (view w))"
proof -
  from assms obtain m w1 ls where
    1: "run_state (g_First (pf_order_views E) (\<lambda>m. ovm_ID m = i)) w = (Inr m, w1)" and
    2: "run_state (g_Find (pf_item_views E) (\<lambda>im. ivm_OrderID im = i)) w1 = (Inr ls, w')" and
    v: "v = to_order_view m" "items = map to_item_view ls"
    by (auto simp: NewGormReadModelStore_def GormReadModelStore_GetOrderByID_def split: prod.splits sum.splits if_splits)
  from views.First_ok [OF 1] iviews.Find_ok [OF 2] v show ?thesis by auto
qed

lemma get_order_law:
  assumes "run_state (GetOrderHandler_Handle E (NewGormReadModelStore E) q) w = (res, w')"
  shows "view w' = view w \<and> (case uuid_Parse E (gq_OrderID q) of
      Inl err \<Rightarrow> res = Inl (ErrWrap ''invalid order id: '' err)
    | Inr i \<Rightarrow> (case res of
        Inl e \<Rightarrow> e = ErrOrderNotFound \<and> t_order_views (view w) i = None \<or> is_driver_error e
      | Inr r \<Rightarrow> \<exists>m ls. t_order_views (view w) i = Some m \<and> distinct (map ivm_ID ls) \<and>
          set ls = rows_of (\<lambda>l. ivm_OrderID l = i) (t_item_views (view w)) \<and>
          r = \<lparr>or_ID = uuid_String E i, or_CustomerID = uuid_String E (ovm_CustomerID m), or_Status = ovm_Status m,
            or_TotalAmount = ovm_TotalAmount m, or_ItemCount = ovm_ItemCount m,
            or_Items = map (\<lambda>l. \<lparr>oir_ID = uuid_String E (ivm_ID l), oir_ProductID = ivm_ProductID l,
              oir_ProductName = ivm_ProductName l, oir_Quantity = ivm_Quantity l, oir_UnitPrice = ivm_UnitPrice l,
              oir_TotalPrice = ivm_TotalPrice l\<rparr>) ls,
            or_CreatedAt = ovm_CreatedAt m, or_UpdatedAt = ovm_UpdatedAt m\<rparr>))"
proof (cases "uuid_Parse E (gq_OrderID q)")
  case (Inl err)
  with assms show ?thesis by (auto simp: GetOrderHandler_Handle_def)
next
  case (Inr i)
  obtain x w1 where G: "run_state (rm_GetOrderByID (NewGormReadModelStore E) i) w = (x, w1)" by fastforce
  show ?thesis
  proof (cases x)
    case (Inl e)
    with assms Inr G have r: "res = Inl e" "w' = w1" by (simp_all add: GetOrderHandler_Handle_def)
    have "run_state (GormReadModelStore_GetOrderByID E i) w = (Inl e, w1)"
      using G Inl by (simp add: NewGormReadModelStore_def)
    from GetOrderByID_err [OF this] r Inr show ?thesis by (auto simp: stored_views_def)
  next
    case (Inr y)
    obtain v items where y: "y = (v, items)" by fastforce
    from assms G \<open>uuid_Parse _ _ = _\<close> Inr y have r: "res = Inr (order_response E v (map (item_response E) items))" "w' = w1"
      by (simp_all add: GetOrderHandler_Handle_def)
    from get_order_rows [OF G [unfolded Inr y]] obtain m ls where "view w1 = view w"
      and m: "t_order_views (view w) i = Some m" "ovm_ID m = i" and v: "v = to_order_view m" "items = map to_item_view ls"
      and ls: "distinct (map ivm_ID ls)" "set ls = rows_of (\<lambda>l. ivm_OrderID l = i) (t_item_views (view w))" by blast
    moreover have "order_response E v (map (item_response E) items) =
        \<lparr>or_ID = uuid_String E i, or_CustomerID = uuid_String E (ovm_CustomerID m), or_Status = ovm_Status m,
          or_TotalAmount = ovm_TotalAmount m, or_ItemCount = ovm_ItemCount m,
          or_Items = map (\<lambda>l. \<lparr>oir_ID = uuid_String E (ivm_ID l), oir_ProductID = ivm_ProductID l,
            oir_ProductName = ivm_ProductName l, oir_Quantity = ivm_Quantity l, oir_UnitPrice = ivm_UnitPrice l,
            oir_TotalPrice = ivm_TotalPrice l\<rparr>) ls,
          or_CreatedAt = ovm_CreatedAt m, or_UpdatedAt = ovm_UpdatedAt m\<rparr>"
      using m(2) by (simp add: order_response_def v to_order_view_def item_response_def to_item_view_def)
    ultimately show ?thesis unfolding \<open>uuid_Parse _ _ = _\<close> r sum.case by blast
  qed
qed

end

section \<open>Properties\<close>

text \<open>C33: The answer to a query for one order is its view and its lines, field by field: identifier,
  customer, status, total, count and instants are those of the row of the view, and there is one
  item for each row of its lines, with that row's product, quantity and prices.  An identifier that
  does not parse, an order without a view and an error of the database are reported as such.  A query
  changes nothing.\<close>

theorem get_order_shows_view:
  assumes "gorm_platform E view"
    and "run_state (GetOrderHandler_Handle E (NewGormReadModelStore E) q) w = (res, w')"
  shows "view w' = view w \<and> (case uuid_Parse E (gq_OrderID q) of
      Inl err \<Rightarrow> res = Inl (ErrWrap ''invalid order id: '' err)
    | Inr i \<Rightarrow> (case res of
        Inl e \<Rightarrow> e = ErrOrderNotFound \<and> t_order_views (view w) i = None \<or> is_driver_error e
      | Inr r \<Rightarrow> \<exists>m ls. t_order_views (view w) i = Some m \<and> distinct (map ivm_ID ls) \<and>
          set ls = rows_of (\<lambda>l. ivm_OrderID l = i) (t_item_views (view w)) \<and>
          r = \<lparr>or_ID = uuid_String E i, or_CustomerID = uuid_String E (ovm_CustomerID m), or_Status = ovm_Status m,
            or_TotalAmount = ovm_TotalAmount m, or_ItemCount = ovm_ItemCount m,
            or_Items = map (\<lambda>l. \<lparr>oir_ID = uuid_String E (ivm_ID l), oir_ProductID = ivm_ProductID l,
              oir_ProductName = ivm_ProductName l, oir_Quantity = ivm_Quantity l, oir_UnitPrice = ivm_UnitPrice l,
              oir_TotalPrice = ivm_TotalPrice l\<rparr>) ls,
            or_CreatedAt = ovm_CreatedAt m, or_UpdatedAt = ovm_UpdatedAt m\<rparr>))"
  using gorm_platform.get_order_law [OF assms] .

definition sc_response :: OrderResponse where
  "sc_response = \<lparr>or_ID = ''u'', or_CustomerID = unary CHR ''u'' 7, or_Status = ''CONFIRMED'', or_TotalAmount = 1500,
     or_ItemCount = 1, or_Items = [\<lparr>oir_ID = unary CHR ''u'' 3, oir_ProductID = ''p'', oir_ProductName = ''pen'',
       oir_Quantity = 3, oir_UnitPrice = 500, oir_TotalPrice = 1500\<rparr>], or_CreatedAt = 2, or_UpdatedAt = 15\<rparr>"

lemma sc_get_order:
  "run_state (GetOrderHandler_Handle mem_platform (NewGormReadModelStore mem_platform) \<lparr>gq_OrderID = ''u''\<rparr>) sc_r_done
     = (Inr sc_response, sc_r_done)"
  by (simp add: queries_eval sc_handle sc_r_done_def sc_response_def)

theorem get_order_shows_view_witness:
  "\<exists>m. t_order_views (mem_view sc_r_done) 1 = Some m \<and> ovm_Status m = ''CONFIRMED'' \<and> ovm_TotalAmount m = 1500 \<and>
    (\<exists>l \<in> rows_of (\<lambda>l. ivm_OrderID l = 1) (t_item_views (mem_view sc_r_done)). ivm_ProductName l = ''pen'' \<and> ivm_UnitPrice l = 500)"
proof -
  have u: "uuid_Parse mem_platform ''u'' = Inr 1" by (simp add: mem_eval)
  from get_order_shows_view [OF mem.gorm_platform_axioms sc_get_order] obtain m ls where
    m: "t_order_views (mem_view sc_r_done) 1 = Some m" and
    ls: "set ls = rows_of (\<lambda>l. ivm_OrderID l = 1) (t_item_views (mem_view sc_r_done))" and
    r: "sc_response = \<lparr>or_ID = uuid_String mem_platform 1, or_CustomerID = uuid_String mem_platform (ovm_CustomerID m),
      or_Status = ovm_Status m, or_TotalAmount = ovm_TotalAmount m, or_ItemCount = ovm_ItemCount m,
      or_Items = map (\<lambda>l. \<lparr>oir_ID = uuid_String mem_platform (ivm_ID l), oir_ProductID = ivm_ProductID l,
        oir_ProductName = ivm_ProductName l, oir_Quantity = ivm_Quantity l, oir_UnitPrice = ivm_UnitPrice l,
        oir_TotalPrice = ivm_TotalPrice l\<rparr>) ls,
      or_CreatedAt = ovm_CreatedAt m, or_UpdatedAt = ovm_UpdatedAt m\<rparr>"
    by (auto simp: u)
  have names: "map oir_ProductName (or_Items sc_response) = map ivm_ProductName ls"
    and prices: "map oir_UnitPrice (or_Items sc_response) = map ivm_UnitPrice ls"
    and st: "or_Status sc_response = ovm_Status m" and tot: "or_TotalAmount sc_response = ovm_TotalAmount m"
    unfolding r by (simp_all add: o_def)
  from names prices obtain l where "ls = [l]" "ivm_ProductName l = ''pen''" "ivm_UnitPrice l = 500"
    by (cases ls) (auto simp: sc_response_def)
  then have "l \<in> rows_of (\<lambda>l. ivm_OrderID l = 1) (t_item_views (mem_view sc_r_done))" using ls by auto
  moreover have "ovm_Status m = ''CONFIRMED''" "ovm_TotalAmount m = 1500" using st tot by (simp_all add: sc_response_def)
  ultimately show ?thesis using m \<open>ivm_ProductName l = _\<close> \<open>ivm_UnitPrice l = _\<close> by blast
qed

text \<open>C34: A page of orders.  The page asked for is raised to 1, a size outside 1 to 100 becomes 20; the count
  is that of the views asked for (of the customer, when the text given is an identifier; of the
  status, when one is given; created in the range given), and the orders are that page of these views, each
  with the fields of its row and without items, in the order asked for: by one of the four sortable
  columns, descending for \<^verbatim>\<open>desc\<close> and ascending otherwise, and by creation, newest first, for any other
  column.  This holds as long as the offset fits 64 bits.\<close>

theorem list_orders_page:
  assumes "gorm_platform E view"
    and "run_state (ListOrdersHandler_Handle E (NewGormReadModelStore E) q) w = (Inr r, w')"
    and "(sint (pr_Page r) - 1) * sint (pr_PageSize r) < 2 ^ 63"
  shows "view w' = view w \<and> pr_Page r = (if sint (lq_Page q) < 1 then 1 else lq_Page q) \<and>
    pr_PageSize r = (if 1 \<le> sint (lq_PageSize q) \<and> sint (lq_PageSize q) \<le> 100 then lq_PageSize q else 20) \<and>
    pr_TotalCount r = of_nat (card (matching (asked_for E q) (t_order_views (view w)))) \<and>
    (\<exists>ms. distinct (map ovm_ID ms) \<and> set ms = rows_of (asked_for E q) (t_order_views (view w)) \<and>
       sorted_wrt (listed_before E q) ms \<and>
       pr_Orders r = map (\<lambda>m. \<lparr>or_ID = uuid_String E (ovm_ID m), or_CustomerID = uuid_String E (ovm_CustomerID m),
           or_Status = ovm_Status m, or_TotalAmount = ovm_TotalAmount m, or_ItemCount = ovm_ItemCount m, or_Items = [],
           or_CreatedAt = ovm_CreatedAt m, or_UpdatedAt = ovm_UpdatedAt m\<rparr>)
         (take (nat (sint (pr_PageSize r))) (drop (nat ((sint (pr_Page r) - 1) * sint (pr_PageSize r))) ms)))"
proof -
  let ?f = "list_filter E q"
  from assms(2) obtain p where
    L: "run_state (rm_ListOrders (NewGormReadModelStore E) ?f) w = (Inr p, w')" and
    r: "r = \<lparr>pr_Orders = map (\<lambda>ov. order_response E ov []) (po_Orders p), pr_TotalCount = po_TotalCount p,
      pr_Page = po_Page p, pr_PageSize = po_PageSize p\<rparr>"
    by (auto simp: ListOrdersHandler_Handle_def split: prod.splits sum.splits)
  have b: "1 \<le> sint (fl_Page ?f)" "1 \<le> sint (fl_PageSize ?f)" "sint (fl_PageSize ?f) \<le> 100"
    by (rule list_filter_bounds)+
  have "0 \<le> sint (fl_PageSize ?f)" using b by simp
  note l = gorm_platform.ListOrders_ok [OF assms(1) L this, unfolded asked_for_where listed_before_clause]
  have "sint ((fl_Page ?f - 1) * fl_PageSize ?f) = (sint (fl_Page ?f) - 1) * sint (fl_PageSize ?f)"
    using assms(3) l b by (intro offset_exact) (simp_all add: r)
  moreover have "fl_Page ?f = (if sint (lq_Page q) < 1 then 1 else lq_Page q)"
    "fl_PageSize ?f = (if 1 \<le> sint (lq_PageSize q) \<and> sint (lq_PageSize q) \<le> 100 then lq_PageSize q else 20)"
    by (auto simp: list_filter_def)
  ultimately show ?thesis using l by (auto simp: r o_def order_response_def to_order_view_def)
qed

definition sc_list :: "go_int \<Rightarrow> ListOrders" where
  "sc_list page = \<lparr>lq_CustomerID = None, lq_Status = Some ''CONFIRMED'', lq_CreatedFrom = None, lq_CreatedTo = None,
     lq_SortBy = ''status'', lq_SortDir = ''desc'', lq_Page = page, lq_PageSize = 20\<rparr>"

definition sc_page :: "go_int \<Rightarrow> PaginatedOrdersResponse" where
  "sc_page page = \<lparr>pr_Orders = [sc_response\<lparr>or_Items := []\<rparr>], pr_TotalCount = 1, pr_Page = page, pr_PageSize = 20\<rparr>"

lemma sc_list_orders:
  "run_state (ListOrdersHandler_Handle mem_platform (NewGormReadModelStore mem_platform) (sc_list page)) sc_r_done
     = (Inr (sc_page page), sc_r_done)" if "page = 1 \<or> page = 4611686018427387905"
  using that
  by (elim disjE) (simp_all add: queries_eval sc_handle sc_r_done_def sc_response_def sc_list_def sc_page_def)

theorem list_orders_page_witness:
  "(1 :: int64) = of_nat (card (matching (asked_for mem_platform (sc_list 1)) (t_order_views (mem_view sc_r_done))))"
  using list_orders_page [OF mem.gorm_platform_axioms sc_list_orders [of 1]] by (simp add: sc_page_def)

text \<open>C39: Beyond that bound the offset wraps around: page 4611686018427387905 of size 20 is served, as such,
  with the orders of the first page.\<close>

theorem list_orders_offset_wraps:
  "(4611686018427387905 - 1) * (20 :: go_int) = 0 \<and>
   (\<exists>r r1 w' w1.
     run_state (ListOrdersHandler_Handle mem_platform (NewGormReadModelStore mem_platform) (sc_list 4611686018427387905))
       sc_r_done = (Inr r, w') \<and>
     run_state (ListOrdersHandler_Handle mem_platform (NewGormReadModelStore mem_platform) (sc_list 1)) sc_r_done = (Inr r1, w1) \<and>
     sint (pr_Page r) = 4611686018427387905 \<and> pr_TotalCount r = 1 \<and> pr_Orders r = pr_Orders r1 \<and> pr_Orders r \<noteq> [])"
  using sc_list_orders [of 4611686018427387905] sc_list_orders [of 1] by (simp add: sc_page_def)

end
