(* ===== verification/Http_Properties.thy ===== *)
theory Http_Properties imports Http Query_Properties begin

text \<open>
  The properties of the HTTP interface over the whole service: what an answer says of the
  effect on the database, how errors are reported, and that the two sets of handlers agree.
\<close>

section \<open>The error mapper\<close>

definition is_domain_error :: "go_error \<Rightarrow> bool" where
  "is_domain_error e \<longleftrightarrow> list_ex (errors_is e) domain_errors"

lemma mapError_cases:
  "snd (snd (mapError e)) = (if is_domain_error e then error_text e else ''An unexpected error occurred'')"
  "(fst (snd (mapError e)) = 500) = (\<not> is_domain_error e)"
  "fst (snd (mapError e)) \<in> {400, 404, 409, 422, 500}"
  by (auto simp: mapError_def is_domain_error_def)

text \<open>An error is reported with its own text exactly when it wraps a sentinel of the domain, and then
  with a status below 500; everything else (database, decoding, identifiers) becomes status 500
  with a fixed text, so that no internal detail leaks.\<close>

theorem error_mapper_hides_internals:
  "snd (snd (mapError e)) = (if is_domain_error e then error_text e else ''An unexpected error occurred'') \<and>
   (fst (snd (mapError e)) = 500) = (\<not> is_domain_error e) \<and>
   fst (snd (mapError e)) \<in> {400, 404, 409, 422, 500}"
  using mapError_cases [of e] by blast

section \<open>Library\<close>

abbreviation service_handler :: "'w platform \<Rightarrow> http_libs \<Rightarrow> (log_record \<Rightarrow> ('w, unit) state) \<Rightarrow> 'w Handler" where
  "service_handler E L logger \<equiv> NewHandler E L logger (NewGormUnitOfWork E) (NewGormReadModelStore E)"

text \<open>A logger that does not touch what \<open>view\<close> shows: the log may be written to tables of its own.\<close>

definition quiet :: "('w \<Rightarrow> 'v) \<Rightarrow> (log_record \<Rightarrow> ('w, unit) state) \<Rightarrow> bool" where
  "quiet view logger \<longleftrightarrow> (\<forall>x w. view (snd (run_state (logger x) w)) = view w)"

lemma quietD: "quiet view logger \<Longrightarrow> run_state (logger x) w = (u, w') \<Longrightarrow> view w' = view w"
  by (metis quiet_def snd_conv)

lemma mapAndWriteError_sel:
  "rs_Status (mapAndWriteError rq e) = fst (snd (mapError e))" "\<exists>er. rs_Body (mapAndWriteError rq e) = PError er"
  by (auto simp: mapAndWriteError_def writeError_def json_response_def split: prod.splits)

lemma mapAndWriteGinError_run:
  assumes "run_state (mapAndWriteGinError h rq e) w = (rs, w')" "quiet view (h_log h)"
  shows "rs = mapAndWriteError rq e \<and> view w' = view w \<and> rs_Status rs \<in> {400, 404, 409, 422, 500} \<and>
    (\<exists>er. rs_Body rs = PError er)"
  using assms(1) quietD [OF assms(2)] mapAndWriteError_sel [of rq e] mapError_cases(3) [of e]
  by (auto simp: mapAndWriteGinError_def split: prod.splits)

context gorm_platform begin

lemma create_endpoint_law:
  assumes quiet: "quiet view logger"
    and run: "run_state (GinHandleCreateOrder (service_handler E L logger) rq) w = (rs, w')"
  shows "if rs_Status rs = 201
    then \<exists>req oid ev. decode_body L rq unmarshal_CreateOrderRequest = Inr req \<and> hl_IsUUID L (crq_CustomerID req) \<and>
      rs_Body rs = PCreated (OrderID_String E oid) \<and>
      create_effect E \<lparr>cco_CustomerID = crq_CustomerID req\<rparr> oid (stored_orders (view w)) (stored_orders (view w')) ev \<and>
      announced E ev (stored_events (view w)) (stored_events (view w'))
    else view w' = view w \<and> rs_Status rs \<in> {400, 404, 409, 422, 500} \<and> (\<exists>er. rs_Body rs = PError er)"
proof (cases "decode_body L rq unmarshal_CreateOrderRequest")
  case (Inl e)
  with run show ?thesis
    by (auto simp: GinHandleCreateOrder_def NewHandler_def gin_bind_error_def split: prod.splits dest: quietD [OF quiet])
next
  case (Inr req)
  show ?thesis
  proof (cases "Validate_CreateOrderRequest L req = []")
    case False
    with run Inr show ?thesis
      by (auto simp: GinHandleCreateOrder_def NewHandler_def gin_json_def Let_def split: prod.splits dest: quietD [OF quiet])
  next
    case True
    let ?l = "\<lparr>lg_Level = InfoLevel, lg_Message = ''creating order'', lg_Fields = [(''customer_id'', FStr (crq_CustomerID req))]\<rparr>"
    obtain u w0 where l: "run_state (logger ?l) w = (u, w0)" by (rule prod.exhaust)
    obtain r w1 where R: "run_state (CreateOrderHandler_Handle E (NewGormUnitOfWork E) \<lparr>cco_CustomerID = crq_CustomerID req\<rparr>) w0
        = (r, w1)" by fastforce
    note v = quietD [OF quiet l]
    show ?thesis
    proof (cases r)
      case (Inl e)
      with run \<open>decode_body _ _ _ = Inr req\<close> True l R
      have "run_state (mapAndWriteGinError (service_handler E L logger) rq e) w1 = (rs, w')"
        by (simp add: GinHandleCreateOrder_def Let_def) (simp add: NewHandler_def)
      from mapAndWriteGinError_run [OF this, of view] create_err_view [OF R [unfolded Inl]] v quiet show ?thesis
        by (auto simp: NewHandler_def)
    next
      case (Inr s)
      with run \<open>decode_body _ _ _ = Inr req\<close> True l R have "rs = gin_json 201 (PCreated s)" "view w' = view w1"
        by (auto simp: GinHandleCreateOrder_def NewHandler_def Let_def split: prod.splits dest: quietD [OF quiet])
      moreover have "hl_IsUUID L (crq_CustomerID req)"
        using True by (simp add: Validate_CreateOrderRequest_def split: if_splits)
      ultimately show ?thesis using create_effect_law [OF R [unfolded Inr]] \<open>decode_body _ _ _ = Inr req\<close>
        by (auto simp: gin_json_def v)
    qed
  qed
qed

lemma add_endpoint_law:
  assumes quiet: "quiet view logger"
    and run: "run_state (GinHandleAddItem (service_handler E L logger) rq) w = (rs, w')"
    and log: "log_ok E (stored_orders (view w)) (stored_events (view w))"
  shows "if rs_Status rs = 200
    then \<exists>req ev. decode_body L rq unmarshal_AddItemRequest = Inr req \<and> Validate_AddItemRequest req = [] \<and>
      add_effect E (add_item_command (rq_Param rq ''orderID'') req) (stored_orders (view w)) (stored_orders (view w')) ev \<and>
      announced E ev (stored_events (view w)) (stored_events (view w'))
    else view w' = view w \<and> rs_Status rs \<in> {400, 404, 409, 422, 500} \<and> (\<exists>er. rs_Body rs = PError er)"
proof (cases "decode_body L rq unmarshal_AddItemRequest")
  case (Inl e)
  with run show ?thesis
    by (auto simp: GinHandleAddItem_def NewHandler_def gin_bind_error_def Let_def split: prod.splits dest: quietD [OF quiet])
next
  case (Inr req)
  show ?thesis
  proof (cases "Validate_AddItemRequest req = []")
    case False
    with run Inr show ?thesis
      by (auto simp: GinHandleAddItem_def NewHandler_def gin_json_def Let_def split: prod.splits dest: quietD [OF quiet])
  next
    case True
    let ?c = "add_item_command (rq_Param rq ''orderID'') req"
    let ?l = "\<lparr>lg_Level = InfoLevel, lg_Message = ''adding item to order'', lg_Fields =
      [(''order_id'', FStr (rq_Param rq ''orderID'')), (''product_id'', FStr (arq_ProductID req)),
       (''product_name'', FStr (arq_ProductName req)), (''quantity'', FInt (sint (arq_Quantity req)))]\<rparr>"
    obtain u w0 where l: "run_state (logger ?l) w = (u, w0)" by (rule prod.exhaust)
    obtain r w1 where R: "run_state (AddItemHandler_Handle E (NewGormUnitOfWork E) ?c) w0 = (r, w1)" by fastforce
    note v = quietD [OF quiet l]
    show ?thesis
    proof (cases r)
      case (Inl e)
      with run Inr True l R
      have "run_state (mapAndWriteGinError (service_handler E L logger) rq e) w1 = (rs, w')"
        by (simp add: GinHandleAddItem_def Let_def) (simp add: NewHandler_def)
      from mapAndWriteGinError_run [OF this, of view] add_err_view [OF R [unfolded Inl]] v quiet show ?thesis
        by (auto simp: NewHandler_def)
    next
      case (Inr y)
      with run \<open>decode_body _ _ _ = Inr req\<close> True l R have "rs = gin_json 200 (PMessage ''item added'')" "view w' = view w1"
        by (auto simp: GinHandleAddItem_def NewHandler_def Let_def split: prod.splits dest: quietD [OF quiet])
      with add_effect_law [OF R [unfolded Inr]] log \<open>decode_body _ _ _ = Inr req\<close> True
      show ?thesis by (auto simp: gin_json_def v)
    qed
  qed
qed

lemma confirm_endpoint_law:
  assumes quiet: "quiet view logger"
    and run: "run_state (GinHandleConfirmOrder (service_handler E L logger) rq) w = (rs, w')"
    and log: "log_ok E (stored_orders (view w)) (stored_events (view w))"
  shows "if rs_Status rs = 200
    then \<exists>ev. confirm_effect E \<lparr>ccf_OrderID = rq_Param rq ''orderID''\<rparr> (stored_orders (view w)) (stored_orders (view w')) ev \<and>
      announced E ev (stored_events (view w)) (stored_events (view w'))
    else view w' = view w \<and> rs_Status rs \<in> {400, 404, 409, 422, 500} \<and> (\<exists>er. rs_Body rs = PError er)"
proof -
  let ?l = "\<lparr>lg_Level = InfoLevel, lg_Message = ''confirming order'', lg_Fields = [(''order_id'', FStr (rq_Param rq ''orderID''))]\<rparr>"
  obtain u w0 where l: "run_state (logger ?l) w = (u, w0)" by (rule prod.exhaust)
  obtain r w1 where R: "run_state (ConfirmOrderHandler_Handle E (NewGormUnitOfWork E) \<lparr>ccf_OrderID = rq_Param rq ''orderID''\<rparr>) w0
      = (r, w1)" by fastforce
  note v = quietD [OF quiet l]
  show ?thesis
  proof (cases r)
    case (Inl e)
    with run l R have "run_state (mapAndWriteGinError (service_handler E L logger) rq e) w1 = (rs, w')"
      by (simp add: GinHandleConfirmOrder_def Let_def) (simp add: NewHandler_def)
    from mapAndWriteGinError_run [OF this, of view] confirm_err_view [OF R [unfolded Inl]] v quiet show ?thesis
      by (auto simp: NewHandler_def)
  next
    case (Inr y)
    with run l R have "rs = gin_json 200 (PMessage ''order confirmed'')" "view w' = view w1"
      by (auto simp: GinHandleConfirmOrder_def NewHandler_def Let_def split: prod.splits dest: quietD [OF quiet])
    with confirm_effect_law [OF R [unfolded Inr]] log show ?thesis by (auto simp: gin_json_def v)
  qed
qed

end

text \<open>
  The logger of the witnesses: a service configured to log errors only, whose standard output takes
  every line and keeps none.
\<close>

definition sc_logger :: "log_record \<Rightarrow> (mem, unit) state" where
  "sc_logger = Logw mem_platform None ''stack''
     (SinkCore ErrorLevel [] \<lparr>ls_Write = \<lambda>en fs. ret (Inr ()), ls_Sync = ret (Inr ())\<rparr>)"

lemma sc_logger_info: "\<not> ErrorLevel \<le> lg_Level x \<Longrightarrow> run_state (sc_logger x) w = ((), w)"
  by (simp add: sc_logger_def Logw_def)

lemma sc_logger_quiet: "quiet mem_view sc_logger"
  using mem.now_pure by (auto simp: quiet_def sc_logger_def Logw_def split: prod.splits)

section \<open>The endpoints\<close>

text \<open>C22: \<^verbatim>\<open>POST /orders\<close> answers 201 exactly when it has created one order, under the identifier it
  returns and for the valid customer of its body, with its outbox entry; any other answer is an
  error and the tables of orders, of the outbox and of the read model are as before.  The logger, whose lines the
  handler writes, may do anything that leaves these tables alone.\<close>

theorem create_endpoint:
  assumes "gorm_platform E view" "quiet view logger"
    and "run_state (GinHandleCreateOrder (service_handler E L logger) rq) w = (rs, w')"
  shows "if rs_Status rs = 201
    then \<exists>req oid ev. decode_body L rq unmarshal_CreateOrderRequest = Inr req \<and> hl_IsUUID L (crq_CustomerID req) \<and>
      rs_Body rs = PCreated (OrderID_String E oid) \<and>
      create_effect E \<lparr>cco_CustomerID = crq_CustomerID req\<rparr> oid (stored_orders (view w)) (stored_orders (view w')) ev \<and>
      announced E ev (stored_events (view w)) (stored_events (view w'))
    else view w' = view w \<and> rs_Status rs \<in> {400, 404, 409, 422, 500} \<and> (\<exists>er. rs_Body rs = PError er)"
  using gorm_platform.create_endpoint_law [OF assms] .

text \<open>A request whose body the parser below knows.\<close>

definition sc_libs :: http_libs where
  "sc_libs = \<lparr>hl_DecodeJSON = (\<lambda>s. if s = ''create'' then Some (JObj [''customer_id'' \<mapsto> JStr ''uuuuuuu''])
       else if s = ''add'' then Some (JObj [''product_id'' \<mapsto> JStr ''p'', ''product_name'' \<mapsto> JStr ''pen'',
         ''quantity'' \<mapsto> JNum 3, ''unit_price'' \<mapsto> JNum 500]) else None),
     hl_ParseMediaType = (\<lambda>s. Some s), hl_IsUUID = (\<lambda>s. list_all (\<lambda>c. c = CHR ''u'') s),
     hl_Render = (\<lambda>p. case p of PMessage s \<Rightarrow> s | _ \<Rightarrow> '''')\<rparr>"

definition sc_request :: "string \<Rightarrow> string \<Rightarrow> http_request" where
  "sc_request i body = \<lparr>rq_Method = ''POST'', rq_Path = ''/orders'', rq_FullPath = ''/orders'', rq_RawQuery = '''',
     rq_Param = (\<lambda>k. if k = ''orderID'' then i else ''''), rq_QueryValue = Map.empty, rq_Header = (\<lambda>k. ''''),
     rq_Body = Inr body, rq_ContentType = ''application/json'', rq_ClientIP = ''::1'', rq_Span = None, rq_CorrelationID = ''''\<rparr>"

lemma sc_create_endpoint:
  "run_state (GinHandleCreateOrder (service_handler mem_platform sc_libs sc_logger) (sc_request '''' ''create'')) mem_empty
     = (gin_json 201 (PCreated ''u''), sc_w1)"
  using sc_create_run
  by (simp add: http_eval json_eval sc_libs_def sc_request_def sc_create_def sc_uow_def sc_logger_info)

theorem create_endpoint_witness:
  "\<exists>oid ev. ''u'' = OrderID_String mem_platform oid \<and>
     announced mem_platform ev Map.empty (stored_events (mem_view sc_w1))"
  using create_endpoint [OF mem.gorm_platform_axioms sc_logger_quiet sc_create_endpoint]
  by (auto simp: gin_json_def mem_view_empty)

text \<open>\<^verbatim>\<open>POST /orders/:orderID/items\<close> answers 200 exactly when it has added the valid item of its body to
  the draft named in the path, with its outbox entry; any other answer is an error and the database
  is as before.\<close>

theorem add_item_endpoint:
  assumes "gorm_platform E view" "quiet view logger" "log_ok E (stored_orders (view w)) (stored_events (view w))"
    and "run_state (GinHandleAddItem (service_handler E L logger) rq) w = (rs, w')"
  shows "if rs_Status rs = 200
    then \<exists>req ev. decode_body L rq unmarshal_AddItemRequest = Inr req \<and> Validate_AddItemRequest req = [] \<and>
      add_effect E (add_item_command (rq_Param rq ''orderID'') req) (stored_orders (view w)) (stored_orders (view w')) ev \<and>
      announced E ev (stored_events (view w)) (stored_events (view w'))
    else view w' = view w \<and> rs_Status rs \<in> {400, 404, 409, 422, 500} \<and> (\<exists>er. rs_Body rs = PError er)"
  using gorm_platform.add_endpoint_law [OF assms(1,2,4,3)] .

lemma sc_add_endpoint:
  "run_state (GinHandleAddItem (service_handler mem_platform sc_libs sc_logger) (sc_request ''u'' ''add'')) sc_w1
     = (gin_json 200 (PMessage ''item added''), sc_w2)"
  using sc_add_run
  by (simp add: http_eval json_eval sc_libs_def sc_request_def sc_add_def sc_uow_def sc_logger_info Let_def)

theorem add_item_endpoint_witness:
  "\<exists>ev. announced mem_platform ev (stored_events (mem_view sc_w1)) (stored_events (mem_view sc_w2))"
  using add_item_endpoint [OF mem.gorm_platform_axioms sc_logger_quiet sc_log_ok1 sc_add_endpoint] by (auto simp: gin_json_def)

text \<open>\<^verbatim>\<open>POST /orders/:orderID/confirm\<close> answers 200 exactly when it has confirmed the draft named in the
  path, which has items, with its outbox entry; any other answer is an error and the database is
  as before.\<close>

theorem confirm_endpoint:
  assumes "gorm_platform E view" "quiet view logger" "log_ok E (stored_orders (view w)) (stored_events (view w))"
    and "run_state (GinHandleConfirmOrder (service_handler E L logger) rq) w = (rs, w')"
  shows "if rs_Status rs = 200
    then \<exists>ev. confirm_effect E \<lparr>ccf_OrderID = rq_Param rq ''orderID''\<rparr> (stored_orders (view w)) (stored_orders (view w')) ev \<and>
      announced E ev (stored_events (view w)) (stored_events (view w'))
    else view w' = view w \<and> rs_Status rs \<in> {400, 404, 409, 422, 500} \<and> (\<exists>er. rs_Body rs = PError er)"
  using gorm_platform.confirm_endpoint_law [OF assms(1,2,4,3)] .

lemma sc_confirm_endpoint:
  "run_state (GinHandleConfirmOrder (service_handler mem_platform sc_libs sc_logger) (sc_request ''u'' '''')) sc_w2
     = (gin_json 200 (PMessage ''order confirmed''), sc_w3)"
  using sc_confirm_run
  by (simp add: GinHandleConfirmOrder_def NewHandler_def sc_request_def sc_confirm_def sc_uow_def sc_logger_info Let_def)

theorem confirm_endpoint_witness:
  "\<exists>ev. confirm_effect mem_platform \<lparr>ccf_OrderID = ''u''\<rparr> (stored_orders (mem_view sc_w2)) (stored_orders (mem_view sc_w3)) ev"
  using confirm_endpoint [OF mem.gorm_platform_axioms sc_logger_quiet sc_log_ok2 sc_confirm_endpoint] by (auto simp: gin_json_def sc_request_def)

definition internal_error :: "http_response \<Rightarrow> bool" where
  "internal_error rs \<longleftrightarrow> rs_Status rs = 500 \<and> (\<exists>er. rs_Body rs = PError er \<and> er_Code er = ''INTERNAL_ERROR'')"

lemma uuid_error_internal:
  "internal_error (mapAndWriteError rq (ErrWrap p (ErrUUID s)))"
  "internal_error (mapAndWriteError rq (ErrWrap p (ErrWrap q (ErrUUID s))))"
  by (auto simp: internal_error_def mapAndWriteError_def mapError_def writeError_def json_response_def)

text \<open>A path identifier that is not a UUID is answered with status 500, as an internal error, by every
  endpoint that takes one, and changes nothing.\<close>

theorem malformed_id_is_internal_error:
  assumes "runtime_codec R" "quiet view logger" "uuid_Parse R (rq_Param rq ''orderID'') = Inl e"
    and "decode_body L rq unmarshal_AddItemRequest = Inr req" "Validate_AddItemRequest req = []"
    and "h = GinHandleGetOrder (NewHandler R L logger uow rm) \<or> h = GinHandleAddItem (NewHandler R L logger uow rm) \<or>
      h = GinHandleConfirmOrder (NewHandler R L logger uow rm)"
    and "run_state (h rq) w = (rs, w')"
  shows "internal_error rs \<and> view w' = view w"
proof -
  note q = quietD [OF assms(2)]
  from runtime_codec.parse_error [OF assms(1,3)] obtain s where "e = ErrUUID s" by blast
  with assms(3-7) show ?thesis
    by (elim disjE)
      (auto simp: GinHandleGetOrder_def GinHandleAddItem_def GinHandleConfirmOrder_def NewHandler_def Let_def
        GetOrderHandler_Handle_def AddItemHandler_Handle_def ConfirmOrderHandler_Handle_def ParseOrderID_def
        add_item_command_def mapAndWriteGinError_def uuid_error_internal split: prod.splits dest!: q)
qed

theorem malformed_id_is_internal_error_witness:
  "\<exists>r w'. run_state (GinHandleGetOrder (service_handler mem_platform sc_libs sc_logger) (sc_request ''nonsense'' ''add'')) sc_w3 = (r, w') \<and>
     rs_Status r = 500 \<and> mem_view w' = mem_view sc_w3"
proof -
  let ?rq = "sc_request ''nonsense'' ''add''"
  let ?h = "GinHandleGetOrder (service_handler mem_platform sc_libs sc_logger)"
  have p: "uuid_Parse mem_platform (rq_Param ?rq ''orderID'') = Inl (ErrUUID ''invalid UUID format'')"
    by (simp add: sc_request_def mem_eval)
  obtain r w' where run: "run_state (?h ?rq) sc_w3 = (r, w')" by fastforce
  from malformed_id_is_internal_error [OF mem.runtime_codec_axioms sc_logger_quiet p, of sc_libs
      "\<lparr>arq_ProductID = ''p'', arq_ProductName = ''pen'', arq_Quantity = 3, arq_UnitPrice = 500\<rparr>"
      ?h "NewGormUnitOfWork mem_platform" "NewGormReadModelStore mem_platform", OF _ _ _ run] run
  show ?thesis by (auto simp: http_eval json_eval sc_libs_def sc_request_def internal_error_def)
qed

section \<open>The two sets of handlers\<close>

fun untraced :: "payload \<Rightarrow> payload" where
  "untraced (PError e) = PError (e\<lparr>er_TraceID := ''''\<rparr>)"
| "untraced p = p"

text \<open>
  The same status, body and effect.  The trace identifier of an error may be missing in the second
  answer, and the content types differ: JSON with and without the character set, or plain text.
\<close>

definition trace_of :: "payload \<Rightarrow> string" where
  "trace_of p = (case p of PError e \<Rightarrow> er_TraceID e | _ \<Rightarrow> '''')"

definition same_answer :: "http_response \<times> 'w \<Rightarrow> http_response \<times> 'w \<Rightarrow> bool" where
  "same_answer a b \<longleftrightarrow> rs_Status (fst a) = rs_Status (fst b) \<and>
     untraced (rs_Body (fst a)) = untraced (rs_Body (fst b)) \<and>
     trace_of (rs_Body (fst b)) \<in> {trace_of (rs_Body (fst a)), ''''} \<and>
     rs_Header (fst a) = [''Content-Type'' \<mapsto> ''application/json''] \<and>
     (\<exists>t \<in> {''application/json'', ''application/json; charset=utf-8'', ''text/plain; charset=utf-8''}.
        rs_Header (fst b) = [''Content-Type'' \<mapsto> t]) \<and> snd a = snd b"

lemma same_answer_errors [simp]:
  "same_answer (writeError rq 400 ''INVALID_REQUEST'' ''Invalid JSON body'' [], w) (gin_bind_error, w)"
  "same_answer (writeError rq 400 ''VALIDATION_ERROR'' ''Request validation failed'' errs, w)
     (gin_json 400 (PError (invalid_fields errs)), w)"
  "same_answer (json_response st (PCreated i), w) (gin_json st (PCreated i), w)"
  "same_answer (json_response st (PMessage m), w) (gin_json st (PMessage m), w)"
  "same_answer (json_response st (POrder r), w) (gin_json st (POrder r), w)"
  by (simp_all add: same_answer_def writeError_def json_response_def gin_bind_error_def gin_json_def invalid_json_def
      invalid_fields_def trace_of_def)

lemma same_answer_mapped [simp]: "same_answer (mapAndWriteError rq e, w) (mapAndWriteError rq e, w)"
  by (auto simp: same_answer_def mapAndWriteError_def writeError_def json_response_def split: prod.splits)

lemma same_answer_case:
  "(\<And>e. x = Inl e \<Longrightarrow> same_answer (run_state (f e) w) (run_state (f' e) w)) \<Longrightarrow>
   (\<And>y. x = Inr y \<Longrightarrow> same_answer (run_state (g y) w) (run_state (g' y) w)) \<Longrightarrow>
   same_answer (run_state (case_sum f g x) w) (run_state (case_sum f' g' x) w)"
  by (cases x) simp_all

definition silenced :: "'w Handler \<Rightarrow> 'w Handler" where
  "silenced h = h\<lparr>h_log := \<lambda>x. ret ()\<rparr>"

text \<open>C35: But for their logging, the handlers for \<^verbatim>\<open>net/http\<close> and those for Gin do the same with every request
  to create, extend, confirm or show an order: the same status, the same body, in which Gin's handlers
  may leave out the trace identifier, and the same effect; only the content type differs.  The
  handlers for Gin write to the log, here switched off, and the others do not.\<close>

theorem handlers_agree:
  "same_answer (run_state (HandleCreateOrder h rq) w) (run_state (GinHandleCreateOrder (silenced h) rq) w) \<and>
   same_answer (run_state (HandleAddItem h rq) w) (run_state (GinHandleAddItem (silenced h) rq) w) \<and>
   same_answer (run_state (HandleConfirmOrder h rq) w) (run_state (GinHandleConfirmOrder (silenced h) rq) w) \<and>
   same_answer (run_state (HandleGetOrder h rq) w) (run_state (GinHandleGetOrder (silenced h) rq) w)"
  unfolding HandleCreateOrder_def GinHandleCreateOrder_def HandleAddItem_def GinHandleAddItem_def
    HandleConfirmOrder_def GinHandleConfirmOrder_def HandleGetOrder_def GinHandleGetOrder_def silenced_def Let_def
  by (intro conjI; (rule same_answer_case)?)
    (auto simp: mapAndWriteGinError_def split: prod.splits sum.splits)

end
