(* ===== verification/Service_Properties.thy ===== *)
theory Service_Properties imports Log_Properties Http_Properties begin

text \<open>
  What the middleware stack adds to a handler: every request is answered and carries its
  correlation identifier; the log has the lines of the handler and, but for the pages of metrics, health and
  documentation, the access line.
\<close>

section \<open>What is logged\<close>


definition panic_record :: "'w telemetry \<Rightarrow> http_request \<Rightarrow> string \<Rightarrow> log_record" where
  "panic_record T rq p = \<lparr>lg_Level = ErrorLevel, lg_Message = ''panic recovered'',
     lg_Fields = [(''error'', FOther p), (''stack'', FStr (tl_Stack T)), (''path'', FStr (rq_Path rq)),
       (''method'', FStr (rq_Method rq))]\<rparr>"


lemma logged_levels [simp]:
  "lg_Level (access_record L rq rs d) = InfoLevel" "lg_Level (panic_record T rq p) = ErrorLevel"
  by (simp_all add: access_record_def panic_record_def)



section \<open>The logger of the service\<close>

text \<open>
  The service's own logger obeys these laws when its level is info or debug and the standard output
  takes every line: what is printed is the log.
\<close>

definition printed_line :: "entry \<times> fields \<Rightarrow> log_record" where
  "printed_line l = \<lparr>lg_Level = en_Level (fst l), lg_Message = en_Message (fst l), lg_Fields = snd l\<rparr>"

lemma printed_line_entry [simp]: "printed_line (line_entry caller stack x now, lg_Fields x) = x"
  by (simp add: printed_line_def line_entry_def)



section \<open>The handlers of the service under the stack\<close>












end
