(* ===== verification/Worker_Loops.thy ===== *)
theory Worker_Loops imports Service Relay_Scenario begin

text \<open>
  The endless loops of the workers (\<^verbatim>\<open>OutboxWorker.Run\<close>, \<^verbatim>\<open>KafkaConsumerWorker.Run\<close>): when they
  return, and what they have done by then.
\<close>

section \<open>When a loop is cancelled\<close>

text \<open>\<open>cancelled_by d\<close>: at the latest the select after \<open>d\<close> batches sees the context cancelled.\<close>

fun cancelled_by :: "nat \<Rightarrow> ('w, bool) state \<Rightarrow> ('w, 'a) state \<Rightarrow> 'w \<Rightarrow> bool" where
  "cancelled_by 0 wait batch w \<longleftrightarrow> fst (run_state wait w)"
| "cancelled_by (Suc d) wait batch w \<longleftrightarrow>
     (case run_state wait w of (c, w1) \<Rightarrow> c \<or> cancelled_by d wait batch (snd (run_state batch w1)))"

text \<open>\<open>batches d\<close>: \<open>d\<close> batches run, one after each tick, and then the context is cancelled.\<close>

fun batches :: "nat \<Rightarrow> ('w, bool) state \<Rightarrow> ('w, 'a) state \<Rightarrow> 'w \<Rightarrow> 'w \<Rightarrow> bool" where
  "batches 0 wait batch w w' \<longleftrightarrow> run_state wait w = (True, w')"
| "batches (Suc d) wait batch w w' \<longleftrightarrow>
     (\<exists>w1 c w2. run_state wait w = (False, w1) \<and> run_state batch w1 = (c, w2) \<and> batches d wait batch w2 w')"

lemma cancelled_by_batches: "cancelled_by d wait batch w \<longleftrightarrow> (\<exists>k w'. k \<le> d \<and> batches k wait batch w w')"
proof (induction d arbitrary: w)
  case 0
  show ?case by (cases "run_state wait w") auto
next
  case (Suc d)
  obtain c w1 where w: "run_state wait w = (c, w1)" by fastforce
  obtain r w2 where b: "run_state batch w1 = (r, w2)" by fastforce
  show ?case
  proof (cases c)
    case True
    with w show ?thesis by (auto intro!: exI [of _ 0] exI [of _ w1])
  next
    case False
    have "(\<exists>k w'. k \<le> Suc d \<and> batches k wait batch w w') \<longleftrightarrow> (\<exists>k w'. k \<le> d \<and> batches k wait batch w2 w')"
    proof
      assume "\<exists>k w'. k \<le> Suc d \<and> batches k wait batch w w'"
      then obtain k w' where k: "k \<le> Suc d" "batches k wait batch w w'" by blast
      with w b False obtain k' where "k = Suc k'" "batches k' wait batch w2 w'" by (cases k) auto
      with k(1) show "\<exists>k w'. k \<le> d \<and> batches k wait batch w2 w'" by auto
    next
      assume "\<exists>k w'. k \<le> d \<and> batches k wait batch w2 w'"
      then obtain k w' where "k \<le> d" "batches k wait batch w2 w'" by blast
      with w b False show "\<exists>k w'. k \<le> Suc d \<and> batches k wait batch w w'"
        by (intro exI [of _ "Suc k"] exI [of _ w']) auto
    qed
    with w b False Suc.IH [of w2] show ?thesis by simp
  qed
qed

lemma poll_rounds:
  "(\<exists>w1. rounds d (OutboxWorker_poll wait ob publish n) w w1 \<and>
      run_state (OutboxWorker_poll wait ob publish n) w1 = (False, w')) \<longleftrightarrow>
    batches d wait (OutboxWorker_processBatch ob publish n) w w'"
proof (induction d arbitrary: w)
  case 0
  show ?case by (cases "run_state wait w") (auto simp: OutboxWorker_poll_def split: prod.splits)
next
  case (Suc d)
  have "(\<exists>w1. rounds (Suc d) (OutboxWorker_poll wait ob publish n) w w1 \<and>
        run_state (OutboxWorker_poll wait ob publish n) w1 = (False, w')) \<longleftrightarrow>
      (\<exists>w2. run_state (OutboxWorker_poll wait ob publish n) w = (True, w2) \<and>
        batches d wait (OutboxWorker_processBatch ob publish n) w2 w')"
    using Suc.IH by (simp only: rounds.simps) blast
  also have "\<dots> \<longleftrightarrow> batches (Suc d) wait (OutboxWorker_processBatch ob publish n) w w'"
    by (auto simp: OutboxWorker_poll_def split: prod.splits if_splits)
  finally show ?case .
qed

lemma OutboxWorker_Run_iff:
  assumes "0 < sint iv"
  shows "OutboxWorker_Run wait ob publish n iv w = Some (r, w') \<longleftrightarrow>
    r = Inr () \<and> (\<exists>d. batches d wait (OutboxWorker_processBatch ob publish n) w w')"
  using assms poll_rounds [of _ wait ob publish n w w'] by (auto simp: OutboxWorker_Run_def forever_iff)

lemma OutboxWorker_Run_returns:
  assumes "0 < sint iv"
  shows "OutboxWorker_Run wait ob publish n iv w \<noteq> None \<longleftrightarrow>
    (\<exists>d. cancelled_by d wait (OutboxWorker_processBatch ob publish n) w)"
proof -
  have "OutboxWorker_Run wait ob publish n iv w \<noteq> None \<longleftrightarrow>
      (\<exists>r w'. OutboxWorker_Run wait ob publish n iv w = Some (r, w'))" by auto
  also have "\<dots> \<longleftrightarrow> (\<exists>d w'. batches d wait (OutboxWorker_processBatch ob publish n) w w')"
    unfolding OutboxWorker_Run_iff [OF assms] by auto
  finally show ?thesis unfolding cancelled_by_batches by blast
qed

text \<open>A loop that ends: the number of batches is determined.\<close>

lemma batches_unique: "batches d wait batch w w1 \<Longrightarrow> batches k wait batch w w2 \<Longrightarrow> k = d \<and> w2 = w1"
proof (induction d arbitrary: w k)
  case 0
  then show ?case by (cases k) auto
next
  case (Suc d)
  then show ?case by (cases k) auto
qed

section \<open>What the batches of a run may change\<close>

text \<open>
  After some batches of at most \<open>b\<close> entries: at most \<open>b\<close> per batch changed, the events they carry are
  the same, and an entry that was not pending is as it was.
\<close>

definition drained :: "nat \<Rightarrow> (uuid \<Rightarrow> OutboxEvent option) \<Rightarrow> (uuid \<Rightarrow> OutboxEvent option) \<Rightarrow> bool" where
  "drained b m m' \<longleftrightarrow> same_log m m' \<and> finite {k. m' k \<noteq> m k} \<and> card {k. m' k \<noteq> m k} \<le> b \<and>
     (\<forall>k x. m k = Some x \<longrightarrow> oe_Status x \<noteq> ''pending'' \<longrightarrow> m' k = Some x)"

lemma relays_drained: "relays m m' K \<Longrightarrow> finite K \<Longrightarrow> card K \<le> b \<Longrightarrow> drained b m m'"
proof -
  assume r: "relays m m' K" and K: "finite K" "card K \<le> b"
  have sub: "{k. m' k \<noteq> m k} \<subseteq> K" using r by (auto simp: relays_def)
  have "card {k. m' k \<noteq> m k} \<le> card K" by (rule card_mono [OF K(1) sub])
  moreover have "m' k = Some x" if "m k = Some x" "oe_Status x \<noteq> ''pending''" for k x
    using r that by (cases "k \<in> K") (auto simp: relays_def relayed_def)
  ultimately show ?thesis
    using relays_same_log [OF r] finite_subset [OF sub K(1)] K(2) by (auto simp: drained_def)
qed

lemma drained_refl: "drained 0 m m"
  by (simp add: drained_def same_log_def)

lemma drained_trans:
  assumes "drained a m1 m2" "drained b m2 m3"
  shows "drained (a + b) m1 m3"
proof -
  let ?A = "{k. m2 k \<noteq> m1 k}" and ?B = "{k. m3 k \<noteq> m2 k}"
  have sub: "{k. m3 k \<noteq> m1 k} \<subseteq> ?A \<union> ?B" by auto
  have fin: "finite (?A \<union> ?B)" using assms by (simp add: drained_def)
  have "card {k. m3 k \<noteq> m1 k} \<le> card (?A \<union> ?B)" by (rule card_mono [OF fin sub])
  also have "\<dots> \<le> a + b" using assms card_Un_le [of ?A ?B] by (auto simp: drained_def)
  finally show ?thesis
    using assms finite_subset [OF sub fin] by (auto simp: drained_def same_log_def)
qed

context gorm_platform begin

lemma service_publisher_write:
  assumes W: "\<And>m w r w'. run_state (W m) w = (r, w') \<Longrightarrow> view w' = view w"
    and run: "run_state (service_publisher E cfg W x) w = (r, w')"
  shows "write_part (view w') = write_part (view w)"
proof (cases "uses_kafka cfg")
  case False
  with run publish_write [of x w r w'] show ?thesis by (simp add: service_publisher_def inmemory_bus_def)
next
  case True
  note [simp] = service_publisher_def inmemory_bus_def [symmetric]
  show ?thesis
  proof (rule disjE [of "view w' = view w" "\<exists>w1 u. view w1 = view w \<and>
      run_state (dispatchLocal (inmemory_bus E (oe_EventType x)) x) w1 = (u, w')"])
    show "view w' = view w \<or> (\<exists>w1 u. view w1 = view w \<and>
        run_state (dispatchLocal (inmemory_bus E (oe_EventType x)) x) w1 = (u, w'))"
      using run True W by (auto simp: KafkaEventBus_Publish_def split: sum.splits prod.splits)
  next
    assume "\<exists>w1 u. view w1 = view w \<and>
        run_state (dispatchLocal (inmemory_bus E (oe_EventType x)) x) w1 = (u, w')"
    then obtain w1 u where w1: "view w1 = view w"
      and d: "run_state (dispatchLocal (inmemory_bus E (oe_EventType x)) x) w1 = (u, w')" by blast
    show ?thesis
      by (rule dispatchLocal_invariant [OF _ d, where I = "\<lambda>w'. write_part (view w') = write_part (view w)"])
        (auto simp: w1 dest!: handler_write inmemory_bus_handlers)
  qed simp
qed

lemma batches_drain:
  assumes W: "\<And>m w r w'. run_state (W m) w = (r, w') \<Longrightarrow> view w' = view w"
    and wait: "\<And>w c w'. run_state wait w = (c, w') \<Longrightarrow> view w' = view w"
    and n: "0 \<le> sint n"
    and run: "batches d wait (OutboxWorker_processBatch (NewGormOutboxStore E) (service_publisher E cfg W) n) w w'"
  shows "drained (d * nat (sint n)) (stored_events (view w)) (stored_events (view w'))"
  using run
proof (induction d arbitrary: w)
  case 0
  then show ?case using wait drained_refl by auto
next
  case (Suc d)
  then obtain w1 c w2 where w1: "run_state wait w = (False, w1)"
    and b: "run_state (OutboxWorker_processBatch (NewGormOutboxStore E) (service_publisher E cfg W) n) w1 = (c, w2)"
    and rest: "batches d wait (OutboxWorker_processBatch (NewGormOutboxStore E) (service_publisher E cfg W) n) w2 w'"
    by auto
  have pub: "stored_events (view w') = stored_events (view w)"
    if "run_state (service_publisher E cfg W x) w = (r, w')" for x w r w'
    by (rule write_part_events(1) [OF service_publisher_write [OF W that]])
  have "drained (nat (sint n)) (stored_events (view w1)) (stored_events (view w2))"
    using ob.processBatch_relays [OF _ b n] pub relays_drained by blast
  with Suc.IH [OF rest] wait [OF w1] show ?case using drained_trans by fastforce
qed

lemma service_relay_stops:
  assumes W: "\<And>m w r w'. run_state (W m) w = (r, w') \<Longrightarrow> view w' = view w"
    and wait: "\<And>w c w'. run_state wait w = (c, w') \<Longrightarrow> view w' = view w"
    and n: "0 \<le> sint (ox_BatchSize (cf_Outbox cfg))" and iv: "0 < sint (ox_PollInterval (cf_Outbox cfg))"
    and c: "cancelled_by d wait (OutboxWorker_processBatch (NewGormOutboxStore E) (service_publisher E cfg W)
      (ox_BatchSize (cf_Outbox cfg))) w"
  shows "\<exists>w'. service_relay wait E cfg W w = Some (Inr (), w') \<and>
    drained (d * nat (sint (ox_BatchSize (cf_Outbox cfg)))) (stored_events (view w)) (stored_events (view w'))"
proof -
  from c obtain k w' where k: "k \<le> d" and b: "batches k wait (OutboxWorker_processBatch (NewGormOutboxStore E)
      (service_publisher E cfg W) (ox_BatchSize (cf_Outbox cfg))) w w'"
    unfolding cancelled_by_batches by blast
  have "service_relay wait E cfg W w = Some (Inr (), w')"
    unfolding service_relay_def OutboxWorker_Run_iff [OF iv] using b by blast
  moreover have "drained (k * nat (sint (ox_BatchSize (cf_Outbox cfg)))) (stored_events (view w)) (stored_events (view w'))"
    by (rule batches_drain [OF _ _ n b]) (fact W, fact wait)
  then have "drained (d * nat (sint (ox_BatchSize (cf_Outbox cfg)))) (stored_events (view w)) (stored_events (view w'))"
    using mult_le_mono1 [OF k] le_trans unfolding drained_def by blast
  ultimately show ?thesis by blast
qed

end

section \<open>The relay of the service\<close>

text \<open>C15: The relay of the service returns exactly when the context it selects on is cancelled after some
  number of ticks; cancelled by then, it has changed at most a batch of entries per tick, it has
  altered no event they carry, and every entry that was not pending is as it was.\<close>

theorem relay_stops_on_cancellation:
  assumes "gorm_platform E view"
    and "0 \<le> sint (ox_BatchSize (cf_Outbox cfg))" "0 < sint (ox_PollInterval (cf_Outbox cfg))"
    and "\<And>m w r w'. run_state (W m) w = (r, w') \<Longrightarrow> view w' = view w"
    and "\<And>w c w'. run_state wait w = (c, w') \<Longrightarrow> view w' = view w"
  shows "(service_relay wait E cfg W w \<noteq> None \<longleftrightarrow>
      (\<exists>d. cancelled_by d wait (OutboxWorker_processBatch (NewGormOutboxStore E) (service_publisher E cfg W)
        (ox_BatchSize (cf_Outbox cfg))) w)) \<and>
    (\<forall>d. cancelled_by d wait (OutboxWorker_processBatch (NewGormOutboxStore E) (service_publisher E cfg W)
        (ox_BatchSize (cf_Outbox cfg))) w \<longrightarrow>
      (\<exists>w'. service_relay wait E cfg W w = Some (Inr (), w') \<and>
        drained (d * nat (sint (ox_BatchSize (cf_Outbox cfg)))) (stored_events (view w)) (stored_events (view w'))))"
proof (intro conjI allI impI)
  show "service_relay wait E cfg W w \<noteq> None \<longleftrightarrow>
      (\<exists>d. cancelled_by d wait (OutboxWorker_processBatch (NewGormOutboxStore E) (service_publisher E cfg W)
        (ox_BatchSize (cf_Outbox cfg))) w)"
    unfolding service_relay_def by (rule OutboxWorker_Run_returns [OF assms(3)])
next
  fix d
  assume "cancelled_by d wait (OutboxWorker_processBatch (NewGormOutboxStore E) (service_publisher E cfg W)
      (ox_BatchSize (cf_Outbox cfg))) w"
  then show "\<exists>w'. service_relay wait E cfg W w = Some (Inr (), w') \<and>
      drained (d * nat (sint (ox_BatchSize (cf_Outbox cfg)))) (stored_events (view w)) (stored_events (view w'))"
    by (rule gorm_platform.service_relay_stops [OF assms(1) _ _ assms(2,3), rotated 2]) (fact assms(4), fact assms(5))
qed

text \<open>The context of the scenario is cancelled when the clock reaches 17, which is after the first batch.\<close>

definition sc_select :: "(mem, bool) state" where
  "sc_select = State (\<lambda>w. (17 \<le> m_clock w, w))"

definition sc_environment :: environment where
  "sc_environment = \<lparr>ev_Getenv = (\<lambda>k. if k = ''OUTBOX_BATCH_SIZE'' then Itoa 100 else ''''), ev_ParseDuration = (\<lambda>s. None)\<rparr>"

definition sc_no_kafka :: "kafka_message \<Rightarrow> (mem, go_error + unit) state" where
  "sc_no_kafka m = ret (Inl (ErrText ''no broker''))"

lemma sc_relay_config:
  "ox_BatchSize (cf_Outbox (LoadConfig sc_environment)) = 100"
  "ox_PollInterval (cf_Outbox (LoadConfig sc_environment)) = 1000000000"
  "cf_EventBusType (LoadConfig sc_environment) = ''inmemory''"
  using envInt_takes [of sc_environment "''OUTBOX_BATCH_SIZE''" 100 50]
  by (simp_all add: LoadConfig_def sc_environment_def envDuration_def envStr_def)

lemma sc_relay_batch:
  "OutboxWorker_processBatch (NewGormOutboxStore mem_platform) (service_publisher mem_platform (LoadConfig sc_environment) sc_no_kafka) 100
     = relay_batch mem_platform 100"
  by (simp add: relay_batch_def service_publisher_def uses_kafka_def sc_relay_config inmemory_bus_def)

lemma sc_cancelled: "cancelled_by 1 sc_select (relay_batch mem_platform 100) sc_w3"
  using sc_batch by (simp add: sc_select_def sc_w3_def sc_r_done_def sc_r_def)

theorem relay_stops_on_cancellation_witness:
  "\<exists>w'. service_relay sc_select mem_platform (LoadConfig sc_environment) sc_no_kafka sc_w3 = Some (Inr (), w') \<and>
     drained 100 (stored_events (mem_view sc_w3)) (stored_events (mem_view w'))"
proof -
  have "(0 :: int) \<le> sint (100 :: go_int)" "(0 :: int) < sint (1000000000 :: int64)" by simp_all
  note pos = this [folded sc_relay_config]
  have frames: "mem_view w' = mem_view w" if "run_state (sc_no_kafka m) w = (r, w')" for m r w w'
    using that by (simp add: sc_no_kafka_def)
  have select: "mem_view w' = mem_view w" if "run_state sc_select w = (c, w')" for c w w'
    using that by (simp add: sc_select_def)
  have "cancelled_by 1 sc_select (relay_batch mem_platform 100) sc_w3 \<longrightarrow>
      (\<exists>w'. service_relay sc_select mem_platform (LoadConfig sc_environment) sc_no_kafka sc_w3 = Some (Inr (), w') \<and>
        drained (1 * nat (sint (100 :: go_int))) (stored_events (mem_view sc_w3)) (stored_events (mem_view w')))"
    by (rule relay_stops_on_cancellation [where W = sc_no_kafka and wait = sc_select, OF mem.gorm_platform_axioms pos,
          THEN conjunct2, THEN spec [of _ 1], unfolded sc_relay_config sc_relay_batch]) (fact frames, fact select)
  with sc_cancelled show ?thesis by simp
qed

end
