(* ===== verification/Response_Types.thy ===== *)
theory Response_Types imports Service_Properties begin

text \<open>
  The types of the service's answers: for every route the status and the shape of the body on
  success, and for errors the table of codes, each with its status.
\<close>

section \<open>Error documents\<close>

definition status_of_code :: "string \<Rightarrow> nat option" where
  "status_of_code code = map_of
     [(''INVALID_REQUEST'', 400), (''VALIDATION_ERROR'', 400), (''INVALID_QUANTITY'', 400), (''INVALID_PRICE'', 400),
      (''INVALID_CUSTOMER_ID'', 400), (''ORDER_NOT_FOUND'', 404), (''ITEM_NOT_FOUND'', 404),
      (''ORDER_NOT_MODIFIABLE'', 409), (''CONCURRENCY_CONFLICT'', 409), (''NO_ITEMS'', 422), (''INTERNAL_ERROR'', 500)] code"

text \<open>
  The code fixes the status; the details are those of a failed validation, each with its field and
  tag; an internal error shows nothing of its cause.
\<close>

definition typed_detail :: "ValidationError \<Rightarrow> bool" where
  "typed_detail v \<longleftrightarrow> ve_Tag v \<in> {''required'', ''uuid'', ''gt''} \<and>
     ve_Field v \<in> {''CustomerID'', ''ProductID'', ''ProductName'', ''Quantity'', ''UnitPrice''}"

definition typed_error :: "nat \<Rightarrow> ErrorResponse \<Rightarrow> bool" where
  "typed_error status er \<longleftrightarrow> status_of_code (er_Code er) = Some status \<and>
     (er_Details er \<noteq> [] \<longleftrightarrow> er_Code er = ''VALIDATION_ERROR'') \<and> list_all typed_detail (er_Details er) \<and>
     (er_Code er = ''INTERNAL_ERROR'' \<longrightarrow> er_Message er = ''An unexpected error occurred'')"

section \<open>Answers by route\<close>

text \<open>\<open>typed_body\<close>: the body that goes with a status on a route.\<close>

fun typed_body :: "string \<Rightarrow> nat \<Rightarrow> payload \<Rightarrow> bool" where
  "typed_body route status (PError er) \<longleftrightarrow> HasPrefix route ''/orders'' \<and> typed_error status er"
| "typed_body route status (PCreated i) \<longleftrightarrow> route = ''/orders'' \<and> status = 201"
| "typed_body route status (PMessage m) \<longleftrightarrow> status = 200 \<and>
     (route, m) \<in> {(''/orders/:orderID/items'', ''item added''), (''/orders/:orderID/confirm'', ''order confirmed'')}"
| "typed_body route status (POrder r) \<longleftrightarrow> route = ''/orders/:orderID'' \<and> status = 200"
| "typed_body route status (POrders r) \<longleftrightarrow> route = ''/orders'' \<and> status = 200"
| "typed_body route status (PPanic m c) \<longleftrightarrow> False"
| "typed_body route status (PStatus s) \<longleftrightarrow> status = 200 \<and>
     (route, s) \<in> {(''/health/live'', ''alive''), (''/health/ready'', ''ready'')}"
| "typed_body route status (PNotReady s e) \<longleftrightarrow> route = ''/health/ready'' \<and> status = 503 \<and> s = ''not ready''"
| "typed_body route status (PFailure e) \<longleftrightarrow> route = ''/admin/outbox/requeue'' \<and> status = 500"
| "typed_body route status (PRequeued n) \<longleftrightarrow> route = ''/admin/outbox/requeue'' \<and> status = 200"

text \<open>The content type is JSON, but for a body that could not be bound.\<close>

definition json_typed :: "http_response \<Rightarrow> bool" where
  "json_typed rs \<longleftrightarrow> (case rs_Header rs ''Content-Type'' of None \<Rightarrow> False
     | Some c \<Rightarrow> HasPrefix c ''application/json'' \<or> rs = gin_bind_error)"

definition typed_answer :: "string \<Rightarrow> http_response \<Rightarrow> bool" where
  "typed_answer route rs \<longleftrightarrow> typed_body route (rs_Status rs) (rs_Body rs) \<and> json_typed rs"

lemma gin_json_typed: "typed_answer route (gin_json status body) \<longleftrightarrow> typed_body route status body"
  by (simp add: typed_answer_def gin_json_def json_typed_def HasPrefix_def)

lemma gin_bind_error_typed: "HasPrefix route ''/orders'' \<Longrightarrow> typed_answer route gin_bind_error"
  by (simp add: typed_answer_def gin_bind_error_def json_typed_def invalid_json_def typed_error_def status_of_code_def)

lemma mapError_code:
  "mapError e = (code, status, msg) \<Longrightarrow> status_of_code code = Some status \<and> code \<noteq> ''VALIDATION_ERROR'' \<and>
     (code = ''INTERNAL_ERROR'' \<longrightarrow> msg = ''An unexpected error occurred'')"
  by (auto simp: mapError_def status_of_code_def split: if_splits)

lemma error_typed: "HasPrefix route ''/orders'' \<Longrightarrow> typed_answer route (mapAndWriteError rq e)"
  using mapError_code [of e]
  by (cases "mapError e") (simp add: mapAndWriteError_def writeError_def json_response_def
      typed_answer_def json_typed_def typed_error_def HasPrefix_def)

lemma mapAndWriteGinError_is:
  "run_state (mapAndWriteGinError h rq e) w = (rs, w') \<Longrightarrow> rs = mapAndWriteError rq e"
  by (auto simp: mapAndWriteGinError_def split: prod.splits)

lemma details_typed:
  "list_all typed_detail (Validate_CreateOrderRequest L r)" "list_all typed_detail (Validate_AddItemRequest a)"
  by (simp_all add: Validate_CreateOrderRequest_def Validate_AddItemRequest_def validate_required_def
      validate_positive_def typed_detail_def ValidationError_of_def)

lemma invalid_fields_typed:
  "errs \<noteq> [] \<Longrightarrow> list_all typed_detail errs \<Longrightarrow> typed_error 400 (invalid_fields errs)"
  by (simp add: typed_error_def invalid_fields_def status_of_code_def)

lemma order_routes_typed:
  "run_state (GinHandleCreateOrder h rq) w = (rs, w') \<Longrightarrow> typed_answer ''/orders'' rs"
  "run_state (GinHandleListOrders h rq) w = (rs, w') \<Longrightarrow> typed_answer ''/orders'' rs"
  "run_state (GinHandleGetOrder h rq) w = (rs, w') \<Longrightarrow> typed_answer ''/orders/:orderID'' rs"
  "run_state (GinHandleAddItem h rq) w = (rs, w') \<Longrightarrow> typed_answer ''/orders/:orderID/items'' rs"
  "run_state (GinHandleConfirmOrder h rq) w = (rs, w') \<Longrightarrow> typed_answer ''/orders/:orderID/confirm'' rs"
  by (auto simp: GinHandleCreateOrder_def GinHandleListOrders_def GinHandleGetOrder_def GinHandleAddItem_def
      GinHandleConfirmOrder_def Let_def HasPrefix_def gin_json_typed split: prod.splits sum.splits if_splits
      dest!: mapAndWriteGinError_is intro!: gin_bind_error_typed error_typed invalid_fields_typed details_typed)

lemma admin_routes_typed:
  "run_state (health_live rq) w = (rs, w') \<Longrightarrow> typed_answer ''/health/live'' rs"
  "run_state (health_ready T ping rq) w = (rs, w') \<Longrightarrow> typed_answer ''/health/ready'' rs"
  "run_state (requeue_outbox T ob rq) w = (rs, w') \<Longrightarrow> typed_answer ''/admin/outbox/requeue'' rs"
  by (auto simp: health_live_def health_ready_def requeue_outbox_def gin_json_typed split: prod.splits sum.splits)

text \<open>C13: Every answer of every route of the service has the type of the route: the status and the shape
  of the body on success; on an error a code with its status, details exactly for a failed
  validation, and nothing of the cause of an internal error.\<close>

theorem answers_are_typed:
  assumes "(m, route, handler) \<in> set (service_routes E T L ping)" "run_state (handler rq) w = (rs, w')"
  shows "typed_answer route rs"
  using assms by (auto simp: service_routes_def RegisterGinRoutes_def intro: order_routes_typed admin_routes_typed)

theorem answers_are_typed_witness:
  "typed_answer ''/orders/:orderID/confirm'' (fst (run_state (GinHandleConfirmOrder (service_handler mem_platform sc_libs sc_logger)
     (sc_request ''nonsense'' '''')) sc_w3)) \<and>
   rs_Status (fst (run_state (GinHandleConfirmOrder (service_handler mem_platform sc_libs sc_logger) (sc_request ''nonsense'' '''')) sc_w3)) = 500"
proof
  let ?h = "GinHandleConfirmOrder (service_handler mem_platform sc_libs sc_logger)"
  show "typed_answer ''/orders/:orderID/confirm'' (fst (run_state (?h (sc_request ''nonsense'' '''')) sc_w3))"
    by (rule answers_are_typed [of "''POST''" _ ?h mem_platform
          "\<lparr>tl_Log = sc_logger, tl_Observe = \<lambda>ls d. ret (), tl_Stack = ''''\<rparr>" sc_libs "ret (Inr ())"
          "sc_request ''nonsense'' ''''" sc_w3 _ "snd (run_state (?h (sc_request ''nonsense'' '''')) sc_w3)"])
      (simp_all add: service_routes_def RegisterGinRoutes_def)
qed (simp add: http_eval go_defs mem_eval sc_request_def sc_logger_info Let_def del: error_text.simps split: prod.split)

end
