(* ===== verification/Api_Docs.thy ===== *)
theory Api_Docs imports Response_Types begin

text \<open>
  The documentation of the API that the service publishes (\<^verbatim>\<open>docs/docs.go\<close>), beside the routes and
  the answers of the handlers.
\<close>

section \<open>The document\<close>

datatype doc_type =
    TString
  | TInteger
  | TAny
  | TStrings
  | TArray string
  | Ref string
  | WithDefault doc_type int

record doc_parameter =
  dp_Name :: string
  dp_In :: string
  dp_Description :: string
  dp_Required :: bool
  dp_Type :: doc_type

record doc_operation =
  dc_Path :: string
  dc_Method :: string
  dc_Description :: string
  dc_Consumes :: "string list"
  dc_Produces :: "string list"
  dc_Tags :: "string list"
  dc_Summary :: string
  dc_Parameters :: "doc_parameter list"
  dc_Responses :: "(nat \<times> string \<times> doc_type) list"

abbreviation doc_parameter :: "string \<Rightarrow> string \<Rightarrow> string \<Rightarrow> bool \<Rightarrow> doc_type \<Rightarrow> doc_parameter" where
  "doc_parameter name place description required type \<equiv>
     \<lparr>dp_Name = name, dp_In = place, dp_Description = description, dp_Required = required, dp_Type = type\<rparr>"

definition dto :: "string \<Rightarrow> string" where
  "dto name = ''github_com_himmel_order-service_internal_application_dto.'' @ name"

definition list_orders_doc :: doc_operation where
  "list_orders_doc =
     \<lparr>dc_Path = ''/orders'', dc_Method = ''get'', dc_Description = ''Get a paginated list of orders, optionally filtered'',
      dc_Consumes = [''application/json''], dc_Produces = [''application/json''], dc_Tags = [''orders''],
      dc_Summary = ''List orders'',
      dc_Parameters =
        [doc_parameter ''status'' ''query'' ''Filter by order status'' False TString,
         doc_parameter ''customer_id'' ''query'' ''Filter by customer ID'' False TString,
         doc_parameter ''page'' ''query'' ''Page number'' False (WithDefault TInteger 1),
         doc_parameter ''size'' ''query'' ''Page size'' False (WithDefault TInteger 20),
         doc_parameter ''sort'' ''query'' ''Sort field (created_at, total_amount)'' False TString,
         doc_parameter ''dir'' ''query'' ''Sort direction (asc, desc)'' False TString],
      dc_Responses =
        [(200, ''OK'', Ref (dto ''PaginatedOrdersResponse'')),
         (500, ''Internal Server Error'', Ref (dto ''ErrorResponse''))]\<rparr>"

definition create_order_doc :: doc_operation where
  "create_order_doc =
     \<lparr>dc_Path = ''/orders'', dc_Method = ''post'', dc_Description = ''Create an order for a given customer'',
      dc_Consumes = [''application/json''], dc_Produces = [''application/json''], dc_Tags = [''orders''],
      dc_Summary = ''Create a new order'',
      dc_Parameters =
        [doc_parameter ''request'' ''body'' ''Create Order Request'' True (Ref (dto ''CreateOrderRequest''))],
      dc_Responses =
        [(201, ''Created'', Ref (dto ''CreateOrderResult'')),
         (400, ''Bad Request'', Ref (dto ''ErrorResponse'')),
         (500, ''Internal Server Error'', Ref (dto ''ErrorResponse''))]\<rparr>"

definition get_order_doc :: doc_operation where
  "get_order_doc =
     \<lparr>dc_Path = ''/orders/{orderID}'', dc_Method = ''get'', dc_Description = ''Fetch an order by its ID from the read model'',
      dc_Consumes = [''application/json''], dc_Produces = [''application/json''], dc_Tags = [''orders''],
      dc_Summary = ''Get order details'',
      dc_Parameters =
        [doc_parameter ''orderID'' ''path'' ''Order ID'' True TString],
      dc_Responses =
        [(200, ''OK'', Ref (dto ''OrderResponse'')),
         (404, ''Not Found'', Ref (dto ''ErrorResponse'')),
         (500, ''Internal Server Error'', Ref (dto ''ErrorResponse''))]\<rparr>"

definition confirm_order_doc :: doc_operation where
  "confirm_order_doc =
     \<lparr>dc_Path = ''/orders/{orderID}/confirm'', dc_Method = ''post'', dc_Description = ''Transition order status from DRAFT to CONFIRMED'',
      dc_Consumes = [''application/json''], dc_Produces = [''application/json''], dc_Tags = [''orders''],
      dc_Summary = ''Confirm an order'',
      dc_Parameters =
        [doc_parameter ''orderID'' ''path'' ''Order ID'' True TString],
      dc_Responses =
        [(200, ''OK'', TStrings),
         (400, ''Bad Request'', Ref (dto ''ErrorResponse'')),
         (404, ''Not Found'', Ref (dto ''ErrorResponse'')),
         (409, ''Conflict'', Ref (dto ''ErrorResponse'')),
         (500, ''Internal Server Error'', Ref (dto ''ErrorResponse''))]\<rparr>"

definition add_item_doc :: doc_operation where
  "add_item_doc =
     \<lparr>dc_Path = ''/orders/{orderID}/items'', dc_Method = ''post'', dc_Description = ''Add a new product to an existing DRAFT order'',
      dc_Consumes = [''application/json''], dc_Produces = [''application/json''], dc_Tags = [''orders''],
      dc_Summary = ''Add an item to an order'',
      dc_Parameters =
        [doc_parameter ''orderID'' ''path'' ''Order ID'' True TString,
         doc_parameter ''request'' ''body'' ''Add Item Request'' True (Ref (dto ''AddItemRequest''))],
      dc_Responses =
        [(200, ''OK'', TStrings),
         (400, ''Bad Request'', Ref (dto ''ErrorResponse'')),
         (404, ''Not Found'', Ref (dto ''ErrorResponse'')),
         (409, ''Conflict'', Ref (dto ''ErrorResponse'')),
         (500, ''Internal Server Error'', Ref (dto ''ErrorResponse''))]\<rparr>"

definition schema_docs :: "(string \<times> string list \<times> (string \<times> doc_type) list) list" where
  "schema_docs =
     [(dto ''AddItemRequest'', [''product_id'', ''product_name'', ''quantity'', ''unit_price''],
       [(''product_id'', TString), (''product_name'', TString), (''quantity'', TInteger),
        (''unit_price'', TInteger)]),
      (dto ''CreateOrderRequest'', [''customer_id''],
       [(''customer_id'', TString)]),
      (dto ''CreateOrderResult'', [],
       [(''order_id'', TString)]),
      (dto ''ErrorResponse'', [],
       [(''code'', TString), (''details'', TAny), (''message'', TString),
        (''trace_id'', TString)]),
      (dto ''OrderItemResponse'', [],
       [(''id'', TString), (''product_id'', TString), (''product_name'', TString),
        (''quantity'', TInteger), (''total_price'', TInteger), (''unit_price'', TInteger)]),
      (dto ''OrderResponse'', [],
       [(''created_at'', TString), (''customer_id'', TString), (''id'', TString),
        (''item_count'', TInteger), (''items'', TArray (dto ''OrderItemResponse'')), (''status'', TString),
        (''total_amount'', TInteger), (''updated_at'', TString)]),
      (dto ''PaginatedOrdersResponse'', [],
       [(''orders'', TArray (dto ''OrderResponse'')), (''page'', TInteger), (''page_size'', TInteger),
        (''total_count'', TInteger)])]"

record swag_spec =
  sw_Version :: string
  sw_Host :: string
  sw_BasePath :: string
  sw_Schemes :: "string list"
  sw_Title :: string
  sw_Description :: string
  sw_InfoInstanceName :: string

definition SwaggerInfo :: swag_spec where
  "SwaggerInfo =
     \<lparr>sw_Version = ''1.0'', sw_Host = ''localhost:8080'', sw_BasePath = ''/'', sw_Schemes = [], sw_Title = ''Order Service API'',
      sw_Description = ''A production-grade Go backend demonstrating CQRS, Transactional Outbox, and event-driven projection.'',
      sw_InfoInstanceName = ''swagger''\<rparr>"

definition documented_api :: "doc_operation list" where
  "documented_api = [list_orders_doc, create_order_doc, get_order_doc, confirm_order_doc, add_item_doc]"

lemmas api_docs = documented_api_def list_orders_doc_def create_order_doc_def get_order_doc_def confirm_order_doc_def
  add_item_doc_def

text \<open>Every schema that is referred to is defined.\<close>

fun refers :: "doc_type \<Rightarrow> string list" where
  "refers (TArray n) = [n]"
| "refers (Ref n) = [n]"
| "refers (WithDefault t d) = refers t"
| "refers t = []"

lemma schemas_defined:
  "\<forall>op \<in> set documented_api. \<forall>t \<in> dp_Type ` set (dc_Parameters op) \<union> (snd \<circ> snd) ` set (dc_Responses op).
     set (refers t) \<subseteq> fst ` set schema_docs"
  "\<forall>(n, req, props) \<in> set schema_docs. set req \<subseteq> fst ` set props \<and> (\<forall>(k, t) \<in> set props. set (refers t) \<subseteq> fst ` set schema_docs)"
  by (auto simp: api_docs schema_docs_def)

section \<open>Answers\<close>

text \<open>
  The JSON of a body, by the tags of the structs: empty fields tagged \<^verbatim>\<open>omitempty\<close> are left out.
  \<open>fmt\<close> is the text of an instant.  The page of a listing without orders prints as an empty
  array or as \<^verbatim>\<open>null\<close>, depending on whether the library that fills it allocates: \<open>nil\<close>.
\<close>

definition detail_json :: "ValidationError \<Rightarrow> json" where
  "detail_json v = JObj (map_of [(''field'', JStr (ve_Field v)), (''tag'', JStr (ve_Tag v)), (''value'', JStr (ve_Value v)),
     (''message'', JStr (ve_Message v))])"

definition item_json :: "OrderItemResponse \<Rightarrow> json" where
  "item_json i = JObj (map_of [(''id'', JStr (oir_ID i)), (''product_id'', JStr (oir_ProductID i)),
     (''product_name'', JStr (oir_ProductName i)), (''quantity'', JNum (sint (oir_Quantity i))),
     (''unit_price'', JNum (sint (oir_UnitPrice i))), (''total_price'', JNum (sint (oir_TotalPrice i)))])"

definition order_json :: "(time \<Rightarrow> string) \<Rightarrow> OrderResponse \<Rightarrow> json" where
  "order_json fmt r = JObj (map_of ([(''id'', JStr (or_ID r)), (''customer_id'', JStr (or_CustomerID r)),
     (''status'', JStr (or_Status r)), (''total_amount'', JNum (sint (or_TotalAmount r))),
     (''item_count'', JNum (sint (or_ItemCount r)))] @
     (if Queries.or_Items r \<noteq> [] then [(''items'', JArr (map item_json (Queries.or_Items r)))] else []) @
     [(''created_at'', JStr (fmt (or_CreatedAt r))), (''updated_at'', JStr (fmt (or_UpdatedAt r)))]))"

definition page_json :: "(time \<Rightarrow> string) \<Rightarrow> bool \<Rightarrow> PaginatedOrdersResponse \<Rightarrow> json" where
  "page_json fmt nil r = JObj (map_of
     [(''orders'', if pr_Orders r = [] \<and> nil then JNull else JArr (map (order_json fmt) (pr_Orders r))),
      (''total_count'', JNum (sint (pr_TotalCount r))), (''page'', JNum (sint (pr_Page r))),
      (''page_size'', JNum (sint (pr_PageSize r)))])"

definition error_json :: "ErrorResponse \<Rightarrow> json" where
  "error_json er = JObj (map_of ([(''code'', JStr (er_Code er)), (''message'', JStr (er_Message er))] @
     (if er_Details er \<noteq> [] then [(''details'', JArr (map detail_json (er_Details er)))] else []) @
     (if er_TraceID er \<noteq> '''' then [(''trace_id'', JStr (er_TraceID er))] else [])))"

fun body_json :: "(time \<Rightarrow> string) \<Rightarrow> bool \<Rightarrow> payload \<Rightarrow> json" where
  "body_json fmt nil (PError er) = error_json er"
| "body_json fmt nil (PCreated i) = JObj [''order_id'' \<mapsto> JStr i]"
| "body_json fmt nil (PMessage m) = JObj [''message'' \<mapsto> JStr m]"
| "body_json fmt nil (POrder r) = order_json fmt r"
| "body_json fmt nil (POrders r) = page_json fmt nil r"
| "body_json fmt nil (PPanic e c) = JObj [''error'' \<mapsto> JStr e, ''code'' \<mapsto> JStr c]"
| "body_json fmt nil (PStatus s) = JObj [''status'' \<mapsto> JStr s]"
| "body_json fmt nil (PNotReady s e) = JObj [''status'' \<mapsto> JStr s, ''error'' \<mapsto> JStr e]"
| "body_json fmt nil (PFailure e) = JObj [''error'' \<mapsto> JStr e]"
| "body_json fmt nil (PRequeued n) = JObj [''requeued'' \<mapsto> JNum (sint n)]"

text \<open>
  A JSON value of a documented type.  An object of a schema has no key but its properties, each
  with a value of its type, and all of them but those that may be omitted; \<^verbatim>\<open>null\<close> passes for an
  array.
\<close>

definition omitempty :: "string \<Rightarrow> string set" where
  "omitempty n = (if n = dto ''ErrorResponse'' then {''details'', ''trace_id''}
     else if n = dto ''OrderResponse'' then {''items''} else {})"

inductive conforms :: "doc_type \<Rightarrow> json \<Rightarrow> bool" where
  a_string: "conforms TString (JStr s)"
| an_integer: "conforms TInteger (JNum n)"
| anything: "conforms TAny j"
| a_map: "(\<And>k v. m k = Some v \<Longrightarrow> \<exists>s. v = JStr s) \<Longrightarrow> conforms TStrings (JObj m)"
| no_array: "conforms (TArray n) JNull"
| an_array: "(\<And>j. j \<in> set js \<Longrightarrow> conforms (Ref n) j) \<Longrightarrow> conforms (TArray n) (JArr js)"
| defaulted: "conforms t j \<Longrightarrow> conforms (WithDefault t d) j"
| an_object: "map_of schema_docs n = Some (req, props) \<Longrightarrow> set req \<subseteq> dom m \<Longrightarrow> fst ` set props \<subseteq> dom m \<union> omitempty n \<Longrightarrow>
    (\<And>k v. m k = Some v \<Longrightarrow> \<exists>t. map_of props k = Some t \<and> conforms t v) \<Longrightarrow> conforms (Ref n) (JObj m)"

inductive_simps conforms_simps: "conforms TString j" "conforms TInteger j" "conforms TAny j"

lemma conforms_object:
  assumes "map_of schema_docs n = Some (req, props)" "set req \<subseteq> fst ` set kvs" "fst ` set props \<subseteq> fst ` set kvs \<union> omitempty n"
    and "list_all (\<lambda>(k, v). case map_of props k of None \<Rightarrow> False | Some t \<Rightarrow> conforms t v) kvs"
  shows "conforms (Ref n) (JObj (map_of kvs))"
proof (rule conforms.an_object [OF assms(1)])
  show "set req \<subseteq> dom (map_of kvs)" "fst ` set props \<subseteq> dom (map_of kvs) \<union> omitempty n"
    using assms(2,3) by (simp_all add: dom_map_of_conv_image_fst)
  show "\<exists>t. map_of props k = Some t \<and> conforms t v" if "map_of kvs k = Some v" for k v
    using map_of_SomeD [OF that] assms(4) by (auto simp: list_all_iff split: option.splits)
qed

lemma item_fits: "conforms (Ref (dto ''OrderItemResponse'')) (item_json i)"
  unfolding item_json_def
  by (rule conforms_object, simp add: schema_docs_def dto_def) (simp_all add: schema_docs_def dto_def conforms_simps)

lemma order_fits: "conforms (Ref (dto ''OrderResponse'')) (order_json fmt r)"
proof -
  have "conforms (TArray (dto ''OrderItemResponse'')) (JArr (map item_json (Queries.or_Items r)))"
    by (rule conforms.an_array) (auto intro: item_fits)
  then show ?thesis unfolding order_json_def
    by (intro conforms_object, simp add: schema_docs_def dto_def) (simp_all add: schema_docs_def dto_def conforms_simps omitempty_def)
qed

lemma page_fits: "conforms (Ref (dto ''PaginatedOrdersResponse'')) (page_json fmt nil r)"
proof -
  have "conforms (TArray (dto ''OrderResponse'')) (JArr (map (order_json fmt) (pr_Orders r)))"
    by (rule conforms.an_array) (auto intro: order_fits)
  then show ?thesis unfolding page_json_def
    by (intro conforms_object, simp add: schema_docs_def dto_def) (simp_all add: schema_docs_def dto_def conforms_simps conforms.no_array)
qed

lemma error_fits: "conforms (Ref (dto ''ErrorResponse'')) (error_json er)"
  unfolding error_json_def
  by (rule conforms_object, simp add: schema_docs_def dto_def) (simp_all add: schema_docs_def dto_def conforms_simps omitempty_def)

lemma created_fits: "conforms (Ref (dto ''CreateOrderResult'')) (JObj [''order_id'' \<mapsto> JStr i])"
  using conforms_object [of "dto ''CreateOrderResult''" _ _ "[(''order_id'', JStr i)]"]
  by (simp add: schema_docs_def dto_def conforms_simps)

lemma message_fits: "conforms TStrings (JObj [''message'' \<mapsto> JStr m])"
  by (rule conforms.a_map) (auto split: if_splits)

text \<open>The struct a body is printed from is the documented one.\<close>

fun body_schema :: "payload \<Rightarrow> doc_type option" where
  "body_schema (PError er) = Some (Ref (dto ''ErrorResponse''))"
| "body_schema (PCreated i) = Some (Ref (dto ''CreateOrderResult''))"
| "body_schema (PMessage m) = Some TStrings"
| "body_schema (POrder r) = Some (Ref (dto ''OrderResponse''))"
| "body_schema (POrders r) = Some (Ref (dto ''PaginatedOrdersResponse''))"
| "body_schema b = None"

definition fits_schema :: "doc_type \<Rightarrow> payload \<Rightarrow> bool" where
  "fits_schema t body \<longleftrightarrow> body_schema body = Some t \<and> (\<forall>fmt nil. conforms t (body_json fmt nil body))"

lemma bodies_fit:
  "fits_schema (Ref (dto ''ErrorResponse'')) (PError er)" "fits_schema (Ref (dto ''CreateOrderResult'')) (PCreated i)"
  "fits_schema TStrings (PMessage m)" "fits_schema (Ref (dto ''OrderResponse'')) (POrder r)"
  "fits_schema (Ref (dto ''PaginatedOrdersResponse'')) (POrders ps)"
  by (simp_all add: fits_schema_def error_fits created_fits message_fits order_fits page_fits)

text \<open>An answer as documented; or an error whose status is not.\<close>

definition as_documented :: "doc_operation \<Rightarrow> http_response \<Rightarrow> bool" where
  "as_documented op rs \<longleftrightarrow> (case map_of (dc_Responses op) (rs_Status rs) of
     Some (description, t) \<Rightarrow> fits_schema t (rs_Body rs)
   | None \<Rightarrow> 400 \<le> rs_Status rs \<and> (\<exists>er. rs_Body rs = PError er))"

text \<open>The value of a query parameter, where the documented default stands for an absent one.\<close>

definition query_value :: "http_request \<Rightarrow> doc_parameter \<Rightarrow> string option" where
  "query_value rq p = (case rq_QueryValue rq (dp_Name p) of
     Some v \<Rightarrow> Some v
   | None \<Rightarrow> (case dp_Type p of WithDefault t d \<Rightarrow> Some (Itoa (word_of_int d)) | _ \<Rightarrow> None))"

text \<open>Two requests that agree on the documented parameters, up to defaults, and carry the same trace.\<close>

definition same_parameters :: "doc_operation \<Rightarrow> http_request \<Rightarrow> http_request \<Rightarrow> bool" where
  "same_parameters op rq rq' \<longleftrightarrow> rq_Span rq = rq_Span rq' \<and>
     list_all (\<lambda>p. if dp_In p = ''query'' then query_value rq p = query_value rq' p
       else if dp_In p = ''path'' then rq_Param rq (dp_Name p) = rq_Param rq' (dp_Name p)
       else rq_Body rq = rq_Body rq') (dc_Parameters op)"

text \<open>A path in the router's notation.\<close>

definition gin_pattern :: "string \<Rightarrow> string" where
  "gin_pattern path = concat (map (\<lambda>c. if c = CHR ''{'' then '':'' else if c = CHR ''}'' then [] else [c]) path)"

lemma error_statuses:
  "typed_error status er \<Longrightarrow> 400 \<le> status"
  by (auto simp: typed_error_def status_of_code_def split: if_splits)

text \<open>Every documented status from 400 on has the schema of errors.\<close>

lemma error_documented:
  assumes "op \<in> set documented_api" "rs_Body rs = PError er" "typed_error (rs_Status rs) er"
  shows "as_documented op rs"
proof -
  show ?thesis
    using bodies_fit(1) [of er] assms error_statuses [OF assms(3)] by (auto simp: as_documented_def api_docs)
qed

lemma mapped_error_documented:
  assumes "op \<in> set documented_api" "run_state (mapAndWriteGinError h rq e) w = (rs, w')"
  shows "as_documented op rs"
proof -
  have rs: "rs = mapAndWriteError rq e" using assms(2) by (rule mapAndWriteGinError_is)
  from mapAndWriteError_sel(2) [of rq e] obtain er where er: "rs_Body rs = PError er" by (auto simp: rs)
  from error_typed [of "''/orders''" rq e] er have "typed_error (rs_Status rs) er"
    by (simp add: typed_answer_def HasPrefix_def rs)
  with assms(1) er show ?thesis by (rule error_documented)
qed

lemma invalid_documented:
  "op \<in> set documented_api \<Longrightarrow> as_documented op gin_bind_error"
  "op \<in> set documented_api \<Longrightarrow> errs \<noteq> [] \<Longrightarrow> list_all typed_detail errs \<Longrightarrow>
     as_documented op (gin_json 400 (PError (invalid_fields errs)))"
proof -
  assume op: "op \<in> set documented_api"
  show "as_documented op gin_bind_error"
    by (rule error_documented [OF op, of _ invalid_json])
      (simp_all add: gin_bind_error_def typed_error_def invalid_json_def status_of_code_def)
  show "as_documented op (gin_json 400 (PError (invalid_fields errs)))" if "errs \<noteq> []" "list_all typed_detail errs"
    by (rule error_documented [OF op, of _ "invalid_fields errs"]) (simp_all add: gin_json_def invalid_fields_typed that)
qed

lemma handlers_documented:
  "run_state (GinHandleListOrders h rq) w = (rs, w') \<Longrightarrow> as_documented list_orders_doc rs"
  "run_state (GinHandleCreateOrder h rq) w = (rs, w') \<Longrightarrow> as_documented create_order_doc rs"
  "run_state (GinHandleGetOrder h rq) w = (rs, w') \<Longrightarrow> as_documented get_order_doc rs"
  "run_state (GinHandleConfirmOrder h rq) w = (rs, w') \<Longrightarrow> as_documented confirm_order_doc rs"
  "run_state (GinHandleAddItem h rq) w = (rs, w') \<Longrightarrow> as_documented add_item_doc rs"
proof -
  have m: "list_orders_doc \<in> set documented_api" "create_order_doc \<in> set documented_api" "get_order_doc \<in> set documented_api"
    "confirm_order_doc \<in> set documented_api" "add_item_doc \<in> set documented_api"
    by (simp_all add: documented_api_def)
  have ok: "as_documented list_orders_doc (gin_json 200 (POrders ps))" "as_documented create_order_doc (gin_json 201 (PCreated i))"
    "as_documented get_order_doc (gin_json 200 (POrder r))" "as_documented confirm_order_doc (gin_json 200 (PMessage t))"
    "as_documented add_item_doc (gin_json 200 (PMessage t))" for ps i r t
    by (auto simp: as_documented_def gin_json_def api_docs bodies_fit)
  note rules = m ok mapped_error_documented invalid_documented details_typed
  show "run_state (GinHandleListOrders h rq) w = (rs, w') \<Longrightarrow> as_documented list_orders_doc rs"
    "run_state (GinHandleCreateOrder h rq) w = (rs, w') \<Longrightarrow> as_documented create_order_doc rs"
    "run_state (GinHandleGetOrder h rq) w = (rs, w') \<Longrightarrow> as_documented get_order_doc rs"
    "run_state (GinHandleConfirmOrder h rq) w = (rs, w') \<Longrightarrow> as_documented confirm_order_doc rs"
    "run_state (GinHandleAddItem h rq) w = (rs, w') \<Longrightarrow> as_documented add_item_doc rs"
    by (auto simp: GinHandleCreateOrder_def GinHandleListOrders_def GinHandleGetOrder_def GinHandleAddItem_def
        GinHandleConfirmOrder_def Let_def split: prod.splits sum.splits if_splits intro: rules)
qed

text \<open>The defaults of the document are those of the handler.\<close>

lemma default_taken: "0 < sint d \<Longrightarrow> positive_or d (case v of None \<Rightarrow> '''' | Some s \<Rightarrow> s) =
    positive_or d (the (case v of None \<Rightarrow> Some (Itoa d) | Some s \<Rightarrow> Some s))"
  by (cases v) (simp_all add: positive_or_def Atoi_Itoa)

lemma query_value_plain: "query_value rq (doc_parameter k place t required TString) = rq_QueryValue rq k"
  by (simp add: query_value_def split: option.split)

lemma documented_defaults:
  assumes "query_value rq (doc_parameter k ''query'' t False (WithDefault TInteger d)) =
      query_value rq' (doc_parameter k ''query'' t False (WithDefault TInteger d))"
    and "0 < sint (word_of_int d :: go_int)"
  shows "positive_or (word_of_int d) (query_get rq k) = positive_or (word_of_int d) (query_get rq' k)"
proof -
  have q: "positive_or (word_of_int d) (query_get r k) =
      positive_or (word_of_int d) (the (query_value r (doc_parameter k ''query'' t False (WithDefault TInteger d))))" for r
    unfolding query_get_def default_taken [OF assms(2)] by (cases "rq_QueryValue r k") (simp_all add: query_value_def)
  show ?thesis unfolding q assms(1) ..
qed

text \<open>The handlers read nothing but the documented parameters.\<close>

lemma handlers_read_parameters:
  "same_parameters list_orders_doc rq rq' \<Longrightarrow> GinHandleListOrders h rq = GinHandleListOrders h rq'"
  "same_parameters create_order_doc rq rq' \<Longrightarrow> GinHandleCreateOrder h rq = GinHandleCreateOrder h rq'"
  "same_parameters get_order_doc rq rq' \<Longrightarrow> GinHandleGetOrder h rq = GinHandleGetOrder h rq'"
  "same_parameters confirm_order_doc rq rq' \<Longrightarrow> GinHandleConfirmOrder h rq = GinHandleConfirmOrder h rq'"
  "same_parameters add_item_doc rq rq' \<Longrightarrow> GinHandleAddItem h rq = GinHandleAddItem h rq'"
proof -
  have e: "rq_Span rq = rq_Span rq' \<Longrightarrow> mapAndWriteGinError h rq e = mapAndWriteGinError h rq' e" for e
    by (simp add: mapAndWriteGinError_def mapAndWriteError_def writeError_def split: prod.splits)
  show "GinHandleListOrders h rq = GinHandleListOrders h rq'" if same: "same_parameters list_orders_doc rq rq'"
  proof -
    have v: "rq_QueryValue rq k = rq_QueryValue rq' k" if "k \<in> {''status'', ''customer_id'', ''sort'', ''dir''}" for k
      using same that by (elim insertE) (simp_all add: same_parameters_def list_orders_doc_def query_value_plain)
    have "positive_or (word_of_int 1) (query_get rq ''page'') = positive_or (word_of_int 1) (query_get rq' ''page'')"
      by (rule documented_defaults [of rq _ "''Page number''" _ rq']) (use same in \<open>simp_all add: same_parameters_def list_orders_doc_def\<close>)
    moreover have "positive_or (word_of_int 20) (query_get rq ''size'') = positive_or (word_of_int 20) (query_get rq' ''size'')"
      by (rule documented_defaults [of rq _ "''Page size''" _ rq']) (use same in \<open>simp_all add: same_parameters_def list_orders_doc_def\<close>)
    ultimately have "list_query rq (DefaultQuery rq ''sort'' ''created_at'') (DefaultQuery rq ''dir'' ''desc'') =
        list_query rq' (DefaultQuery rq' ''sort'' ''created_at'') (DefaultQuery rq' ''dir'' ''desc'')"
      by (simp add: list_query_def DefaultQuery_def query_get_def v)
    moreover have "mapAndWriteGinError h rq = mapAndWriteGinError h rq'"
      using same e by (auto simp: same_parameters_def fun_eq_iff)
    ultimately show ?thesis unfolding GinHandleListOrders_def by (simp only:)
  qed
  show "same_parameters create_order_doc rq rq' \<Longrightarrow> GinHandleCreateOrder h rq = GinHandleCreateOrder h rq'"
    "same_parameters get_order_doc rq rq' \<Longrightarrow> GinHandleGetOrder h rq = GinHandleGetOrder h rq'"
    "same_parameters confirm_order_doc rq rq' \<Longrightarrow> GinHandleConfirmOrder h rq = GinHandleConfirmOrder h rq'"
    "same_parameters add_item_doc rq rq' \<Longrightarrow> GinHandleAddItem h rq = GinHandleAddItem h rq'"
    by (simp_all add: same_parameters_def api_docs GinHandleCreateOrder_def GinHandleGetOrder_def GinHandleAddItem_def
        GinHandleConfirmOrder_def decode_body_def e Let_def cong: option.case_cong sum.case_cong if_cong)
qed

text \<open>A body that lacks a property documented as required is refused.\<close>

lemma missing_property_refused:
  assumes "(dto name, required, props) \<in> set schema_docs" "k \<in> set required" "decode_object j = Inr m" "m k = None"
  shows "name = ''AddItemRequest'' \<Longrightarrow> unmarshal_AddItemRequest j = Inr a \<Longrightarrow> Validate_AddItemRequest a \<noteq> []"
    "name = ''CreateOrderRequest'' \<Longrightarrow> unmarshal_CreateOrderRequest j = Inr c \<Longrightarrow> Validate_CreateOrderRequest L c \<noteq> []"
  using assms
  by (auto simp: schema_docs_def dto_def unmarshal_AddItemRequest_def unmarshal_CreateOrderRequest_def Validate_AddItemRequest_def
      Validate_CreateOrderRequest_def validate_required_def validate_positive_def split: sum.splits)

section \<open>Conformance\<close>

text \<open>An order without items is refused with a status that the document does not list.\<close>

lemma empty_confirmation_undocumented:
  "rs_Status (mapAndWriteError rq ErrNoItems) = 422" "map_of (dc_Responses confirm_order_doc) 422 = None"
  by (simp_all add: mapAndWriteError_def writeError_def json_response_def mapError_def confirm_order_doc_def)

lemma documented_routes:
  "ToLower ''POST'' = ''post''" "ToLower ''GET'' = ''get''"
  "gin_pattern ''/orders'' = ''/orders''" "gin_pattern ''/orders/{orderID}'' = ''/orders/:orderID''"
  "gin_pattern ''/orders/{orderID}/items'' = ''/orders/:orderID/items''"
  "gin_pattern ''/orders/{orderID}/confirm'' = ''/orders/:orderID/confirm''"
  by code_simp+

definition described :: "doc_operation \<Rightarrow> string \<Rightarrow> string \<Rightarrow> 'w http_handler \<Rightarrow> bool" where
  "described op m route handler \<longleftrightarrow> ToLower m = dc_Method op \<and> route = gin_pattern (dc_Path op) \<and>
     (\<forall>rq w. as_documented op (fst (run_state (handler rq) w))) \<and>
     (\<forall>rq rq'. same_parameters op rq rq' \<longrightarrow> handler rq = handler rq')"

lemma routes_described:
  "described list_orders_doc ''GET'' ''/orders'' (GinHandleListOrders h)"
  "described create_order_doc ''POST'' ''/orders'' (GinHandleCreateOrder h)"
  "described get_order_doc ''GET'' ''/orders/:orderID'' (GinHandleGetOrder h)"
  "described confirm_order_doc ''POST'' ''/orders/:orderID/confirm'' (GinHandleConfirmOrder h)"
  "described add_item_doc ''POST'' ''/orders/:orderID/items'' (GinHandleAddItem h)"
proof -
  have r: "run_state m w = (fst (run_state m w), snd (run_state m w))" for m :: "('w, http_response) state" and w by simp
  show "described list_orders_doc ''GET'' ''/orders'' (GinHandleListOrders h)"
    using handlers_documented(1) [OF r] handlers_read_parameters(1) [of _ _ h] by (auto simp: described_def documented_routes list_orders_doc_def)
  show "described create_order_doc ''POST'' ''/orders'' (GinHandleCreateOrder h)"
    using handlers_documented(2) [OF r] handlers_read_parameters(2) [of _ _ h] by (auto simp: described_def documented_routes create_order_doc_def)
  show "described get_order_doc ''GET'' ''/orders/:orderID'' (GinHandleGetOrder h)"
    using handlers_documented(3) [OF r] handlers_read_parameters(3) [of _ _ h] by (auto simp: described_def documented_routes get_order_doc_def)
  show "described confirm_order_doc ''POST'' ''/orders/:orderID/confirm'' (GinHandleConfirmOrder h)"
    using handlers_documented(4) [OF r] handlers_read_parameters(4) [of _ _ h] by (auto simp: described_def documented_routes confirm_order_doc_def)
  show "described add_item_doc ''POST'' ''/orders/:orderID/items'' (GinHandleAddItem h)"
    using handlers_documented(5) [OF r] handlers_read_parameters(5) [of _ _ h] by (auto simp: described_def documented_routes add_item_doc_def)
qed

text \<open>C14: The published document and the service agree: every order route is documented and every documented
  operation is routed; its handler reads no input but the documented parameters, with their defaults; and every answer
  has the schema documented for its status, or is an error whose status the document leaves out:
  its JSON, with that of the items and orders in it, has the documented properties, of the documented types,
  and no others; only what is empty may be missing, and an empty page may be \<^verbatim>\<open>null\<close>.\<close>

theorem documented_api_kept:
  "(\<forall>(m, route, handler) \<in> set (RegisterGinRoutes (h :: 'w Handler)). \<exists>op \<in> set documented_api. described op m route handler) \<and>
   (\<forall>op \<in> set documented_api. \<exists>(m, route, handler) \<in> set (RegisterGinRoutes h). described op m route handler)"
  using routes_described [of h] by (auto simp: RegisterGinRoutes_def documented_api_def)

theorem documented_api_kept_witness:
  "(\<exists>op \<in> set documented_api. described op ''POST'' ''/orders'' (GinHandleCreateOrder (service_handler mem_platform sc_libs sc_logger))) \<and>
   (\<exists>(m, route, handler) \<in> set (RegisterGinRoutes (service_handler mem_platform sc_libs sc_logger)). described confirm_order_doc m route handler)"
proof
  let ?h = "service_handler mem_platform sc_libs sc_logger"
  have "(''POST'', ''/orders'', GinHandleCreateOrder ?h) \<in> set (RegisterGinRoutes ?h)" by (simp add: RegisterGinRoutes_def)
  with documented_api_kept [of ?h]
  show "\<exists>op \<in> set documented_api. described op ''POST'' ''/orders'' (GinHandleCreateOrder ?h)" by fastforce
  have "confirm_order_doc \<in> set documented_api" by (simp add: documented_api_def)
  with documented_api_kept [of ?h]
  show "\<exists>(m, route, handler) \<in> set (RegisterGinRoutes ?h). described confirm_order_doc m route handler" by blast
qed

end
