(* ===== verification/Order_Story.thy ===== *)
theory Order_Story imports Command_History Read_Consistency begin

text \<open>
  The story of an order: its events with the state after each.  Projected one by one, they
  take the read model from one state of the order to the next.
\<close>

section \<open>Stories\<close>

definition item_added :: "('w, 'z) runtime_scheme \<Rightarrow> OrderID \<Rightarrow> OrderItem \<Rightarrow> time \<Rightarrow> OrderItemAdded" where
  "item_added R oid i at = \<lparr>oia_OrderID = OrderID_String R oid, oia_ItemID = uuid_String R (item_id i),
     oia_ProductID = item_productID i, oia_ProductName = item_productName i, oia_Quantity = item_quantity i,
     oia_UnitPrice = Amount (item_unitPrice i), oia_OccurredAt = at\<rparr>"

definition order_confirmed :: "('w, 'z) runtime_scheme \<Rightarrow> OrderID \<Rightarrow> persisted \<Rightarrow> time \<Rightarrow> OrderConfirmed" where
  "order_confirmed R oid p at = \<lparr>ocf_OrderID = OrderID_String R oid,
     ocf_TotalAmount = word_of_int (exact_sum (p_items p)), ocf_OccurredAt = at\<rparr>"

inductive story ::
  "('w, 'z) runtime_scheme \<Rightarrow> OrderID \<Rightarrow> (DomainEvent \<times> persisted) list \<Rightarrow> bool" for R oid where
  created: "\<not> CustomerID_IsZero cid \<Longrightarrow> story R oid
     [(EvOrderCreated \<lparr>oc_ID = OrderID_String R oid, oc_CustomerID = CustomerID_String R cid,
         oc_Status = StatusDraft, oc_OccurredAt = at\<rparr>,
       \<lparr>p_customer = cid, p_status = StatusDraft, p_version = 1, p_items = {}\<rparr>)]"
| added: "story R oid h \<Longrightarrow> snd (last h) = p \<Longrightarrow> p_status p = StatusDraft \<Longrightarrow> item_ok i \<Longrightarrow> i \<notin> p_items p \<Longrightarrow>
     story R oid (h @ [(EvOrderItemAdded (item_added R oid i at), p\<lparr>p_items := insert i (p_items p)\<rparr>)])"
| confirmed: "story R oid h \<Longrightarrow> snd (last h) = p \<Longrightarrow> p_status p = StatusDraft \<Longrightarrow> p_items p \<noteq> {} \<Longrightarrow>
     story R oid (h @ [(EvOrderConfirmed (order_confirmed R oid p at), p\<lparr>p_status := StatusConfirmed\<rparr>)])"

lemma story_lastE:
  assumes "story R oid (h @ [(ev, p)])"
  obtains (created) cid at where "h = []" "\<not> CustomerID_IsZero cid"
      "ev = EvOrderCreated \<lparr>oc_ID = OrderID_String R oid, oc_CustomerID = CustomerID_String R cid,
         oc_Status = StatusDraft, oc_OccurredAt = at\<rparr>"
      "p = \<lparr>p_customer = cid, p_status = StatusDraft, p_version = 1, p_items = {}\<rparr>"
  | (added) q i at where "story R oid h" "snd (last h) = q" "p_status q = StatusDraft" "item_ok i" "i \<notin> p_items q"
      "ev = EvOrderItemAdded (item_added R oid i at)" "p = q\<lparr>p_items := insert i (p_items q)\<rparr>"
  | (confirmed) q at where "story R oid h" "snd (last h) = q" "p_status q = StatusDraft" "p_items q \<noteq> {}"
      "ev = EvOrderConfirmed (order_confirmed R oid q at)" "p = q\<lparr>p_status := StatusConfirmed\<rparr>"
  using assms by (cases rule: story.cases) auto

lemma story_nonempty: "story R oid h \<Longrightarrow> h \<noteq> []"
  by (induction rule: story.induct) auto

lemma story_row: "story R oid h \<Longrightarrow> (ev, p) \<in> set h \<Longrightarrow> row_ok p"
proof (induction arbitrary: ev p rule: story.induct)
  case (created cid at)
  then show ?case by (simp add: row_ok_def)
next
  case (added h q i at)
  then have "(fst (last h), q) \<in> set h" using story_nonempty [OF added.hyps(1)] by (metis last_in_set prod.collapse)
  from added.IH [OF this] added show ?case by (auto simp: row_ok_def)
next
  case (confirmed h q at)
  then have "(fst (last h), q) \<in> set h" using story_nonempty [OF confirmed.hyps(1)] by (metis last_in_set prod.collapse)
  from confirmed.IH [OF this] confirmed show ?case by (auto simp: row_ok_def)
qed

lemma story_last_row: "story R oid h \<Longrightarrow> row_ok (snd (last h))"
  using story_row [of R oid h "fst (last h)" "snd (last h)"] story_nonempty [of R oid h] by simp

lemma story_evolves: "story R oid h \<Longrightarrow> (ev, p) \<in> set h \<Longrightarrow> evolves p (snd (last h))"
proof (induction arbitrary: ev p rule: story.induct)
  case (added h q i at)
  have "evolves q (q\<lparr>p_items := insert i (p_items q)\<rparr>)" using added.hyps(3) by (auto simp: evolves_def)
  with added show ?case by (auto intro: evolves_trans evolves_refl)
next
  case (confirmed h q at)
  have "evolves q (q\<lparr>p_status := StatusConfirmed\<rparr>)" using confirmed.hyps(3) by (auto simp: evolves_def)
  with confirmed show ?case by (auto intro: evolves_trans evolves_refl)
qed (simp add: evolves_refl)

lemma story_take: "story R oid h \<Longrightarrow> 0 < n \<Longrightarrow> story R oid (take n h)"
proof (induction arbitrary: n rule: story.induct)
  case (created cid at)
  then show ?case by (cases n) (auto intro: story.created)
next
  case (added h p i at)
  then show ?case by (cases "n \<le> length h") (auto intro: story.added)
next
  case (confirmed h p at)
  then show ?case by (cases "n \<le> length h") (auto intro: story.confirmed)
qed

lemma story_status: "story R oid h \<Longrightarrow> (ev, p) \<in> set h \<Longrightarrow> event_status_ok ev"
  by (induction arbitrary: ev p rule: story.induct) auto

section \<open>What the read model shows\<close>

definition shown ::
  "OrderID \<Rightarrow> persisted \<Rightarrow> (uuid \<Rightarrow> view_row option) \<Rightarrow> (uuid \<Rightarrow> line_row option) \<Rightarrow> bool" where
  "shown oid p V L \<longleftrightarrow>
     (\<exists>n \<in> {0, of_nat (card (p_items p))}. V (order_uuid oid) = Some
        \<lparr>vr_customer = customer_uuid (p_customer p), vr_status = p_status p,
         vr_total = word_of_int (exact_sum (p_items p)), vr_count = n\<rparr>) \<and>
     lines_of L (order_uuid oid) = item_id ` p_items p \<and>
     (\<forall>i \<in> p_items p. L (item_id i) = Some (line_of_item oid i))"

definition unseen :: "OrderID \<Rightarrow> (uuid \<Rightarrow> view_row option) \<Rightarrow> (uuid \<Rightarrow> line_row option) \<Rightarrow> bool" where
  "unseen oid V L \<longleftrightarrow> V (order_uuid oid) = None \<and> lines_of L (order_uuid oid) = {}"

text \<open>After the events of \<open>h\<close>.\<close>

definition shown_after ::
  "OrderID \<Rightarrow> (DomainEvent \<times> persisted) list \<Rightarrow> (uuid \<Rightarrow> view_row option) \<Rightarrow> (uuid \<Rightarrow> line_row option) \<Rightarrow> bool" where
  "shown_after oid h V L \<longleftrightarrow> (if h = [] then unseen oid V L else shown oid (snd (last h)) V L)"

lemma shows_order_shown:
  assumes "shows_order o1 L0 V L" "lines_of L0 (order_uuid (o_id o1)) = {}" "distinct (o_items o1)"
  shows "shown (o_id o1) (persist o1) V L"
  using assms shows_lines_of [OF assms(1,2)]
  by (auto simp: shown_def shows_order_def persist_def Amount_TotalAmount exact_total_sum distinct_card)

lemma shown_shows_order:
  assumes "shown (o_id o1) (persist o1) V L" "distinct (o_items o1)"
  shows "shows_order o1 (L |` (- item_id ` set (o_items o1))) V L"
  using assms
  by (auto simp: shown_def shows_order_def persist_def Amount_TotalAmount exact_total_sum distinct_card)

lemma shown_unseen_order:
  assumes "shown (o_id o1) (persist o1) V L"
  shows "lines_of (L |` (- item_id ` set (o_items o1))) (order_uuid (o_id o1)) = {}"
proof -
  have "lines_of L (order_uuid (o_id o1)) = item_id ` set (o_items o1)"
    using assms by (simp add: shown_def persist_def)
  then show ?thesis by (auto simp: lines_of_def restrict_map_def split: if_splits)
qed

text \<open>An aggregate with a given state.\<close>

definition order_with :: "OrderID \<Rightarrow> persisted \<Rightarrow> OrderItem list \<Rightarrow> Order" where
  "order_with oid p xs = \<lparr>o_id = oid, o_customerID = p_customer p, o_status = p_status p, o_items = xs,
     o_version = p_version p, o_createdAt = 0, o_updatedAt = 0, o_events = []\<rparr>"

lemma order_with_sel [simp]:
  "o_id (order_with oid p xs) = oid" "o_items (order_with oid p xs) = xs" "o_customerID (order_with oid p xs) = p_customer p"
  "o_status (order_with oid p xs) = p_status p"
  "set xs = p_items p \<Longrightarrow> persist (order_with oid p xs) = p"
  by (simp_all add: order_with_def persist_def)

context runtime_codec begin

lemma order_with_added:
  "set xs = p_items p \<Longrightarrow> persist (added R (order_with oid p xs) i now at) = p\<lparr>p_items := insert i (p_items p)\<rparr>"
  by (simp add: persist_def added_def order_with_def)

lemma order_with_confirmed:
  "set xs = p_items p \<Longrightarrow> persist (confirmed R (order_with oid p xs) now at) = p\<lparr>p_status := StatusConfirmed\<rparr>"
  by (simp add: persist_def confirmed_def order_with_def)

text \<open>The next event of an order takes what is shown to the next state.\<close>

lemma next_shown:
  assumes "story R oid (h @ [(ev, p)])" "shown_after oid h V L" "projected R ev V L V' L'"
    and "exact_sum (p_items p) < 2 ^ 63" "inj_on item_id (p_items p)"
    and fresh: "\<And>q i. h \<noteq> [] \<Longrightarrow> snd (last h) = q \<Longrightarrow> i \<in> p_items p \<Longrightarrow> i \<notin> p_items q \<Longrightarrow> L (item_id i) = None"
  shows "shown oid p V' L'"
  using assms(1)
proof (cases rule: story_lastE)
  case (created cid at)
  with assms(2,3) show ?thesis
    by (auto simp: shown_after_def unseen_def shown_def Let_def upsert_view_def OrderID_String_def CustomerID_String_def
        exact_sum_def)
next
  case (added q i at)
  then have h: "h \<noteq> []" using story_nonempty by blast
  have row: "row_ok q" using story_last_row [OF added(1)] added(2) by simp
  then obtain xs where xs: "set xs = p_items q" "distinct xs"
    using finite_distinct_list [of "p_items q"] by (auto simp: row_ok_def)
  let ?o = "order_with oid q xs" and ?L0 = "L |` (- item_id ` p_items q)"
  let ?o' = "added R ?o i 0 at"
  have s: "shown oid q V L" using assms(2) h added(2) by (simp add: shown_after_def)
  have p: "p_items p = insert i (p_items q)" using added by simp
  have i: "L (item_id i) = None" using fresh [OF h added(2)] added(5) p by simp
  have inj: "distinct (map item_id (xs @ [i]))"
    using assms(5) xs added(5) by (auto simp: p distinct_map inj_on_def)
  have "exact_total (xs @ [i]) = exact_sum (p_items p)"
    using exact_total_sum [of "xs @ [i]"] added(5) xs by (simp add: p)
  then have ex: "exact_order ?o'" using inj assms(4) by (simp add: exact_order_def)
  have so: "shows_order ?o ?L0 V L" using shown_shows_order [of ?o V L] s xs by simp
  have lines: "lines_of ?L0 (order_uuid oid) = {}" using shown_unseen_order [of ?o V L] s xs by simp
  then have un: "unseen_order ?o' (V(order_uuid oid := None)) ?L0"
    using i xs(1) by (auto simp: unseen_order_def restrict_map_def)
  have "list_all item_ok xs" using row xs(1) by (simp add: row_ok_def list_all_iff)
  then have "shows_order ?o' ?L0 V' L'"
    using shows_added [OF so un added(4) _ ex assms(3) [unfolded added(6)]]
    by (simp add: item_added_def line_of_event_def line_of_item_def OrderID_String_def TotalPrice_def)
  from shows_order_shown [OF this] lines inj have "shown oid (persist ?o') V' L'" by (auto simp: distinct_map)
  then show ?thesis using added xs by (simp add: order_with_added)
next
  case (confirmed q at)
  then have h: "h \<noteq> []" using story_nonempty by blast
  have row: "row_ok q" using story_last_row [OF confirmed(1)] confirmed(2) by simp
  then obtain xs where xs: "set xs = p_items q" "distinct xs"
    using finite_distinct_list [of "p_items q"] by (auto simp: row_ok_def)
  let ?o = "order_with oid q xs" and ?L0 = "L |` (- item_id ` p_items q)"
  let ?o' = "confirmed R ?o 0 at"
  have s: "shown oid q V L" using assms(2) h confirmed(2) by (simp add: shown_after_def)
  have p: "p_items p = p_items q" using confirmed by simp
  have inj: "distinct (map item_id xs)" using assms(5) xs by (auto simp: p distinct_map)
  have total: "exact_total xs = exact_sum (p_items q)" using exact_total_sum [OF xs(2)] xs(1) by simp
  then have ex: "exact_order ?o" using inj assms(4) by (simp add: exact_order_def p)
  have so: "shows_order ?o ?L0 V L" using shown_shows_order [of ?o V L] s xs by simp
  have lines: "lines_of ?L0 (order_uuid oid) = {}" using shown_unseen_order [of ?o V L] s xs by simp
  then have un: "unseen_order ?o (V(order_uuid oid := None)) ?L0"
    using xs(1) by (auto simp: unseen_order_def restrict_map_def)
  have "xs \<noteq> []" "list_all item_ok xs" using confirmed(4) row xs(1) by (auto simp: row_ok_def list_all_iff)
  then have "shows_order ?o' ?L0 V' L'"
    using shows_confirmed [OF so un _ _ ex assms(3) [unfolded confirmed(5)]]
    by (simp add: order_confirmed_def OrderID_String_def Amount_TotalAmount total)
  from shows_order_shown [OF this] lines inj have "shown oid (persist ?o') V' L'" by (simp add: distinct_map)
  then show ?thesis using confirmed xs by (simp add: order_with_confirmed)
qed

text \<open>Other orders see nothing of it.\<close>

lemma projected_frame:
  assumes "story R oid (h @ [(ev, p)])" "projected R ev V L V' L'"
  shows "u \<noteq> order_uuid oid \<Longrightarrow> V' u = V u" "k \<notin> item_id ` p_items p \<Longrightarrow> L' k = L k"
proof -
  show "u \<noteq> order_uuid oid \<Longrightarrow> V' u = V u"
    using assms by (cases rule: story_lastE)
      (auto simp: Let_def OrderID_String_def item_added_def order_confirmed_def)
  show "k \<notin> item_id ` p_items p \<Longrightarrow> L' k = L k"
    using assms by (cases rule: story_lastE)
      (auto simp: Let_def OrderID_String_def item_added_def order_confirmed_def)
qed

end

end
