(* ===== verification/In_Step.thy ===== *)
theory In_Step imports Order_Story begin

text \<open>
  The read model in step with the orders: of every order the projection has handled the first
  events of its story and shows the state they lead to.  The three kinds of changes of a run
  keep this: a command, the handling of the next event of an order, and a delivery that only
  changes the state of entries.
\<close>

section \<open>The invariant\<close>

text \<open>The entries of an order, and the order in which events occurred.\<close>

definition keys_of :: "('w, 'z) runtime_scheme \<Rightarrow> (uuid \<Rightarrow> OutboxEvent option) \<Rightarrow> OrderID \<Rightarrow> uuid set" where
  "keys_of R ob oid = {k. \<exists>x. ob k = Some x \<and> oe_AggregateID x = OrderID_String R oid}"

definition earlier :: "(uuid \<Rightarrow> OutboxEvent option) \<Rightarrow> uuid \<Rightarrow> uuid \<Rightarrow> bool" where
  "earlier ob j k \<longleftrightarrow> (\<exists>x y. ob j = Some x \<and> ob k = Some y \<and> oe_OccurredAt x < oe_OccurredAt y)"

text \<open>The entries \<open>ks\<close> of an order carry the events of \<open>h\<close>.\<close>

definition recorded ::
  "('w, 'z) runtime_scheme \<Rightarrow> (uuid \<Rightarrow> OutboxEvent option) \<Rightarrow> OrderID \<Rightarrow> uuid list
     \<Rightarrow> (DomainEvent \<times> persisted) list \<Rightarrow> bool" where
  "recorded R ob oid ks h \<longleftrightarrow>
     list_all2 (\<lambda>k e. \<exists>x. ob k = Some x \<and> carries R x (fst e)) ks h \<and>
     set ks = keys_of R ob oid \<and> sorted_wrt (earlier ob) ks"

definition follows ::
  "('w, 'z) runtime_scheme \<Rightarrow> (uuid \<Rightarrow> OutboxEvent option) \<Rightarrow> (uuid \<times> string) set \<Rightarrow> (uuid \<Rightarrow> view_row option)
     \<Rightarrow> (uuid \<Rightarrow> line_row option) \<Rightarrow> OrderID \<Rightarrow> persisted \<Rightarrow> bool" where
  "follows R ob P V L oid p \<longleftrightarrow>
     (\<exists>h ks n. story R oid h \<and> snd (last h) = p \<and> recorded R ob oid ks h \<and> n \<le> length h \<and>
        (\<forall>i < length ks. (ks ! i, HandlerName) \<in> P \<longleftrightarrow> i < n) \<and> shown_after oid (take n h) V L)"

definition in_step ::
  "('w, 'z) runtime_scheme \<Rightarrow> (OrderID \<Rightarrow> persisted option) \<Rightarrow> (uuid \<Rightarrow> OutboxEvent option)
     \<Rightarrow> (uuid \<times> string) set \<Rightarrow> (uuid \<Rightarrow> view_row option) \<Rightarrow> (uuid \<Rightarrow> line_row option) \<Rightarrow> bool" where
  "in_step R m ob P V L \<longleftrightarrow>
     (\<forall>oid. case m oid of None \<Rightarrow> unseen oid V L \<and> keys_of R ob oid = {} | Some p \<Rightarrow> follows R ob P V L oid p) \<and>
     (\<forall>k x. ob k = Some x \<longrightarrow> oe_OccurredAt x \<noteq> time_zero \<and> (\<exists>oid. oe_AggregateID x = OrderID_String R oid) \<and>
        (oe_Status x = ''published'' \<longrightarrow> (k, HandlerName) \<in> P)) \<and>
     (\<forall>k. (k, HandlerName) \<in> P \<longrightarrow> k \<in> dom ob)"

lemma in_stepD:
  assumes "in_step R m ob P V L"
  shows "m oid = None \<Longrightarrow> unseen oid V L" "m oid = None \<Longrightarrow> keys_of R ob oid = {}"
    "m oid = Some p \<Longrightarrow> follows R ob P V L oid p"
    "ob k = Some x \<Longrightarrow> oe_OccurredAt x \<noteq> time_zero" "ob k = Some x \<Longrightarrow> \<exists>oid. oe_AggregateID x = OrderID_String R oid"
    "ob k = Some x \<Longrightarrow> oe_Status x = ''published'' \<Longrightarrow> (k, HandlerName) \<in> P" "(k, HandlerName) \<in> P \<Longrightarrow> k \<in> dom ob"
  using assms by (auto simp: in_step_def split: option.splits dest: spec [of _ oid])

lemma in_stepI:
  assumes "\<And>oid. m oid = None \<Longrightarrow> unseen oid V L \<and> keys_of R ob oid = {}"
    "\<And>oid p. m oid = Some p \<Longrightarrow> follows R ob P V L oid p"
    "\<And>k x. ob k = Some x \<Longrightarrow> oe_OccurredAt x \<noteq> time_zero \<and> (\<exists>oid. oe_AggregateID x = OrderID_String R oid) \<and>
        (oe_Status x = ''published'' \<longrightarrow> (k, HandlerName) \<in> P)"
    "\<And>k. (k, HandlerName) \<in> P \<Longrightarrow> k \<in> dom ob"
  shows "in_step R m ob P V L"
  unfolding in_step_def
  using assms(1,2) by (intro conjI allI impI assms(3,4)) (simp split: option.splits)

lemma in_step_stored: "in_step R m ob P V L \<Longrightarrow> k \<in> keys_of R ob oid \<Longrightarrow> \<exists>p. m oid = Some p"
  using in_stepD(2) [of R m ob P V L oid] by (cases "m oid") auto

lemma follows_row: "follows R ob P V L oid p \<Longrightarrow> row_ok p"
  using story_last_row by (auto simp: follows_def)

lemma in_step_statuses:
  assumes "in_step R m ob P V L"
  shows "statuses_ok V"
  unfolding statuses_ok_def
proof (intro allI impI)
  fix i r assume i: "V i = Some r"
  show "vr_status r \<noteq> ''''"
  proof (cases "m (OrderID i)")
    case None
    with in_stepD(1) [OF assms this] i show ?thesis by (simp add: unseen_def)
  next
    case (Some p)
    with in_stepD(3) [OF assms, of "OrderID i"] obtain h n where h: "story R (OrderID i) h" "shown_after (OrderID i) (take n h) V L"
      by (auto simp: follows_def)
    with i have "shown (OrderID i) (snd (last (take n h))) V L" "take n h \<noteq> []"
      by (auto simp: shown_after_def unseen_def split: if_splits)
    moreover from this(2) have "story R (OrderID i) (take n h)" using story_take [OF h(1)] by simp
    then have "row_ok (snd (last (take n h)))" by (rule story_last_row)
    ultimately show ?thesis using i by (auto simp: shown_def row_ok_def StatusDraft_def StatusConfirmed_def)
  qed
qed

text \<open>Nothing stored, nothing shown.\<close>

lemma in_step_empty: "in_step R Map.empty Map.empty {} Map.empty Map.empty"
  by (rule in_stepI) (simp_all add: unseen_def lines_of_def keys_of_def)

section \<open>Deliveries\<close>

text \<open>Entries change only in their delivery state, and none is published without having been handled.\<close>

definition redelivered ::
  "(uuid \<times> string) set \<Rightarrow> (uuid \<Rightarrow> OutboxEvent option) \<Rightarrow> (uuid \<Rightarrow> OutboxEvent option) \<Rightarrow> bool" where
  "redelivered P ob ob' \<longleftrightarrow>
     (\<forall>k. case ob k of None \<Rightarrow> ob' k = None
        | Some x \<Rightarrow> \<exists>y. ob' k = Some y \<and> log_key y = log_key x \<and>
            (oe_OccurredAt x \<noteq> time_zero \<longrightarrow> oe_OccurredAt y = oe_OccurredAt x) \<and>
            (oe_Status y = ''published'' \<longrightarrow> oe_Status x = ''published'' \<or> (k, HandlerName) \<in> P))"

lemma redelivered_refl: "redelivered P ob ob"
  by (simp add: redelivered_def split: option.split)

lemma redeliveredE:
  assumes "redelivered P ob ob'" "ob k = Some x"
  obtains y where "ob' k = Some y" "log_key y = log_key x" "oe_OccurredAt x \<noteq> time_zero \<longrightarrow> oe_OccurredAt y = oe_OccurredAt x"
    "oe_Status y = ''published'' \<longrightarrow> oe_Status x = ''published'' \<or> (k, HandlerName) \<in> P"
proof -
  have "case ob k of None \<Rightarrow> ob' k = None
      | Some x \<Rightarrow> \<exists>y. ob' k = Some y \<and> log_key y = log_key x \<and>
          (oe_OccurredAt x \<noteq> time_zero \<longrightarrow> oe_OccurredAt y = oe_OccurredAt x) \<and>
          (oe_Status y = ''published'' \<longrightarrow> oe_Status x = ''published'' \<or> (k, HandlerName) \<in> P)"
    using assms(1) by (simp add: redelivered_def)
  with assms(2) that show thesis by auto
qed

lemma redelivered_None: "redelivered P ob ob' \<Longrightarrow> ob' k = None \<longleftrightarrow> ob k = None"
  by (auto simp: redelivered_def split: option.splits dest: spec [of _ k])

lemma redelivered_back:
  assumes "redelivered P ob ob'" "ob' k = Some y"
  obtains x where "ob k = Some x" "log_key y = log_key x" "oe_OccurredAt x \<noteq> time_zero \<longrightarrow> oe_OccurredAt y = oe_OccurredAt x"
    "oe_Status y = ''published'' \<longrightarrow> oe_Status x = ''published'' \<or> (k, HandlerName) \<in> P"
  using assms redelivered_None [OF assms(1), of k] by (cases "ob k") (auto elim: redeliveredE)

lemma redelivered_keys: "redelivered P ob ob' \<Longrightarrow> keys_of R ob' oid = keys_of R ob oid"
  by (auto simp: keys_of_def log_key_def elim: redelivered_back redeliveredE)

lemma in_step_redelivered:
  assumes "in_step R m ob P V L" "redelivered P ob ob'"
  shows "in_step R m ob' P V L"
proof (rule in_stepI)
  fix oid assume none: "m oid = None"
  show "unseen oid V L \<and> keys_of R ob' oid = {}"
    using in_stepD(1,2) [OF assms(1) none] redelivered_keys [OF assms(2), of R oid] by simp
next
  fix oid p assume "m oid = Some p"
  from in_stepD(3) [OF assms(1) this] obtain h ks n where f: "story R oid h" "snd (last h) = p" "recorded R ob oid ks h"
    "n \<le> length h" "\<forall>i < length ks. (ks ! i, HandlerName) \<in> P \<longleftrightarrow> i < n" "shown_after oid (take n h) V L"
    by (auto simp: follows_def)
  have "\<exists>y. ob' k = Some y \<and> carries R y ev" if "ob k = Some x" "carries R x ev" for k x ev
    using redeliveredE [OF assms(2) that(1)] that(2) by (metis carries_def log_key_def prod.inject)
  then have "list_all2 (\<lambda>k e. \<exists>x. ob' k = Some x \<and> carries R x (fst e)) ks h"
    using f(3) unfolding recorded_def by (fastforce elim: list_all2_mono)
  moreover have "earlier ob' j k" if "earlier ob j k" for j k
  proof -
    from that obtain x y where xy: "ob j = Some x" "ob k = Some y" "oe_OccurredAt x < oe_OccurredAt y"
      by (auto simp: earlier_def)
    from redeliveredE [OF assms(2) xy(1)] in_stepD(4) [OF assms(1) xy(1)] obtain x' where
      "ob' j = Some x'" "oe_OccurredAt x' = oe_OccurredAt x" by metis
    moreover from redeliveredE [OF assms(2) xy(2)] in_stepD(4) [OF assms(1) xy(2)] obtain y' where
      "ob' k = Some y'" "oe_OccurredAt y' = oe_OccurredAt y" by metis
    ultimately show ?thesis using xy(3) by (auto simp: earlier_def)
  qed
  then have "sorted_wrt (earlier ob') ks"
    using f(3) unfolding recorded_def by (blast intro: sorted_wrt_mono_rel)
  ultimately have "recorded R ob' oid ks h"
    using f(3) redelivered_keys [OF assms(2), of R oid] by (simp add: recorded_def)
  with f show "follows R ob' P V L oid p" by (auto simp: follows_def)
next
  fix k y assume "ob' k = Some y"
  from redelivered_back [OF assms(2) this] obtain x where x: "ob k = Some x" "log_key y = log_key x"
    "oe_OccurredAt x \<noteq> time_zero \<longrightarrow> oe_OccurredAt y = oe_OccurredAt x"
    "oe_Status y = ''published'' \<longrightarrow> oe_Status x = ''published'' \<or> (k, HandlerName) \<in> P" by blast
  have "oe_AggregateID y = oe_AggregateID x" using x(2) by (simp add: log_key_def)
  with x in_stepD(4,5,6) [OF assms(1) x(1)]
  show "oe_OccurredAt y \<noteq> time_zero \<and> (\<exists>oid. oe_AggregateID y = OrderID_String R oid) \<and>
      (oe_Status y = ''published'' \<longrightarrow> (k, HandlerName) \<in> P)" by auto
next
  fix k assume "(k, HandlerName) \<in> P"
  with in_stepD(7) [OF assms(1)] redelivered_None [OF assms(2), of k] show "k \<in> dom ob'" by (auto simp: domIff)
qed

section \<open>Commands\<close>

text \<open>A new entry is later than every entry of its order.\<close>

definition in_order :: "(uuid \<Rightarrow> OutboxEvent option) \<Rightarrow> (uuid \<Rightarrow> OutboxEvent option) \<Rightarrow> bool" where
  "in_order ob ob' \<longleftrightarrow>
     (\<forall>k x. ob k = None \<longrightarrow> ob' k = Some x \<longrightarrow> oe_OccurredAt x \<noteq> time_zero \<and>
        (\<forall>j y. ob j = Some y \<longrightarrow> oe_AggregateID y = oe_AggregateID x \<longrightarrow> oe_OccurredAt y < oe_OccurredAt x))"

lemma in_orderD:
  assumes "in_order ob ob'" "ob k = None" "ob' k = Some x"
  shows "oe_OccurredAt x \<noteq> time_zero"
    "ob j = Some y \<Longrightarrow> oe_AggregateID y = oe_AggregateID x \<Longrightarrow> oe_OccurredAt y < oe_OccurredAt x"
  using assms by (auto simp: in_order_def)

lemma recorded_upd:
  assumes "recorded R ob oid ks h" "ob k = None" "oe_AggregateID x \<noteq> OrderID_String R oid"
  shows "recorded R (ob(k \<mapsto> x)) oid ks h"
proof -
  have keys: "keys_of R (ob(k \<mapsto> x)) oid = keys_of R ob oid" using assms(2,3) by (auto simp: keys_of_def)
  have "list_all2 (\<lambda>k' e. \<exists>y. (ob(k \<mapsto> x)) k' = Some y \<and> carries R y (fst e)) ks h"
    by (rule list_all2_mono [OF assms(1) [unfolded recorded_def, THEN conjunct1]]) (use assms(2) in auto)
  moreover have "sorted_wrt (earlier (ob(k \<mapsto> x))) ks"
    using assms(1,2) unfolding recorded_def by (auto simp: earlier_def elim!: sorted_wrt_mono_rel [rotated])
  ultimately show ?thesis using assms(1) keys by (simp add: recorded_def)
qed

lemma recorded_snoc:
  assumes "recorded R ob oid ks h" "ob k = None" "oe_AggregateID x = OrderID_String R oid" "carries R x ev"
    and "\<And>j y. ob j = Some y \<Longrightarrow> oe_AggregateID y = OrderID_String R oid \<Longrightarrow> oe_OccurredAt y < oe_OccurredAt x"
  shows "recorded R (ob(k \<mapsto> x)) oid (ks @ [k]) (h @ [(ev, p)])"
proof -
  have keys: "keys_of R (ob(k \<mapsto> x)) oid = insert k (keys_of R ob oid)" using assms(2,3) by (auto simp: keys_of_def)
  have "list_all2 (\<lambda>k' e. \<exists>y. (ob(k \<mapsto> x)) k' = Some y \<and> carries R y (fst e)) ks h"
    by (rule list_all2_mono [OF assms(1) [unfolded recorded_def, THEN conjunct1]]) (use assms(2) in auto)
  moreover have "sorted_wrt (earlier (ob(k \<mapsto> x))) ks"
    using assms(1,2) unfolding recorded_def by (auto simp: earlier_def elim!: sorted_wrt_mono_rel [rotated])
  moreover have "earlier (ob(k \<mapsto> x)) j k" if "j \<in> set ks" for j
    using that assms(1,2,5) by (auto simp: recorded_def keys_of_def earlier_def)
  ultimately show ?thesis using assms(1,4) keys
    by (auto simp: recorded_def sorted_wrt_append list_all2_appendI)
qed

context runtime_codec begin

lemma in_step_command:
  assumes I: "in_step R m ob P V L" and ann: "announced R ev ob ob'" and agg: "AggregateID ev = OrderID_String R oid"
    and ord: "in_order ob ob'"
    and new: "m oid = None \<Longrightarrow> story R oid [(ev, p')]"
    and old: "\<And>h. m oid = Some (snd (last h)) \<Longrightarrow> story R oid h \<Longrightarrow> story R oid (h @ [(ev, p')])"
  shows "in_step R (m(oid \<mapsto> p')) ob' P V L"
proof -
  from ann obtain x where x: "entry_for R ev x" "ob (oe_ID x) = None" "ob' = ob(oe_ID x \<mapsto> x)"
    by (auto simp: announced_def)
  let ?k = "oe_ID x"
  have xagg: "oe_AggregateID x = OrderID_String R oid" and xpend: "oe_Status x = ''pending''"
    using x(1) agg by (simp_all add: entry_for_def)
  have car: "carries R x ev" using x(1) event_roundtrip_laws by (simp add: entry_for_def carries_def)
  have k: "(?k, HandlerName) \<notin> P" using in_stepD(7) [OF I, of ?k] x(2) by auto
  note later = in_orderD [OF ord x(2), of x] 
  have later: "oe_OccurredAt x \<noteq> time_zero"
    "\<And>j y. ob j = Some y \<Longrightarrow> oe_AggregateID y = OrderID_String R oid \<Longrightarrow> oe_OccurredAt y < oe_OccurredAt x"
    using later x(3) xagg by simp_all
  show ?thesis
  proof (rule in_stepI)
    fix oid' assume "(m(oid \<mapsto> p')) oid' = None"
    then have ne: "oid' \<noteq> oid" "m oid' = None" by (auto split: if_splits)
    then have "keys_of R ob' oid' = keys_of R ob oid'"
      using x xagg by (auto simp: keys_of_def OrderID_String_inj)
    then show "unseen oid' V L \<and> keys_of R ob' oid' = {}" using in_stepD(1,2) [OF I ne(2)] by simp
  next
    fix oid' q assume q: "(m(oid \<mapsto> p')) oid' = Some q"
    show "follows R ob' P V L oid' q"
    proof (cases "oid' = oid")
      case False
      with q in_stepD(3) [OF I, of oid' q] have "follows R ob P V L oid' q" by simp
      then show ?thesis using recorded_upd [of R ob oid' _ _ ?k x] x(2) xagg False
        unfolding follows_def x(3) by (metis OrderID_String_inj)
    next
      case True
      have "\<exists>h ks n. (h = [] \<and> m oid = None \<or> story R oid h \<and> m oid = Some (snd (last h))) \<and> recorded R ob oid ks h \<and>
          n \<le> length h \<and> (\<forall>i < length ks. (ks ! i, HandlerName) \<in> P \<longleftrightarrow> i < n) \<and> shown_after oid (take n h) V L"
      proof (cases "m oid")
        case None
        then show ?thesis using in_stepD(1,2) [OF I None]
          by (intro exI [of _ "[]"] exI [of _ 0]) (simp add: recorded_def shown_after_def)
      next
        case (Some p)
        from in_stepD(3) [OF I Some] Some show ?thesis unfolding follows_def by blast
      qed
      then obtain h ks n where h: "h = [] \<and> m oid = None \<or> story R oid h \<and> m oid = Some (snd (last h))"
        "recorded R ob oid ks h" "n \<le> length h" "\<forall>i < length ks. (ks ! i, HandlerName) \<in> P \<longleftrightarrow> i < n"
        "shown_after oid (take n h) V L" by blast
      have len: "length ks = length h" using h(2) by (auto simp: recorded_def dest: list_all2_lengthD)
      have "story R oid (h @ [(ev, p')])" using h(1) new old by auto
      moreover have "recorded R ob' oid (ks @ [?k]) (h @ [(ev, p')])"
        unfolding x(3) by (rule recorded_snoc [OF h(2) x(2) xagg car later(2)])
      moreover have "\<forall>i < length (ks @ [?k]). ((ks @ [?k]) ! i, HandlerName) \<in> P \<longleftrightarrow> i < n"
        using h(3,4) k len by (auto simp: nth_append less_Suc_eq)
      ultimately show ?thesis using h(3,5) q True
        unfolding follows_def by (intro exI [of _ "h @ [(ev, p')]"] exI [of _ "ks @ [?k]"] exI [of _ n]) auto
    qed
  next
    fix j y assume "ob' j = Some y"
    then show "oe_OccurredAt y \<noteq> time_zero \<and> (\<exists>oid. oe_AggregateID y = OrderID_String R oid) \<and>
        (oe_Status y = ''published'' \<longrightarrow> (j, HandlerName) \<in> P)"
      using in_stepD(4,5,6) [OF I, of j y] x(3) xagg xpend later(1) by (auto split: if_splits)
  next
    fix j assume "(j, HandlerName) \<in> P"
    then show "j \<in> dom ob'" using in_stepD(7) [OF I, of j] x(3) by auto
  qed
qed

text \<open>The three commands extend the story of their order.\<close>

lemma story_event_sel [simp]:
  "oia_OrderID (item_added R oid i at) = OrderID_String R oid"
  "ocf_OrderID (order_confirmed R oid p at) = OrderID_String R oid"
  by (simp_all add: item_added_def order_confirmed_def)

lemma in_step_create:
  assumes "create_effect R cmd oid m m' ev" "announced R ev ob ob'" "in_order ob ob'" "in_step R m ob P V L"
  shows "in_step R m' ob' P V L"
proof -
  from assms(1) obtain cid at where c: "\<not> CustomerID_IsZero cid" "m oid = None"
    "m' = m(oid \<mapsto> \<lparr>p_customer = cid, p_status = StatusDraft, p_version = 1, p_items = {}\<rparr>)"
    "ev = EvOrderCreated \<lparr>oc_ID = OrderID_String R oid, oc_CustomerID = CustomerID_String R cid,
       oc_Status = StatusDraft, oc_OccurredAt = at\<rparr>"
    by (auto simp: create_effect_def)
  then show ?thesis unfolding c(3)
    by (intro in_step_command [OF assms(4,2) _ assms(3)]) (auto intro: story.created)
qed

lemma in_step_add:
  assumes "add_effect R cmd m m' ev" "announced R ev ob ob'" "in_order ob ob'" "in_step R m ob P V L"
  shows "in_step R m' ob' P V L"
proof -
  from assms(1) obtain oid p item at where c: "m oid = Some p" "p_status p = StatusDraft" "item_ok item"
    "item \<notin> p_items p" "m' = m(oid \<mapsto> p\<lparr>p_items := insert item (p_items p)\<rparr>)"
    "ev = EvOrderItemAdded (item_added R oid item at)"
    by (auto simp: add_effect_def item_added_def)
  then show ?thesis unfolding c(5)
    by (intro in_step_command [OF assms(4,2) _ assms(3)]) (auto intro: story.added)
qed

lemma in_step_confirm:
  assumes "confirm_effect R cmd m m' ev" "announced R ev ob ob'" "in_order ob ob'" "in_step R m ob P V L"
  shows "in_step R m' ob' P V L"
proof -
  from assms(1) obtain oid p at where c: "m oid = Some p" "p_status p = StatusDraft" "p_items p \<noteq> {}"
    "m' = m(oid \<mapsto> p\<lparr>p_status := StatusConfirmed\<rparr>)" "ev = EvOrderConfirmed (order_confirmed R oid p at)"
    by (auto simp: confirm_effect_def order_confirmed_def)
  then show ?thesis unfolding c(4)
    by (intro in_step_command [OF assms(4,2) _ assms(3)]) (auto intro: story.confirmed)
qed

end

end
