(* ===== verification/Next_Event.thy ===== *)
theory Next_Event imports In_Step begin

text \<open>
  The projection of the next event of an order keeps the read model in step: the event takes
  what is shown of its order to the next state, and no other order sees anything of it.  The last
  event, projected once more, leaves what is shown.
\<close>

section \<open>What the orders must satisfy\<close>

text \<open>The primary key of the items, and totals within 64 bits.\<close>

definition items_unique :: "(OrderID \<Rightarrow> persisted option) \<Rightarrow> bool" where
  "items_unique m \<longleftrightarrow> (\<forall>oid oid' p p' i j. m oid = Some p \<longrightarrow> m oid' = Some p' \<longrightarrow> i \<in> p_items p \<longrightarrow>
     j \<in> p_items p' \<longrightarrow> item_id i = item_id j \<longrightarrow> oid = oid' \<and> i = j)"

definition exact_totals :: "(OrderID \<Rightarrow> persisted option) \<Rightarrow> bool" where
  "exact_totals m \<longleftrightarrow> (\<forall>oid p. m oid = Some p \<longrightarrow> exact_sum (p_items p) < 2 ^ 63)"

lemma items_uniqueD:
  "items_unique m \<Longrightarrow> m oid = Some p \<Longrightarrow> m oid' = Some p' \<Longrightarrow> i \<in> p_items p \<Longrightarrow> j \<in> p_items p' \<Longrightarrow>
     item_id i = item_id j \<Longrightarrow> oid = oid' \<and> i = j"
  unfolding items_unique_def by blast

lemma exact_sum_mono: "row_ok p \<Longrightarrow> A \<subseteq> p_items p \<Longrightarrow> exact_sum A \<le> exact_sum (p_items p)"
  unfolding exact_sum_def
proof (rule sum_mono2)
  fix i assume "row_ok p" "i \<in> p_items p - A"
  then show "0 \<le> exact_price i" using exact_price_pos [of i] by (simp add: row_ok_def)
qed (simp_all add: row_ok_def)

lemma story_state:
  assumes "story R oid h" "n < length h"
  shows "p_items (snd (h ! n)) \<subseteq> p_items (snd (last h))" "row_ok (snd (h ! n))"
proof -
  have "(fst (h ! n), snd (h ! n)) \<in> set h" using nth_mem [OF assms(2)] by simp
  from story_evolves [OF assms(1) this] story_row [OF assms(1) this]
  show "p_items (snd (h ! n)) \<subseteq> p_items (snd (last h))" "row_ok (snd (h ! n))"
    by (simp_all add: evolves_def)
qed

text \<open>A line of the read model is an item of a stored order.\<close>

lemma line_is_item:
  assumes "in_step R m ob P V L" "L k = Some r"
  shows "\<exists>p i. m (OrderID (lr_order r)) = Some p \<and> i \<in> p_items p \<and> item_id i = k"
proof -
  let ?oid = "OrderID (lr_order r)"
  have k: "k \<in> lines_of L (order_uuid ?oid)" using assms(2) by (simp add: lines_of_def)
  show ?thesis
  proof (cases "m ?oid")
    case None
    with in_stepD(1) [OF assms(1) None] k show ?thesis by (simp add: unseen_def)
  next
    case (Some p)
    from in_stepD(3) [OF assms(1) Some] obtain h n where h: "story R ?oid h" "snd (last h) = p" "n \<le> length h"
      "shown_after ?oid (take n h) V L" by (auto simp: follows_def)
    with k have n: "0 < n" and s: "shown ?oid (snd (last (take n h))) V L"
      by (auto simp: shown_after_def unseen_def split: if_splits)
    have "last (take n h) = h ! (n - 1)"
      using n h(3) story_nonempty [OF h(1)] by (subst last_conv_nth) (auto simp: min_def)
    moreover have "n - 1 < length h" using n h(3) by simp
    ultimately have "p_items (snd (last (take n h))) \<subseteq> p_items p" using story_state(1) [OF h(1)] h(2) by simp
    with s k Some show ?thesis by (auto simp: shown_def)
  qed
qed

lemma line_owner:
  assumes "in_step R m ob P V L" "items_unique m" "m oid = Some p" "i \<in> p_items p" "L (item_id i) = Some r"
  shows "lr_order r = order_uuid oid"
proof -
  from line_is_item [OF assms(1,5)] obtain p' j where "m (OrderID (lr_order r)) = Some p'" "j \<in> p_items p'" "item_id j = item_id i"
    by blast
  with items_uniqueD [OF assms(2,3)] assms(4) have "oid = OrderID (lr_order r)" by metis
  then show ?thesis by (metis OrderID.sel)
qed

section \<open>The next event\<close>

text \<open>The first entry of an order that was not handled.\<close>

lemma next_event:
  assumes I: "in_step R m ob P V L" and k: "ob k = Some x" "(k, HandlerName) \<notin> P"
    and first: "\<And>j y. ob j = Some y \<Longrightarrow> oe_AggregateID y = oe_AggregateID x \<Longrightarrow>
      oe_OccurredAt y < oe_OccurredAt x \<Longrightarrow> (j, HandlerName) \<in> P"
  obtains oid h ks n where "m oid = Some (snd (last h))" "story R oid h" "recorded R ob oid ks h" "n < length h"
    "ks ! n = k" "length ks = length h" "\<forall>i < length ks. (ks ! i, HandlerName) \<in> P \<longleftrightarrow> i < n"
    "shown_after oid (take n h) V L" "carries R x (fst (h ! n))"
proof -
  from in_stepD(5) [OF I k(1)] obtain oid where agg: "oe_AggregateID x = OrderID_String R oid" ..
  have kk: "k \<in> keys_of R ob oid" using k(1) agg by (simp add: keys_of_def)
  from in_step_stored [OF I this] obtain p where p: "m oid = Some p" ..
  from in_stepD(3) [OF I p] obtain h ks n where f: "story R oid h" "snd (last h) = p" "recorded R ob oid ks h"
    "n \<le> length h" "\<forall>i < length ks. (ks ! i, HandlerName) \<in> P \<longleftrightarrow> i < n" "shown_after oid (take n h) V L"
    unfolding follows_def by blast
  have len: "length ks = length h" using f(3) by (auto simp: recorded_def dest: list_all2_lengthD)
  have "k \<in> set ks" using f(3) kk by (simp add: recorded_def)
  then obtain i where i: "i < length ks" "ks ! i = k" by (auto simp: in_set_conv_nth)
  have ni: "\<not> i < n" using f(5) i k(2) by blast
  have "\<not> n < i"
  proof
    assume "n < i"
    with f(3) i have "earlier ob (ks ! n) k" by (auto simp: recorded_def sorted_wrt_iff_nth_less)
    then obtain y where y: "ob (ks ! n) = Some y" "oe_OccurredAt y < oe_OccurredAt x" using k(1) by (auto simp: earlier_def)
    have "ks ! n \<in> set ks" using \<open>n < i\<close> i(1) by simp
    then have "ks ! n \<in> keys_of R ob oid" using f(3) by (simp add: recorded_def)
    then have "oe_AggregateID y = oe_AggregateID x" using y(1) agg by (auto simp: keys_of_def)
    from first [OF y(1) this y(2)] f(5) \<open>n < i\<close> i(1) show False by simp
  qed
  with ni have [simp]: "i = n" by simp
  have "\<exists>x. ob (ks ! n) = Some x \<and> carries R x (fst (h ! n))"
    using f(3) i(1) by (auto simp: recorded_def dest: list_all2_nthD)
  then have "carries R x (fst (h ! n))" using i(2) k(1) by simp
  moreover have "m oid = Some (snd (last h))" using p f(2) by simp
  moreover have "n < length h" "ks ! n = k" using i len by simp_all
  ultimately show thesis using that [of oid h ks n] f(1,3,5,6) len by blast
qed

lemma sorted_earlier_distinct: "sorted_wrt (earlier ob) ks \<Longrightarrow> distinct ks"
  by (induction ks) (auto simp: earlier_def)

text \<open>What is shown of another order does not change.\<close>

lemma shown_other:
  assumes "shown_after oid' g V L" "oid' \<noteq> oid" "V' (order_uuid oid') = V (order_uuid oid')"
    and frame: "\<And>k. k \<notin> item_id ` A \<Longrightarrow> L' k = L k"
    and mine: "\<And>i. i \<in> A \<Longrightarrow> \<exists>r. L' (item_id i) = Some r \<and> lr_order r = order_uuid oid"
    and before: "\<And>k r. k \<in> item_id ` A \<Longrightarrow> L k = Some r \<Longrightarrow> lr_order r = order_uuid oid"
  shows "shown_after oid' g V' L'"
proof -
  have ne: "order_uuid oid' \<noteq> order_uuid oid" using assms(2) by (cases oid; cases oid') simp
  have lines: "L' k = Some r \<and> lr_order r = order_uuid oid' \<longleftrightarrow> L k = Some r \<and> lr_order r = order_uuid oid'" for k r
  proof (cases "k \<in> item_id ` A")
    case True
    then obtain i where i: "i \<in> A" "k = item_id i" by blast
    from mine [OF i(1)] obtain r' where "L' k = Some r'" "lr_order r' = order_uuid oid" using i(2) by blast
    then show ?thesis using before [OF True, of r] ne by auto
  next
    case False
    then show ?thesis by (simp add: frame)
  qed
  then have "lines_of L' (order_uuid oid') = lines_of L (order_uuid oid')" by (auto simp: lines_of_def)
  moreover have "L' (item_id i) = Some (line_of_item oid' i)" if "L (item_id i) = Some (line_of_item oid' i)" for i
    using lines [of "item_id i" "line_of_item oid' i"] that by (simp add: line_of_item_def)
  ultimately show ?thesis using assms(1,3) by (auto simp: shown_after_def unseen_def shown_def)
qed

context runtime_codec begin

text \<open>An event of an order that leaves its state shown leaves the others as they were.\<close>

lemma projected_others:
  assumes I: "in_step R m ob P V L" and uniq: "items_unique m" and p: "m oid = Some (snd (last h))"
    and h: "story R oid h" "n < length h" "h ! n = (ev, q)"
    and proj: "projected R ev V L V' L'" and new: "shown oid q V' L'"
    and other: "oid' \<noteq> oid" "shown_after oid' g V L"
  shows "shown_after oid' g V' L'"
proof (rule shown_other [where A = "p_items q"])
  have take: "take (Suc n) h = take n h @ [(ev, q)]" using h(2,3) by (simp add: take_Suc_conv_app_nth)
  have st: "story R oid (take n h @ [(ev, q)])" using story_take [OF h(1), of "Suc n"] take by simp
  note frame = projected_frame [OF st proj]
  have u: "order_uuid oid' \<noteq> order_uuid oid" using other(1) by (cases oid; cases oid') simp
  show "shown_after oid' g V L" "oid' \<noteq> oid" by (rule other)+
  show "V' (order_uuid oid') = V (order_uuid oid')" by (rule frame(1) [OF u])
  show "L' k = L k" if "k \<notin> item_id ` p_items q" for k by (rule frame(2) [OF that])
  show "\<exists>r. L' (item_id i) = Some r \<and> lr_order r = order_uuid oid" if "i \<in> p_items q" for i
    using new that by (simp add: shown_def line_of_item_def)
  fix k r assume "k \<in> item_id ` p_items q" and r: "L k = Some r"
  then obtain i where i: "i \<in> p_items q" "k = item_id i" by blast
  have "i \<in> p_items (snd (last h))" using story_state(1) [OF h(1,2)] h(3) i(1) by auto
  then show "lr_order r = order_uuid oid" using line_owner [OF I uniq p] r i(2) by blast
qed

lemma in_step_project:
  assumes I: "in_step R m ob P V L" and k: "ob k = Some x" "(k, HandlerName) \<notin> P"
    and first: "\<And>j y. ob j = Some y \<Longrightarrow> oe_AggregateID y = oe_AggregateID x \<Longrightarrow>
      oe_OccurredAt y < oe_OccurredAt x \<Longrightarrow> (j, HandlerName) \<in> P"
    and uniq: "items_unique m" and exact: "exact_totals m"
    and pr: "\<And>ev. carries R x ev \<Longrightarrow> event_status_ok ev \<Longrightarrow> projected R ev V L V' L'"
  shows "in_step R m ob (insert (k, HandlerName) P) V' L'"
proof -
  obtain oid h ks n where
    p: "m oid = Some (snd (last h))" and h: "story R oid h" and rec: "recorded R ob oid ks h" and n: "n < length h"
    and ks: "ks ! n = k" "length ks = length h" "\<forall>i < length ks. (ks ! i, HandlerName) \<in> P \<longleftrightarrow> i < n"
    and sh: "shown_after oid (take n h) V L" and car: "carries R x (fst (h ! n))"
    by (rule next_event [OF I k first])
  obtain ev q where hn: "h ! n = (ev, q)" by fastforce
  have take: "take (Suc n) h = take n h @ [(ev, q)]" using n hn by (simp add: take_Suc_conv_app_nth)
  have st: "story R oid (take n h @ [(ev, q)])" using story_take [OF h, of "Suc n"] take by simp
  have "event_status_ok ev" using story_status [OF h] nth_mem [OF n] hn by metis
  with pr car hn have proj: "projected R ev V L V' L'" by simp
  have qp: "p_items q \<subseteq> p_items (snd (last h))" using story_state(1) [OF h n] hn by simp
  have inj: "inj_on item_id (p_items q)"
    using items_uniqueD [OF uniq p p] qp by (intro inj_onI) blast
  have "exact_sum (p_items q) \<le> exact_sum (p_items (snd (last h)))"
    by (rule exact_sum_mono [OF story_last_row [OF h] qp])
  then have sum: "exact_sum (p_items q) < 2 ^ 63" using exact p by (fastforce simp: exact_totals_def)
  have old: "lr_order r = order_uuid oid" if "i \<in> p_items q" "L (item_id i) = Some r" for i r
    using line_owner [OF I uniq p _ that(2)] that(1) qp by blast
  have fresh: "L (item_id i) = None" if "take n h \<noteq> []" "snd (last (take n h)) = s" "i \<in> p_items q" "i \<notin> p_items s" for s i
  proof (rule ccontr)
    assume "L (item_id i) \<noteq> None"
    then obtain r where r: "L (item_id i) = Some r" by blast
    with old [OF that(3)] have "item_id i \<in> lines_of L (order_uuid oid)" by (simp add: lines_of_def)
    with sh that(1,2) obtain j where j: "j \<in> p_items s" "item_id j = item_id i" by (auto simp: shown_after_def shown_def)
    have "p_items s \<subseteq> p_items q"
      using story_evolves [OF st, of "fst (last (take n h))" s] that(1,2) last_in_set [OF that(1)]
      by (auto simp: evolves_def)
    with j inj that(3,4) show False by (metis inj_onD subsetD)
  qed
  have new: "shown oid q V' L'" by (rule next_shown [OF st sh proj sum inj fresh])
  note others = projected_others [OF I uniq p h n hn proj new]
  show ?thesis
  proof (rule in_stepI)
    fix oid' assume none: "m oid' = None"
    then have ne: "oid' \<noteq> oid" using p by auto
    have "shown_after oid' [] V' L'"
      by (rule others [OF ne]) (use in_stepD(1) [OF I none] in \<open>simp add: shown_after_def\<close>)
    with in_stepD(2) [OF I none] show "unseen oid' V' L' \<and> keys_of R ob oid' = {}" by (simp add: shown_after_def)
  next
    fix oid' p' assume p': "m oid' = Some p'"
    show "follows R ob (insert (k, HandlerName) P) V' L' oid' p'"
    proof (cases "oid' = oid")
      case True
      have "k \<noteq> ks ! i" if "i < length ks" "i \<noteq> n" for i
        using nth_eq_iff_index_eq [OF sorted_earlier_distinct, of ob ks n i] rec ks(1,2) n that
        by (auto simp: recorded_def)
      then have "\<forall>i < length ks. (ks ! i, HandlerName) \<in> insert (k, HandlerName) P \<longleftrightarrow> i < Suc n"
        using ks by (fastforce simp: less_Suc_eq)
      moreover have "shown_after oid (take (Suc n) h) V' L'" using new take by (simp add: shown_after_def)
      ultimately show ?thesis using True p p' h rec n unfolding follows_def by (metis Suc_leI option.inject)
    next
      case False
      from in_stepD(3) [OF I p'] obtain g js i where f: "story R oid' g" "snd (last g) = p'" "recorded R ob oid' js g"
        "i \<le> length g" "\<forall>j < length js. (js ! j, HandlerName) \<in> P \<longleftrightarrow> j < i" "shown_after oid' (take i g) V L"
        unfolding follows_def by blast
      have "k \<in> keys_of R ob oid" using rec ks n by (metis nth_mem recorded_def)
      then have "k \<notin> set js" using f(3) False by (auto simp: recorded_def keys_of_def OrderID_String_inj)
      then have "\<forall>j < length js. (js ! j, HandlerName) \<in> insert (k, HandlerName) P \<longleftrightarrow> j < i"
        using f(5) by (auto simp: in_set_conv_nth)
      moreover have "shown_after oid' (take i g) V' L'" by (rule others [OF False f(6)])
      ultimately show ?thesis using f unfolding follows_def by blast
    qed
  next
    fix j y assume "ob j = Some y"
    with in_stepD(4,5,6) [OF I this] show "oe_OccurredAt y \<noteq> time_zero \<and> (\<exists>oid. oe_AggregateID y = OrderID_String R oid) \<and>
        (oe_Status y = ''published'' \<longrightarrow> (j, HandlerName) \<in> insert (k, HandlerName) P)" by blast
  next
    fix j assume "(j, HandlerName) \<in> insert (k, HandlerName) P"
    with in_stepD(7) [OF I, of j] k(1) show "j \<in> dom ob" by auto
  qed
qed

end

section \<open>The last event once more\<close>

text \<open>
  The last entry of an order that was handled, handled again: an upsert of what is there and a total that
  is computed again change nothing of the order's state.
\<close>

lemma last_event:
  assumes I: "in_step R m ob P V L" and k: "ob k = Some x" "(k, HandlerName) \<in> P"
    and no_later: "\<And>j y. ob j = Some y \<Longrightarrow> oe_AggregateID y = oe_AggregateID x \<Longrightarrow>
      oe_OccurredAt x < oe_OccurredAt y \<Longrightarrow> (j, HandlerName) \<notin> P"
  obtains oid h n where "m oid = Some (snd (last h))" "story R oid h" "n < length h"
    "shown oid (snd (h ! n)) V L" "carries R x (fst (h ! n))"
    "\<And>V' L'. shown oid (snd (h ! n)) V' L' \<Longrightarrow> follows R ob P V' L' oid (snd (last h))"
proof -
  from in_stepD(5) [OF I k(1)] obtain oid where agg: "oe_AggregateID x = OrderID_String R oid" ..
  have kk: "k \<in> keys_of R ob oid" using k(1) agg by (simp add: keys_of_def)
  from in_step_stored [OF I this] obtain p where p: "m oid = Some p" ..
  from in_stepD(3) [OF I p] obtain h ks n where f: "story R oid h" "snd (last h) = p" "recorded R ob oid ks h"
    "n \<le> length h" "\<forall>i < length ks. (ks ! i, HandlerName) \<in> P \<longleftrightarrow> i < n" "shown_after oid (take n h) V L"
    unfolding follows_def by blast
  have len: "length ks = length h" using f(3) by (auto simp: recorded_def dest: list_all2_lengthD)
  have "k \<in> set ks" using f(3) kk by (simp add: recorded_def)
  then obtain i where i: "i < length ks" "ks ! i = k" by (auto simp: in_set_conv_nth)
  have "i < n" using f(5) i k(2) by blast
  have "\<not> Suc i < n"
  proof
    assume "Suc i < n"
    then have j: "Suc i < length ks" using f(4) len by simp
    with f(3) i have "earlier ob k (ks ! Suc i)" by (auto simp: recorded_def sorted_wrt_iff_nth_less)
    then obtain y where y: "ob (ks ! Suc i) = Some y" "oe_OccurredAt x < oe_OccurredAt y" using k(1) by (auto simp: earlier_def)
    have "ks ! Suc i \<in> keys_of R ob oid" using f(3) nth_mem [OF j] by (simp add: recorded_def)
    then have "oe_AggregateID y = oe_AggregateID x" using y(1) agg by (auto simp: keys_of_def)
    from no_later [OF y(1) this y(2)] f(5) j \<open>Suc i < n\<close> show False by simp
  qed
  with \<open>i < n\<close> have n: "n = Suc i" by simp
  have "take n h \<noteq> []" "last (take n h) = h ! i"
    using i(1) len n by (auto simp: take_Suc_conv_app_nth)
  then have after: "shown_after oid (take n h) V' L' \<longleftrightarrow> shown oid (snd (h ! i)) V' L'" for V' L'
    by (simp add: shown_after_def)
  have "\<exists>x. ob (ks ! i) = Some x \<and> carries R x (fst (h ! i))"
    using f(3) i(1) by (auto simp: recorded_def dest: list_all2_nthD)
  then have "carries R x (fst (h ! i))" using i(2) k(1) by simp
  moreover have "follows R ob P V' L' oid (snd (last h))" if "shown oid (snd (h ! i)) V' L'" for V' L'
    unfolding follows_def using f after that by blast
  ultimately show thesis using that [of oid h i] p f(1,2,6) after i(1) len by simp
qed

lemma lines_total_items:
  assumes "lines_of L u = item_id ` A" "\<And>i. i \<in> A \<Longrightarrow> L (item_id i) = Some (line_of_item oid i)" "inj_on item_id A"
  shows "lines_total L u = word_of_int (exact_sum A)"
proof -
  have "lines_total L u = (\<Sum>i\<in>A. Amount (TotalPrice i))"
    using assms unfolding lines_total_def assms(1) by (subst sum.reindex) (auto simp: line_of_item_def intro!: sum.cong)
  also have "\<dots> = (\<Sum>i\<in>A. word_of_int (exact_price i))" by (simp add: Amount_TotalPrice_int)
  also have "\<dots> = word_of_int (exact_sum A)" by (simp add: exact_sum_def)
  finally show ?thesis .
qed

context runtime_codec begin

lemma shown_again:
  assumes "story R oid (h @ [(ev, p)])" "shown oid p V L" "projected R ev V L V' L'" "inj_on item_id (p_items p)"
  shows "shown oid p V' L'"
proof -
  let ?u = "order_uuid oid"
  from assms(2) obtain n where n: "n \<in> {0, of_nat (card (p_items p))}" and
    V: "V ?u = Some \<lparr>vr_customer = customer_uuid (p_customer p), vr_status = p_status p,
      vr_total = word_of_int (exact_sum (p_items p)), vr_count = n\<rparr>" and
    L: "lines_of L ?u = item_id ` p_items p" "\<And>i. i \<in> p_items p \<Longrightarrow> L (item_id i) = Some (line_of_item oid i)"
    by (auto simp: shown_def)
  have counted: "counted L ?u = {0, of_nat (card (p_items p))}" by (simp add: counted_def L(1) card_image assms(4))
  note total = lines_total_items [OF L assms(4)]
  from assms(1) show ?thesis
  proof (cases rule: story_lastE)
    case (created cid at)
    with assms(2,3) V show ?thesis
      by (auto simp: shown_def Let_def upsert_view_def nonzero_def OrderID_String_def CustomerID_String_def exact_sum_def)
  next
    case (added q i at)
    have "i \<in> p_items p" using added(7) by simp
    then have "upsert_line (line_of_event R (item_added R oid i at)) (L (item_id i)) = line_of_item oid i"
      using L(2) by (simp add: upsert_line_def item_added_def line_of_event_def line_of_item_def OrderID_String_def
          TotalPrice_def nonzero_def)
    moreover have "parse_ignoring R (oia_ItemID (item_added R oid i at)) = item_id i" by (simp add: item_added_def)
    moreover have "parse_ignoring R (oia_OrderID (item_added R oid i at)) = ?u" by (simp add: item_added_def OrderID_String_def)
    ultimately have L': "L' = L" and "\<exists>r n. V ?u = Some r \<and> n \<in> counted L ?u \<and> V' = V(?u \<mapsto> restate '''' (lines_total L ?u) n r)"
      using assms(3) L(2) [OF \<open>i \<in> p_items p\<close>] by (auto simp: added(6) Let_def fun_upd_idem)
    with V show ?thesis using L by (auto simp: counted total restate_def shown_def split: if_splits)
  next
    case (confirmed q at)
    have "parse_ignoring R (ocf_OrderID (order_confirmed R oid q at)) = ?u" by (simp add: order_confirmed_def OrderID_String_def)
    with assms(3) have "L' = L" and "\<exists>n \<in> counted L ?u. V' = V(?u := map_option (restate ''CONFIRMED'' (word_of_int (exact_sum (p_items p))) n) (V ?u))"
      by (auto simp: confirmed(5,6) Let_def order_confirmed_def)
    with V show ?thesis using L by (auto simp: counted restate_def shown_def confirmed(6) StatusConfirmed_def split: if_splits)
  qed
qed

lemma in_step_again:
  assumes I: "in_step R m ob P V L" and k: "ob k = Some x" "(k, HandlerName) \<in> P"
    and no_later: "\<And>j y. ob j = Some y \<Longrightarrow> oe_AggregateID y = oe_AggregateID x \<Longrightarrow>
      oe_OccurredAt x < oe_OccurredAt y \<Longrightarrow> (j, HandlerName) \<notin> P"
    and uniq: "items_unique m"
    and pr: "\<And>ev. carries R x ev \<Longrightarrow> event_status_ok ev \<Longrightarrow> projected R ev V L V' L'"
  shows "in_step R m ob P V' L'"
proof -
  obtain oid h n where p: "m oid = Some (snd (last h))" and h: "story R oid h" "n < length h"
    and sh: "shown oid (snd (h ! n)) V L" and car: "carries R x (fst (h ! n))"
    and follows: "\<And>V' L'. shown oid (snd (h ! n)) V' L' \<Longrightarrow> follows R ob P V' L' oid (snd (last h))"
    by (rule last_event [OF I k no_later]) blast+
  obtain ev q where hn: "h ! n = (ev, q)" by fastforce
  have st: "story R oid (take n h @ [(ev, q)])"
    using story_take [OF h(1), of "Suc n"] h(2) hn by (simp add: take_Suc_conv_app_nth)
  have "event_status_ok ev" using story_status [OF h(1)] nth_mem [OF h(2)] hn by metis
  with pr car hn have proj: "projected R ev V L V' L'" by simp
  have "inj_on item_id (p_items q)"
    using items_uniqueD [OF uniq p p] story_state(1) [OF h] hn by (intro inj_onI) auto
  from shown_again [OF st _ proj this] sh hn have new: "shown oid q V' L'" by simp
  note others = projected_others [OF I uniq p h hn proj new]
  show ?thesis
  proof (rule in_stepI)
    fix oid' assume none: "m oid' = None"
    then have ne: "oid' \<noteq> oid" using p by auto
    have "shown_after oid' [] V' L'"
      by (rule others [OF ne]) (use in_stepD(1) [OF I none] in \<open>simp add: shown_after_def\<close>)
    with in_stepD(2) [OF I none] show "unseen oid' V' L' \<and> keys_of R ob oid' = {}" by (simp add: shown_after_def)
  next
    fix oid' p' assume p': "m oid' = Some p'"
    show "follows R ob P V' L' oid' p'"
    proof (cases "oid' = oid")
      case True
      with p p' follows new hn show ?thesis by simp
    next
      case False
      with in_stepD(3) [OF I p'] others show ?thesis unfolding follows_def by blast
    qed
  qed (use in_stepD(4-7) [OF I] in blast)+
qed

end

end
