(* ===== verification/Calm_Run.thy ===== *)
theory Calm_Run imports Next_Event Relay_Properties begin

text \<open>
  The running service without failing deliveries: commands, batches that fail no entry and
  overtake none, and requeueing keep the read model in step with the orders.
\<close>

section \<open>Commands leave the read side alone\<close>

definition read_part :: "tables \<Rightarrow> (uuid \<times> string \<Rightarrow> ProcessedEventModel option) \<times> (uuid \<Rightarrow> OrderViewModel option) \<times>
    (uuid \<Rightarrow> OrderItemViewModel option)" where
  "read_part t = (t_processed t, t_order_views t, t_item_views t)"

lemma read_part_frames:
  "repo_frame t = repo_frame t' \<Longrightarrow> read_part t = read_part t'"
  "outbox_frame t = outbox_frame t' \<Longrightarrow> read_part t = read_part t'"
  by (cases t; cases t'; simp add: repo_frame_def outbox_frame_def read_part_def)+

lemma read_part_stored:
  assumes "read_part t = read_part t'"
  shows "stored_processed_events t = stored_processed_events t'" "stored_views t = stored_views t'"
    "stored_lines t = stored_lines t'"
  using assms by (auto simp: read_part_def stored_processed_events_def stored_views_def stored_lines_def)

context unit_of_work begin

text \<open>What the repository, the outbox and the transaction keep is kept by the commands.\<close>

lemma save_and_append_keeps:
  assumes K: "\<And>w w'. rframe w = rframe w' \<Longrightarrow> K w = K w'" "\<And>w w'. oframe w = oframe w' \<Longrightarrow> K w = K w'"
    and "run_state (save_and_append tx o1) w = (Inr o2, w')" "storable o1"
  shows "K w' = K w"
proof -
  let ?o = "o1\<lparr>o_events := []\<rparr>"
  from assms(3) obtain w1 u where
    S: "run_state (repo_Save (tx_OrderRepo tx) ?o) w = (Inr o2, w1)" and
    A: "run_state (ob_Append (tx_OutboxStore tx) (o_events o1)) w1 = (Inr u, w')"
    by (auto simp: save_and_append_def Events_def split: prod.splits sum.splits)
  have "storable ?o" using assms(4) by (simp add: storable_def)
  from repo.save_ok [OF S this] have "K w1 = K w" by (intro K(1)) simp
  moreover from ob.append_ok [OF A] have "K w' = K w1" by (intro K(2)) simp
  ultimately show ?thesis by simp
qed

lemma create_keeps:
  assumes K: "\<And>w w'. rframe w = rframe w' \<Longrightarrow> K w = K w'" "\<And>w w'. oframe w = oframe w' \<Longrightarrow> K w = K w'"
      "\<And>w w'. same w w' \<Longrightarrow> K w' = K w"
    and "run_state (CreateOrderHandler_Handle R U cmd) w = (Inr s, w')"
  shows "K w' = K w"
proof -
  let ?body = "\<lambda>cid tx. do { n \<leftarrow> NewOrder R cid; case n of Inl err \<Rightarrow> ret (Inl err)
     | Inr o1 \<Rightarrow> do { s \<leftarrow> save_and_append tx o1; case s of Inl err \<Rightarrow> ret (Inl err)
        | Inr o2 \<Rightarrow> ret (Inr (OrderID_String R (o_id o2))) } }"
  from assms(4) obtain cid where "run_state (uow_Execute U (?body cid)) w = (Inr s, w')"
    by (auto simp: CreateOrderHandler_Handle_def split: sum.splits)
  from execute_ok [OF this] obtain w1 w2 where same: "same w w1" "same w2 w'" and
    B: "run_state (?body cid tx) w1 = (Inr s, w2)" by blast
  from B obtain o1 w3 o2 where
    N: "run_state (NewOrder R cid) w1 = (Inr o1, w3)" and S: "run_state (save_and_append tx o1) w3 = (Inr o2, w2)"
    by (auto split: prod.splits sum.splits)
  have "K w3 = K w1" using N
    by (auto simp: NewOrder_def NewOrderID_def NewOrderCreated_def raise_event_def
        split: if_splits prod.splits dest!: now_same v7_same K(3))
  moreover have "storable o1" using N by (elim NewOrder_okE) (simp add: storable_def)
  from save_and_append_keeps [of K, OF K(1,2) S this] have "K w2 = K w3" .
  ultimately show ?thesis using K(3) same by metis
qed

lemma modify_keeps:
  assumes K: "\<And>w w'. rframe w = rframe w' \<Longrightarrow> K w = K w'" "\<And>w w'. oframe w = oframe w' \<Longrightarrow> K w = K w'"
      "\<And>w w'. same w w' \<Longrightarrow> K w' = K w"
    and "run_state (uow_Execute U (modify_order oid f)) w = (Inr s, w')"
    and f: "\<And>o1 r w w'. run_state (f o1) w = (r, w') \<Longrightarrow> K w' = K w"
      "\<And>o1 o2 w w'. run_state (f o1) w = (Inr o2, w') \<Longrightarrow> o_version o1 \<noteq> 0 \<Longrightarrow> storable o2"
    and versions: "\<And>i p. orders w i = Some p \<Longrightarrow> p_version p \<noteq> 0"
  shows "K w' = K w"
proof -
  from execute_ok [OF assms(4)] obtain w1 w2 where same: "same w w1" "same w2 w'" and
    B: "run_state (modify_order oid f tx) w1 = (Inr s, w2)" by blast
  from B obtain o1 w3 o2 w4 o3 where
    F: "run_state (repo_FindByID (tx_OrderRepo tx) oid) w1 = (Inr o1, w3)" and
    M: "run_state (f o1) w3 = (Inr o2, w4)" and
    S: "run_state (save_and_append tx o2) w4 = (Inr o3, w2)"
    by (auto simp: modify_order_def split: prod.splits sum.splits)
  note find = repo.find_ok [OF F]
  have "orders w oid = Some (persist o1)" using find same_orders [OF same(1)] by simp
  from versions [OF this] have "storable o2" by (intro f(2) [OF M]) (simp add: persist_def)
  from save_and_append_keeps [of K, OF K(1,2) S this] have "K w2 = K w4" .
  moreover have "K w3 = K w1" using find by (intro K(1)) simp
  ultimately show ?thesis using f(1) [OF M] K(3) same by metis
qed

lemma add_keeps:
  assumes K: "\<And>w w'. rframe w = rframe w' \<Longrightarrow> K w = K w'" "\<And>w w'. oframe w = oframe w' \<Longrightarrow> K w = K w'"
      "\<And>w w'. same w w' \<Longrightarrow> K w' = K w"
    and "run_state (AddItemHandler_Handle R U cmd) w = (Inr u, w')"
    and versions: "\<And>i p. orders w i = Some p \<Longrightarrow> p_version p \<noteq> 0"
  shows "K w' = K w"
proof -
  let ?f = "\<lambda>o1. AddItem R o1 (cai_ProductID cmd) (cai_ProductName cmd) (cai_Quantity cmd)
    (NewMoney (cai_UnitPrice cmd))"
  from assms(4) obtain oid s where E: "run_state (uow_Execute U (modify_order oid ?f)) w = (Inr s, w')"
    by (auto simp: AddItemHandler_Handle_modify split: sum.splits prod.splits)
  show ?thesis
  proof (rule modify_keeps [of K, OF K E _ _ versions])
    show "K w' = K w" if "run_state (?f o1) w = (r, w')" for o1 r w w'
      using that by (auto simp: AddItem_def NewOrderItem_def NewOrderItemAdded_def
          split: if_splits prod.splits dest!: now_same v7_same K(3))
    show "storable o2" if "run_state (?f o1) w = (Inr o2, w')" "o_version o1 \<noteq> 0" for o1 o2 w w'
      using that by (elim AddItem_okE) (simp add: storable_def added_def)
  qed
qed

lemma confirm_keeps:
  assumes K: "\<And>w w'. rframe w = rframe w' \<Longrightarrow> K w = K w'" "\<And>w w'. oframe w = oframe w' \<Longrightarrow> K w = K w'"
      "\<And>w w'. same w w' \<Longrightarrow> K w' = K w"
    and "run_state (ConfirmOrderHandler_Handle R U cmd) w = (Inr u, w')"
    and versions: "\<And>i p. orders w i = Some p \<Longrightarrow> p_version p \<noteq> 0"
  shows "K w' = K w"
proof -
  from assms(4) obtain oid s where E: "run_state (uow_Execute U (modify_order oid (Confirm R))) w = (Inr s, w')"
    by (auto simp: ConfirmOrderHandler_Handle_modify split: sum.splits prod.splits)
  show ?thesis
  proof (rule modify_keeps [of K, OF K E _ _ versions])
    show "K w' = K w" if "run_state (Confirm R o1) w = (r, w')" for o1 r w w'
      using that by (auto simp: Confirm_def NewOrderConfirmed_def Let_def
          split: if_splits prod.splits dest!: now_same K(3))
    show "storable o2" if "run_state (Confirm R o1) w = (Inr o2, w')" "o_version o1 \<noteq> 0" for o1 o2 w w'
      using that by (elim Confirm_okE) (simp add: storable_def confirmed_def)
  qed
qed

end

section \<open>The invariant on the database\<close>

definition tables_in_step :: "('w, 'z) runtime_scheme \<Rightarrow> tables \<Rightarrow> bool" where
  "tables_in_step R t \<longleftrightarrow> in_step R (stored_orders t) (stored_events t) (stored_processed_events t) (stored_views t) (stored_lines t)"

text \<open>
  No event was handled before an earlier one of its order.  A batch that ends so has overtaken
  none.
\<close>

definition no_overtaking :: "(uuid \<Rightarrow> OutboxEvent option) \<Rightarrow> (uuid \<times> string) set \<Rightarrow> bool" where
  "no_overtaking ob P \<longleftrightarrow> (\<forall>j k x y. ob j = Some y \<longrightarrow> ob k = Some x \<longrightarrow> oe_AggregateID y = oe_AggregateID x \<longrightarrow>
     oe_OccurredAt y < oe_OccurredAt x \<longrightarrow> (k, HandlerName) \<in> P \<longrightarrow> (j, HandlerName) \<in> P)"

lemma no_overtakingD:
  "no_overtaking ob P \<Longrightarrow> ob j = Some y \<Longrightarrow> ob k = Some x \<Longrightarrow> oe_AggregateID y = oe_AggregateID x \<Longrightarrow>
     oe_OccurredAt y < oe_OccurredAt x \<Longrightarrow> (k, HandlerName) \<in> P \<Longrightarrow> (j, HandlerName) \<in> P"
  unfolding no_overtaking_def by blast

lemma redelivered_trans:
  assumes "redelivered P a b" "redelivered Q b c" "P \<subseteq> Q"
  shows "redelivered Q a c"
  unfolding redelivered_def
proof
  fix k
  show "case a k of None \<Rightarrow> c k = None
      | Some x \<Rightarrow> \<exists>y. c k = Some y \<and> log_key y = log_key x \<and>
          (oe_OccurredAt x \<noteq> time_zero \<longrightarrow> oe_OccurredAt y = oe_OccurredAt x) \<and>
          (oe_Status y = ''published'' \<longrightarrow> oe_Status x = ''published'' \<or> (k, HandlerName) \<in> Q)"
  proof (cases "a k")
    case None
    then show ?thesis using redelivered_None [OF assms(1), of k] redelivered_None [OF assms(2), of k] by simp
  next
    case (Some x)
    from redeliveredE [OF assms(1) Some] obtain y where y: "b k = Some y" "log_key y = log_key x"
      "oe_OccurredAt x \<noteq> time_zero \<longrightarrow> oe_OccurredAt y = oe_OccurredAt x"
      "oe_Status y = ''published'' \<longrightarrow> oe_Status x = ''published'' \<or> (k, HandlerName) \<in> P" by blast
    from redeliveredE [OF assms(2) y(1)] obtain z where "c k = Some z" "log_key z = log_key y"
      "oe_OccurredAt y \<noteq> time_zero \<longrightarrow> oe_OccurredAt z = oe_OccurredAt y"
      "oe_Status z = ''published'' \<longrightarrow> oe_Status y = ''published'' \<or> (k, HandlerName) \<in> Q" by blast
    with y Some assms(3) show ?thesis by auto
  qed
qed

lemma updated_redelivered:
  assumes "entries_updated Q g m m'" "\<And>x. log_key (g x) = log_key x" "\<And>x. oe_OccurredAt (g x) = oe_OccurredAt x"
    and "\<And>k x. m k = Some x \<Longrightarrow> Q x \<Longrightarrow> oe_Status (g x) = ''published'' \<Longrightarrow> (k, HandlerName) \<in> P"
  shows "redelivered P m m'"
  unfolding redelivered_def
proof
  fix k
  have "case m k of None \<Rightarrow> m' k = None
      | Some x \<Rightarrow> if Q x then \<exists>y. m' k = Some y \<and> kept (g x) y else m' k = Some x"
    using assms(1) by (simp add: entries_updated_def)
  note u = this
  show "case m k of None \<Rightarrow> m' k = None
      | Some x \<Rightarrow> \<exists>y. m' k = Some y \<and> log_key y = log_key x \<and>
          (oe_OccurredAt x \<noteq> time_zero \<longrightarrow> oe_OccurredAt y = oe_OccurredAt x) \<and>
          (oe_Status y = ''published'' \<longrightarrow> oe_Status x = ''published'' \<or> (k, HandlerName) \<in> P)"
  proof (cases "m k")
    case None
    with u show ?thesis by simp
  next
    case (Some x)
    show ?thesis
    proof (cases "Q x")
      case True
      with u Some obtain y where y: "m' k = Some y" "kept (g x) y" by auto
      have "oe_Status y = oe_Status (g x)" using y(2) by (cases y; cases "g x") (simp add: kept_def)
      moreover have "oe_OccurredAt x \<noteq> time_zero \<longrightarrow> oe_OccurredAt y = oe_OccurredAt x"
        using y(2) assms(3) [of x] by (simp add: kept_def)
      ultimately show ?thesis using y Some kept_log [OF y(2)] assms(2) [of x] assms(4) [OF Some True] by auto
    next
      case False
      with u Some show ?thesis by simp
    qed
  qed
qed

context gorm_platform begin

lemma stored_items_unique: "items_unique (stored_orders (view w))"
  unfolding items_unique_def
proof (intro allI impI)
  fix oid oid' p p' i j
  assume p: "stored_orders (view w) oid = Some p" "stored_orders (view w) oid' = Some p'"
    and i: "i \<in> p_items p" "j \<in> p_items p'" and eq: "item_id i = item_id j"
  from p i have "i \<in> items_of (view w) (order_uuid oid)" "j \<in> items_of (view w) (order_uuid oid')"
    by (auto simp: stored_orders_def)
  then obtain a b k l where a: "i = ToDomainItem a" "t_items (view w) k = Some a" "oim_OrderID a = order_uuid oid"
    and b: "j = ToDomainItem b" "t_items (view w) l = Some b" "oim_OrderID b = order_uuid oid'"
    by (auto simp: items_of_def rows_of_def)
  have "oim_ID a = oim_ID b" using eq a(1) b(1) by (simp add: ToDomainItem_def ReconstructOrderItem_def)
  then have "k = l" using items.table_key [OF a(2)] items.table_key [OF b(2)] by simp
  then show "oid = oid' \<and> i = j" using a b by (cases oid; cases oid') simp
qed

lemma stored_versions:
  "in_step E (stored_orders (view w)) ob Q V L \<Longrightarrow> stored_orders (view w) oid = Some p \<Longrightarrow> p_version p \<noteq> 0"
  using in_stepD(3) follows_row by (fastforce simp: row_ok_def)

lemmas keep_read = read_part_frames(1) read_part_frames(2) arg_cong [where f = read_part]

text \<open>A command, whatever of the events counts as handled.\<close>

lemma command_follows:
  assumes I: "in_step E (stored_orders (view w)) (stored_events (view w)) Q V L"
    and ord: "in_order (stored_events (view w)) (stored_events (view w'))"
  shows "run_state (CreateOrderHandler_Handle E (NewGormUnitOfWork E) c) w = (r, w') \<Longrightarrow>
      in_step E (stored_orders (view w')) (stored_events (view w')) Q V L \<and> read_part (view w') = read_part (view w)"
    and "run_state (AddItemHandler_Handle E (NewGormUnitOfWork E) a) w = (ra, w') \<Longrightarrow>
      in_step E (stored_orders (view w')) (stored_events (view w')) Q V L \<and> read_part (view w') = read_part (view w)"
    and "run_state (ConfirmOrderHandler_Handle E (NewGormUnitOfWork E) f) w = (rf, w') \<Longrightarrow>
      in_step E (stored_orders (view w')) (stored_events (view w')) Q V L \<and> read_part (view w') = read_part (view w)"
proof -
  note v = stored_versions [OF I]
  let ?goal = "in_step E (stored_orders (view w')) (stored_events (view w')) Q V L \<and> read_part (view w') = read_part (view w)"
  show ?goal if r: "run_state (CreateOrderHandler_Handle E (NewGormUnitOfWork E) c) w = (r, w')"
  proof (cases r)
    case (Inl e)
    with create_err_view r have "view w' = view w" by blast
    with I show ?thesis by simp
  next
    case (Inr s)
    have "read_part (view w') = read_part (view w)"
      by (rule uow.create_keeps [of "\<lambda>w. read_part (view w)", OF keep_read r [unfolded Inr]])
    then show ?thesis using create_effect_law [OF r [unfolded Inr]] in_step_create [OF _ _ ord I] by auto
  qed
  show ?goal if r: "run_state (AddItemHandler_Handle E (NewGormUnitOfWork E) a) w = (ra, w')"
  proof (cases ra)
    case (Inl e)
    with add_err_view r have "view w' = view w" by blast
    with I show ?thesis by simp
  next
    case (Inr s)
    have "\<exists>ev. add_effect E a (stored_orders (view w)) (stored_orders (view w')) ev \<and>
        announced E ev (stored_events (view w)) (stored_events (view w'))"
      by (rule uow.Add_ok [OF r [unfolded Inr] v])
    moreover have "read_part (view w') = read_part (view w)"
      by (rule uow.add_keeps [of "\<lambda>w. read_part (view w)", OF keep_read r [unfolded Inr] v])
    ultimately show ?thesis using in_step_add [OF _ _ ord I] by auto
  qed
  show ?goal if r: "run_state (ConfirmOrderHandler_Handle E (NewGormUnitOfWork E) f) w = (rf, w')"
  proof (cases rf)
    case (Inl e)
    with confirm_err_view r have "view w' = view w" by blast
    with I show ?thesis by simp
  next
    case (Inr s)
    have "\<exists>ev. confirm_effect E f (stored_orders (view w)) (stored_orders (view w')) ev \<and>
        announced E ev (stored_events (view w)) (stored_events (view w'))"
      by (rule uow.Confirm_ok [OF r [unfolded Inr] v])
    moreover have "read_part (view w') = read_part (view w)"
      by (rule uow.confirm_keeps [of "\<lambda>w. read_part (view w)", OF keep_read r [unfolded Inr] v])
    ultimately show ?thesis using in_step_confirm [OF _ _ ord I] by auto
  qed
qed

lemma command_in_step:
  assumes I: "tables_in_step E (view w)" and ord: "in_order (stored_events (view w)) (stored_events (view w'))"
  shows "run_state (CreateOrderHandler_Handle E (NewGormUnitOfWork E) c) w = (r, w') \<Longrightarrow> tables_in_step E (view w')"
    and "run_state (AddItemHandler_Handle E (NewGormUnitOfWork E) a) w = (ra, w') \<Longrightarrow> tables_in_step E (view w')"
    and "run_state (ConfirmOrderHandler_Handle E (NewGormUnitOfWork E) f) w = (rf, w') \<Longrightarrow> tables_in_step E (view w')"
  unfolding tables_in_step_def
  by (metis command_follows(1) [OF I [unfolded tables_in_step_def] ord] read_part_stored,
      metis command_follows(2) [OF I [unfolded tables_in_step_def] ord] read_part_stored,
      metis command_follows(3) [OF I [unfolded tables_in_step_def] ord] read_part_stored)

end

section \<open>Batches\<close>

text \<open>The entry is stored, but for its delivery state.\<close>

definition deliverable :: "tables \<Rightarrow> OutboxEvent \<Rightarrow> bool" where
  "deliverable t x \<longleftrightarrow> (\<exists>z. stored_events t (oe_ID x) = Some z \<and> log_key x = log_key z \<and>
     oe_OccurredAt x = oe_OccurredAt z)"

abbreviation handled_keys :: "('w \<Rightarrow> tables) \<Rightarrow> 'w \<Rightarrow> (uuid \<times> string) set" where
  "handled_keys view w \<equiv> stored_processed_events (view w)"

context gorm_platform begin

text \<open>A delivery over the in-memory bus that succeeds, and the mark after it.\<close>

lemma publish_delivers:
  assumes "run_state (InMemoryEventBus_Publish (inmemory_bus E) x) w = (Inr u, w')" "carries E x ev"
  shows "run_state (projection_handler E x) w = (Inr (), w')"
proof -
  have "oe_EventType x \<in> {''OrderCreated'', ''OrderItemAdded'', ''OrderConfirmed''}"
    using assms(2) by (auto elim: carriesE)
  then have "inmemory_bus E (oe_EventType x) = [projection_handler E]"
    by (auto simp: inmemory_bus_def ProjectionWorker_Setup_def Subscribe_def no_handlers_def)
  with assms(1) show ?thesis
    by (auto simp: InMemoryEventBus_Publish_def split: prod.splits sum.splits)
qed

lemma delivery_effect:
  assumes "run_state (InMemoryEventBus_Publish (inmemory_bus E) x) w = (Inr u, w')"
    and "carries E x ev" "event_status_ok ev" "statuses_ok (stored_views (view w))"
  shows "stored_orders (view w') = stored_orders (view w) \<and> stored_events (view w') = stored_events (view w) \<and>
    handled_keys view w' = insert (oe_ID x, HandlerName) (handled_keys view w) \<and> statuses_ok (stored_views (view w')) \<and>
    (if (oe_ID x, HandlerName) \<in> handled_keys view w
     then stored_views (view w') = stored_views (view w) \<and> stored_lines (view w') = stored_lines (view w)
     else projected E ev (stored_views (view w)) (stored_lines (view w)) (stored_views (view w')) (stored_lines (view w')))"
proof -
  note H = publish_delivers [OF assms(1,2)]
  note wp = write_part_events [OF publish_write [OF assms(1)]]
  show ?thesis
  proof (cases "(oe_ID x, HandlerName) \<in> handled_keys view w")
    case True
    from proj.Handle_skips [OF H [unfolded projection_handler_def] True] True wp assms(4) show ?thesis by auto
  next
    case False
    from handler_projects [OF H False assms(2-4)] False wp projected_statuses [OF _ assms(3,4)] show ?thesis by auto
  qed
qed

lemma mark_effect:
  assumes "run_state (ob_MarkPublished (NewGormOutboxStore E) i) w = (m, w')" "(i, HandlerName) \<in> handled_keys view w"
  shows "stored_orders (view w') = stored_orders (view w) \<and> read_part (view w') = read_part (view w) \<and>
    redelivered (handled_keys view w) (stored_events (view w)) (stored_events (view w'))"
proof (cases m)
  case (Inl e)
  from ob.published_err [OF assms(1) [unfolded Inl]] show ?thesis
    using ob_orders(2) [OF assms(1)] read_part_frames(2) redelivered_refl by metis
next
  case (Inr u)
  from ob.published_ok [OF assms(1) [unfolded Inr]] obtain now where
    frame: "outbox_frame (view w') = outbox_frame (view w)" and
    up: "entries_updated (\<lambda>x. oe_ID x = i) (published_at now) (stored_events (view w)) (stored_events (view w'))" by blast
  have "redelivered (handled_keys view w) (stored_events (view w)) (stored_events (view w'))"
    by (rule updated_redelivered [OF up])
      (use ob.outbox_key assms(2) in \<open>auto simp: published_at_def log_key_def\<close>)
  with frame ob_orders(2) [OF assms(1)] read_part_frames(2) show ?thesis by metis
qed

text \<open>What a batch that fails no entry does to the entries and to the set of handled events.\<close>


lemma process_cases:
  assumes "run_state (process_events (NewGormOutboxStore E) (InMemoryEventBus_Publish (inmemory_bus E)) (x # xs)) w
    = ((a, 0), w')"
  obtains u w1 m w2 b where "run_state (InMemoryEventBus_Publish (inmemory_bus E) x) w = (Inr u, w1)"
    "run_state (ob_MarkPublished (NewGormOutboxStore E) (oe_ID x)) w1 = (m, w2)"
    "run_state (process_events (NewGormOutboxStore E) (InMemoryEventBus_Publish (inmemory_bus E)) xs) w2 = ((b, 0), w')"
  using assms by (auto split: prod.splits sum.splits)

lemma process_handles:
  assumes "run_state (process_events (NewGormOutboxStore E) (InMemoryEventBus_Publish (inmemory_bus E)) xs) w
      = ((a, 0), w')"
    and "\<forall>x \<in> set xs. \<exists>ev. carries E x ev \<and> event_status_ok ev" "statuses_ok (stored_views (view w))"
  shows "handled_keys view w' = handled_keys view w \<union> (\<lambda>x. (oe_ID x, HandlerName)) ` set xs \<and>
    redelivered (handled_keys view w') (stored_events (view w)) (stored_events (view w')) \<and>
    stored_orders (view w') = stored_orders (view w)"
  using assms
proof (induction xs arbitrary: w a)
  case Nil
  then show ?case by (simp add: redelivered_refl)
next
  case (Cons x xs)
  from process_cases [OF Cons.prems(1)] obtain u w1 m w2 b where
    P: "run_state (InMemoryEventBus_Publish (inmemory_bus E) x) w = (Inr u, w1)" and
    M: "run_state (ob_MarkPublished (NewGormOutboxStore E) (oe_ID x)) w1 = (m, w2)" and
    R: "run_state (process_events (NewGormOutboxStore E) (InMemoryEventBus_Publish (inmemory_bus E)) xs) w2 = ((b, 0), w')" .
  from Cons.prems(2) obtain ev where ev: "carries E x ev" "event_status_ok ev" by auto
  note d = delivery_effect [OF P ev Cons.prems(3)]
  then have "(oe_ID x, HandlerName) \<in> handled_keys view w1" by simp
  note k = mark_effect [OF M this]
  note same = read_part_stored [OF k [THEN conjunct2, THEN conjunct1]]
  have "statuses_ok (stored_views (view w2))" using d same by simp
  from Cons.IH [OF R _ this] Cons.prems(2)
  have ih: "handled_keys view w' = handled_keys view w2 \<union> (\<lambda>x. (oe_ID x, HandlerName)) ` set xs"
    "redelivered (handled_keys view w') (stored_events (view w2)) (stored_events (view w'))"
    "stored_orders (view w') = stored_orders (view w2)" by auto
  have "redelivered (handled_keys view w') (stored_events (view w)) (stored_events (view w'))"
    using redelivered_trans [OF k [THEN conjunct2, THEN conjunct2] ih(2)] ih(1) same(1) d by auto
  with ih k d same show ?case by auto
qed

lemma in_step_carries:
  assumes "tables_in_step E (view w)" "deliverable (view w) x"
  shows "\<exists>ev. carries E x ev \<and> event_status_ok ev"
proof -
  note I = assms(1) [unfolded tables_in_step_def]
  from assms(2) obtain z where z: "stored_events (view w) (oe_ID x) = Some z" "log_key x = log_key z"
    by (auto simp: deliverable_def)
  from in_stepD(5) [OF I z(1)] obtain oid where "oe_AggregateID z = OrderID_String E oid" ..
  with z(1) have k: "oe_ID x \<in> keys_of E (stored_events (view w)) oid" by (simp add: keys_of_def)
  from in_step_stored [OF I this] obtain p where "stored_orders (view w) oid = Some p" ..
  from in_stepD(3) [OF I this] obtain h ks where h: "story E oid h" "recorded E (stored_events (view w)) oid ks h"
    by (auto simp: follows_def)
  with k have "oe_ID x \<in> set ks" by (simp add: recorded_def)
  then obtain i where i: "i < length ks" "ks ! i = oe_ID x" by (auto simp: in_set_conv_nth)
  with h(2) have "i < length h" by (auto simp: recorded_def dest: list_all2_lengthD)
  moreover have "carries E z (fst (h ! i))" using h(2) i z(1) by (auto simp: recorded_def dest: list_all2_nthD)
  then have "carries E x (fst (h ! i))" using z(2) by (simp add: carries_def log_key_def)
  moreover have "event_status_ok (fst (h ! i))" if "i < length h"
    using story_status [OF h(1), of "fst (h ! i)" "snd (h ! i)"] nth_mem [OF that] by simp
  ultimately show ?thesis by blast
qed

lemma deliverable_later:
  assumes "deliverable (view w) x" "redelivered P (stored_events (view w)) (stored_events (view w'))"
    and "tables_in_step E (view w)"
  shows "deliverable (view w') x"
proof -
  from assms(1) obtain z where z: "stored_events (view w) (oe_ID x) = Some z" "log_key x = log_key z"
    "oe_OccurredAt x = oe_OccurredAt z" by (auto simp: deliverable_def)
  from redeliveredE [OF assms(2) z(1)] obtain y where "stored_events (view w') (oe_ID x) = Some y"
    "log_key y = log_key z" "oe_OccurredAt z \<noteq> time_zero \<longrightarrow> oe_OccurredAt y = oe_OccurredAt z" by blast
  with z in_stepD(4) [OF assms(3) [unfolded tables_in_step_def] z(1)] show ?thesis by (auto simp: deliverable_def)
qed

text \<open>A delivery in order: everything earlier of the order has been handled.\<close>

lemma delivery_in_step:
  assumes I: "tables_in_step E (view w)" and exact: "exact_totals (stored_orders (view w))"
    and P: "run_state (InMemoryEventBus_Publish (inmemory_bus E) x) w = (Inr u, w1)"
    and M: "run_state (ob_MarkPublished (NewGormOutboxStore E) (oe_ID x)) w1 = (m, w2)"
    and x: "deliverable (view w) x"
    and first: "\<And>j y. stored_events (view w) j = Some y \<Longrightarrow> oe_AggregateID y = oe_AggregateID x \<Longrightarrow>
      oe_OccurredAt y < oe_OccurredAt x \<Longrightarrow> (j, HandlerName) \<in> handled_keys view w"
  shows "tables_in_step E (view w2) \<and> stored_orders (view w2) = stored_orders (view w) \<and>
    handled_keys view w2 = insert (oe_ID x, HandlerName) (handled_keys view w) \<and>
    redelivered (handled_keys view w2) (stored_events (view w)) (stored_events (view w2))"
proof -
  note I' = I [unfolded tables_in_step_def]
  from x obtain z where z: "stored_events (view w) (oe_ID x) = Some z" "log_key x = log_key z"
    "oe_OccurredAt x = oe_OccurredAt z" by (auto simp: deliverable_def)
  have car: "carries E z ev \<longleftrightarrow> carries E x ev" for ev using z(2) by (simp add: carries_def log_key_def)
  have agg: "oe_AggregateID x = oe_AggregateID z" using z(2) by (simp add: log_key_def)
  note st = in_step_statuses [OF I']
  from in_step_carries [OF I x] obtain ev0 where ev0: "carries E x ev0" "event_status_ok ev0" by blast
  note d = delivery_effect [OF P ev0 st]
  then have hk: "(oe_ID x, HandlerName) \<in> handled_keys view w1" by simp
  note k = mark_effect [OF M hk]
  note same = read_part_stored [OF k [THEN conjunct2, THEN conjunct1]]
  have "in_step E (stored_orders (view w1)) (stored_events (view w1)) (handled_keys view w1) (stored_views (view w1)) (stored_lines (view w1))"
  proof (cases "(oe_ID x, HandlerName) \<in> handled_keys view w")
    case True
    with d I' show ?thesis by (simp add: insert_absorb)
  next
    case False
    have "in_step E (stored_orders (view w)) (stored_events (view w)) (insert (oe_ID x, HandlerName) (handled_keys view w))
        (stored_views (view w1)) (stored_lines (view w1))"
    proof (rule in_step_project [OF I' z(1) False _ stored_items_unique exact])
      show "(j, HandlerName) \<in> handled_keys view w" if "stored_events (view w) j = Some y"
        "oe_AggregateID y = oe_AggregateID z" "oe_OccurredAt y < oe_OccurredAt z" for j y
        using first [OF that(1)] that(2,3) agg z(3) by simp
      show "projected E ev (stored_views (view w)) (stored_lines (view w)) (stored_views (view w1)) (stored_lines (view w1))"
        if "carries E z ev" "event_status_ok ev" for ev
        using delivery_effect [OF P that(1) [unfolded car] that(2) st] False by simp
    qed
    with d show ?thesis by simp
  qed
  from in_step_redelivered [OF this k [THEN conjunct2, THEN conjunct2]] show ?thesis
    using d k same by (simp add: tables_in_step_def)
qed

lemma process_in_step:
  assumes "run_state (process_events (NewGormOutboxStore E) (InMemoryEventBus_Publish (inmemory_bus E)) xs) w = ((a, 0), w')"
    and "tables_in_step E (view w)" "exact_totals (stored_orders (view w))"
    and "\<forall>x \<in> set xs. deliverable (view w) x" "sorted (map oe_OccurredAt xs)"
    and "no_overtaking (stored_events (view w')) (handled_keys view w')"
  shows "tables_in_step E (view w')"
  using assms
proof (induction xs arbitrary: w a)
  case (Cons x xs)
  note I = Cons.prems(2) and I' = Cons.prems(2) [unfolded tables_in_step_def]
  from process_cases [OF Cons.prems(1)] obtain u w1 m w2 b where
    P: "run_state (InMemoryEventBus_Publish (inmemory_bus E) x) w = (Inr u, w1)" and
    M: "run_state (ob_MarkPublished (NewGormOutboxStore E) (oe_ID x)) w1 = (m, w2)" and
    R: "run_state (process_events (NewGormOutboxStore E) (InMemoryEventBus_Publish (inmemory_bus E)) xs) w2 = ((b, 0), w')" .
  have x: "deliverable (view w) x" using Cons.prems(4) by simp
  have "\<forall>x \<in> set (x # xs). \<exists>ev. carries E x ev \<and> event_status_ok ev" using Cons.prems(4) in_step_carries [OF I] by blast
  note all = process_handles [OF Cons.prems(1) this in_step_statuses [OF I']]
  have first: "(j, HandlerName) \<in> handled_keys view w" if y: "stored_events (view w) j = Some y"
    "oe_AggregateID y = oe_AggregateID x" "oe_OccurredAt y < oe_OccurredAt x" for j y
  proof -
    from x obtain z where z: "stored_events (view w) (oe_ID x) = Some z" "log_key x = log_key z"
      "oe_OccurredAt x = oe_OccurredAt z" by (auto simp: deliverable_def)
    note red = all [THEN conjunct2, THEN conjunct1]
    from redeliveredE [OF red z(1)] in_stepD(4) [OF I' z(1)] obtain z' where
      z': "stored_events (view w') (oe_ID x) = Some z'" "log_key z' = log_key z" "oe_OccurredAt z' = oe_OccurredAt z" by metis
    from redeliveredE [OF red y(1)] in_stepD(4) [OF I' y(1)] obtain y' where
      y': "stored_events (view w') j = Some y'" "log_key y' = log_key y" "oe_OccurredAt y' = oe_OccurredAt y" by metis
    have "oe_AggregateID y' = oe_AggregateID z'" using y(2) z(2) z'(2) y'(2) by (simp add: log_key_def)
    moreover have "oe_OccurredAt y' < oe_OccurredAt z'" using y(3) z(3) z'(3) y'(3) by simp
    moreover have "(oe_ID x, HandlerName) \<in> handled_keys view w'" using all by simp
    ultimately have "(j, HandlerName) \<in> handled_keys view w'"
      using no_overtakingD [OF Cons.prems(6) y'(1) z'(1)] by blast
    moreover have "j \<noteq> oe_ID v" if "v \<in> set (x # xs)" for v
    proof
      assume "j = oe_ID v"
      with Cons.prems(4) that y(1) have "oe_OccurredAt v = oe_OccurredAt y" by (auto simp: deliverable_def)
      with y(3) Cons.prems(5) that show False by auto
    qed
    ultimately show ?thesis using all by auto
  qed
  have s: "tables_in_step E (view w2) \<and> stored_orders (view w2) = stored_orders (view w) \<and>
    handled_keys view w2 = insert (oe_ID x, HandlerName) (handled_keys view w) \<and>
    redelivered (handled_keys view w2) (stored_events (view w)) (stored_events (view w2))"
    by (rule delivery_in_step [OF I Cons.prems(3) P M x first])
  have "\<forall>v \<in> set xs. deliverable (view w2) v" using Cons.prems(4) deliverable_later [OF _ _ I] s by auto
  with s Cons.prems(3,5,6) show ?case by (intro Cons.IH [OF R]) auto
qed simp

lemma batch_in_step:
  assumes "run_state (relay_batch E n) w = ((a, 0), w')" "0 \<le> sint n"
    and "tables_in_step E (view w)" "exact_totals (stored_orders (view w))"
    and "no_overtaking (stored_events (view w')) (handled_keys view w')"
  shows "tables_in_step E (view w')"
proof -
  obtain f w1 where F: "run_state (ob_FetchPending (NewGormOutboxStore E) n) w = (f, w1)" by fastforce
  show ?thesis
  proof (cases f)
    case (Inl e)
    have "view w1 = view w" using F Inl FetchPending_err [of n w e w1] by (simp add: NewGormOutboxStore_def)
    moreover have "w' = w1" using assms(1) F Inl by (simp add: relay_batch_def OutboxWorker_processBatch_def)
    ultimately show ?thesis using assms(3) by simp
  next
    case (Inr xs)
    note f = fetch_law [OF F [unfolded Inr] assms(2)]
    have v: "view w1 = view w" using f by simp
    have "run_state (process_events (NewGormOutboxStore E) (InMemoryEventBus_Publish (inmemory_bus E)) xs) w1 = ((a, 0), w')"
      using assms(1) F Inr by (cases "xs = []") (simp_all add: relay_batch_def OutboxWorker_processBatch_def)
    from process_in_step [OF this] show ?thesis
      using assms(3-5) f by (simp add: v) (auto simp: deliverable_def)
  qed
qed

lemma requeue_in_step:
  assumes "run_state (ob_RequeueFailed (NewGormOutboxStore E)) w = (r, w')" "tables_in_step E (view w)"
  shows "tables_in_step E (view w')"
proof (cases r)
  case (Inl e)
  from ob.requeue_err [OF assms(1) [unfolded Inl]] have
    "stored_events (view w') = stored_events (view w)" "outbox_frame (view w') = outbox_frame (view w)" by auto
  with assms(2) read_part_stored [OF read_part_frames(2) [OF this(2)]] outbox_frame_write [OF this(2)]
  show ?thesis by (simp add: tables_in_step_def)
next
  case (Inr n)
  from ob.requeue_ok [OF assms(1) [unfolded Inr]] obtain now where
    frame: "outbox_frame (view w') = outbox_frame (view w)" and
    up: "entries_updated (\<lambda>x. oe_Status x = ''failed'') (requeued_at now) (stored_events (view w)) (stored_events (view w'))"
    by blast
  have "redelivered (handled_keys view w) (stored_events (view w)) (stored_events (view w'))"
    by (rule updated_redelivered [OF up]) (simp_all add: requeued_at_def log_key_def)
  from in_step_redelivered [OF assms(2) [unfolded tables_in_step_def] this] show ?thesis
    using read_part_stored [OF read_part_frames(2) [OF frame]] outbox_frame_write [OF frame] by (simp add: tables_in_step_def)
qed

end

end
