(* ===== verification/Interleaving.thy ===== *)
theory Interleaving imports Calm_Run System begin

text \<open>
  Several relays beside the commands: the outbox worker of every instance of the service as a program
  counter, whose turns interleave with the transactions of the commands and with each other.  A turn
  is one call of a store (the projection's switch counts as one), so two relays may hold the same
  entry: the lock of the fetch ends with its statement.
\<close>

section \<open>A relay as turns\<close>

text \<open>
  Where a relay is in \<^verbatim>\<open>processBatch\<close>, with the entries that are still before it: between two batches; before an
  entry; after \<^verbatim>\<open>IsProcessed\<close> said no; after the read model was written; with the result of the
  publication, before the entry is marked.
\<close>

datatype relay_pc =
    Waiting
  | Delivering "OutboxEvent list"
  | Applying OutboxEvent "OutboxEvent list"
  | Marking OutboxEvent "OutboxEvent list"
  | Settling OutboxEvent "go_error option" "OutboxEvent list"

definition bus_error :: "OutboxEvent \<Rightarrow> go_error \<Rightarrow> go_error option" where
  "bus_error x err = Some (ErrWrap (''handler error for '' @ oe_EventType x @ '': '') err)"

fun relay_next :: "'w platform \<Rightarrow> go_int \<Rightarrow> relay_pc \<Rightarrow> ('w, relay_pc) state" where
  "relay_next E n Waiting = do {
     f \<leftarrow> ob_FetchPending (NewGormOutboxStore E) n;
     ret (case f of Inl err \<Rightarrow> Waiting | Inr events \<Rightarrow> Delivering events)
   }"
| "relay_next E n (Delivering []) = ret Waiting"
| "relay_next E n (Delivering (x # xs)) =
     (if inmemory_bus E (oe_EventType x) = [] then ret (Settling x None xs)
      else do {
        p \<leftarrow> ps_IsProcessed (NewGormProcessedEventStore E) (oe_ID x) HandlerName;
        ret (case p of
          Inl err \<Rightarrow> Settling x (bus_error x (ErrWrap ''check processed event: '' err)) xs
        | Inr processed \<Rightarrow> if processed then Settling x None xs else Applying x xs)
      })"
| "relay_next E n (Applying x xs) =
     (case projection_switch E (NewGormReadModelStore E) x of
        None \<Rightarrow> ret (Settling x None xs)
      | Some handle \<Rightarrow> do {
          r \<leftarrow> handle;
          ret (case r of Inl err \<Rightarrow> Settling x (bus_error x err) xs | Inr _ \<Rightarrow> Marking x xs)
        })"
| "relay_next E n (Marking x xs) = do {
     m \<leftarrow> ps_MarkProcessed (NewGormProcessedEventStore E) (oe_ID x) HandlerName;
     ret (case m of
       Inl err \<Rightarrow> Settling x (bus_error x (ErrWrap ''mark processed: '' err)) xs
     | Inr _ \<Rightarrow> Settling x None xs)
   }"
| "relay_next E n (Settling x (Some err) xs) = do {
     m \<leftarrow> ob_MarkFailed (NewGormOutboxStore E) (oe_ID x) (error_text err);
     ret (Delivering xs)
   }"
| "relay_next E n (Settling x None xs) = do {
     m \<leftarrow> ob_MarkPublished (NewGormOutboxStore E) (oe_ID x);
     ret (Delivering xs)
   }"

section \<open>The service's steps\<close>

text \<open>
  The delivery: the requeueing; a turn of the relay \<open>i\<close>; or its end and restart, in which it forgets
  what it fetched.  Beside it, the commands, each of which is a transaction.
\<close>

type_synonym 'w service = "'w \<times> (nat \<Rightarrow> relay_pc)"

inductive delivery_step :: "'w platform \<Rightarrow> 'w service \<Rightarrow> 'w service \<Rightarrow> bool" for E where
  requeue: "run_state (ob_RequeueFailed (NewGormOutboxStore E)) w = (q, w') \<Longrightarrow>
    delivery_step E (w, pcs) (w', pcs)"
| relay: "run_state (relay_next E n (pcs i)) w = (pc, w') \<Longrightarrow> 0 \<le> sint n \<Longrightarrow>
    delivery_step E (w, pcs) (w', pcs(i := pc))"
| restart: "delivery_step E (w, pcs) (w, pcs(i := Waiting))"

inductive service_step :: "'w platform \<Rightarrow> 'w service \<Rightarrow> 'w service \<Rightarrow> bool" for E where
  create: "run_state (CreateOrderHandler_Handle E (NewGormUnitOfWork E) c) w = (r, w') \<Longrightarrow>
    service_step E (w, pcs) (w', pcs)"
| add_item: "run_state (AddItemHandler_Handle E (NewGormUnitOfWork E) a) w = (ra, w') \<Longrightarrow>
    service_step E (w, pcs) (w', pcs)"
| confirm_order: "run_state (ConfirmOrderHandler_Handle E (NewGormUnitOfWork E) f) w = (rf, w') \<Longrightarrow>
    service_step E (w, pcs) (w', pcs)"
| delivery: "delivery_step E s s' \<Longrightarrow> service_step E s s'"

abbreviation delivery_run :: "'w platform \<Rightarrow> 'w service \<Rightarrow> 'w service \<Rightarrow> bool" where
  "delivery_run E \<equiv> (delivery_step E)\<^sup>*\<^sup>*"

abbreviation service_run :: "'w platform \<Rightarrow> 'w service \<Rightarrow> 'w service \<Rightarrow> bool" where
  "service_run E \<equiv> (service_step E)\<^sup>*\<^sup>*"

abbreviation all_waiting :: "nat \<Rightarrow> relay_pc" where
  "all_waiting \<equiv> \<lambda>i. Waiting"

text \<open>A schedule of turns, computed; the relays share the batch size.\<close>

fun turns :: "'w platform \<Rightarrow> go_int \<Rightarrow> nat list \<Rightarrow> 'w service \<Rightarrow> 'w service" where
  "turns E n [] s = s"
| "turns E n (i # js) (w, pcs) =
     (case run_state (relay_next E n (pcs i)) w of (pc, w') \<Rightarrow> turns E n js (w', pcs(i := pc)))"

lemma turns_run: "0 \<le> sint n \<Longrightarrow> delivery_run E s (turns E n js s)"
proof (induction E n js s rule: turns.induct)
  case (2 E n i js w pcs)
  obtain pc w' where "run_state (relay_next E n (pcs i)) w = (pc, w')" by fastforce
  with 2 show ?case by (auto intro: converse_rtranclp_into_rtranclp delivery_step.relay)
qed simp

lemma delivery_service: "delivery_run E s s' \<Longrightarrow> service_run E s s'"
  by (induction rule: rtranclp_induct) (auto intro: rtranclp.rtrancl_into_rtrancl service_step.delivery)

section \<open>A batch is a schedule\<close>

text \<open>One relay takes all the turns.\<close>

definition alone :: "'w platform \<Rightarrow> go_int \<Rightarrow> nat \<Rightarrow> 'w service \<Rightarrow> 'w service \<Rightarrow> bool" where
  "alone E n i s s' \<longleftrightarrow> (\<exists>m. turns E n (replicate m i) s = s')"

lemma alone_refl: "alone E n i s s"
  unfolding alone_def by (rule exI [of _ 0]) simp

lemma turn_into:
  assumes "run_state (relay_next E n pc) w = (pc1, w1)" "alone E n i (w1, pcs(i := pc1)) s"
  shows "alone E n i (w, pcs(i := pc)) s"
proof -
  from assms(2) obtain m where "turns E n (replicate m i) (w1, pcs(i := pc1)) = s" by (auto simp: alone_def)
  with assms(1) have "turns E n (replicate (Suc m) i) (w, pcs(i := pc)) = s" by simp
  then show ?thesis unfolding alone_def by blast
qed

lemma bus_handlers_cases:
  "inmemory_bus E ty = [] \<or> inmemory_bus E ty = [projection_handler E]"
  by (simp add: inmemory_bus_def ProjectionWorker_Setup_def Subscribe_def no_handlers_def)

definition outcome_of :: "go_error + unit \<Rightarrow> go_error option" where
  "outcome_of r = (case r of Inl err \<Rightarrow> Some err | Inr _ \<Rightarrow> None)"

lemma publish_turns:
  assumes "run_state (InMemoryEventBus_Publish (inmemory_bus E) x) w = (p, w1)"
    and "alone E n i (w1, pcs(i := Settling x (outcome_of p) xs)) s"
  shows "alone E n i (w, pcs(i := Delivering (x # xs))) s"
proof (cases "inmemory_bus E (oe_EventType x) = []")
  case True
  show ?thesis
    by (rule turn_into [OF _ assms(2)])
      (use True assms(1) in \<open>auto simp: InMemoryEventBus_Publish_def outcome_of_def\<close>)
next
  case False
  then have h: "inmemory_bus E (oe_EventType x) = [projection_handler E]" using bus_handlers_cases by metis
  obtain b wb where B: "run_state (ps_IsProcessed (NewGormProcessedEventStore E) (oe_ID x) HandlerName) w = (b, wb)"
    by fastforce
  note defs = InMemoryEventBus_Publish_def projection_handler_def OrderProjectionHandler_Handle_def outcome_of_def bus_error_def
  note first = turn_into [where pc = "Delivering (x # xs)" and w = w and ?w1.0 = wb]
  consider "\<exists>e. b = Inl e \<or> b = Inr True" | "b = Inr False" by (metis (full_types) sum.exhaust)
  then show ?thesis
  proof cases
    case 1
    show ?thesis
      by (rule first [where ?pc1.0 = "Settling x (outcome_of p) xs"]) (use assms h B 1 in \<open>auto simp: defs\<close>)
  next
    case 2
    have A: "alone E n i (w, pcs(i := Delivering (x # xs))) s" if "alone E n i (wb, pcs(i := Applying x xs)) s"
      by (rule first [OF _ that]) (use h B 2 in simp)
    show ?thesis
    proof (cases "projection_switch E (NewGormReadModelStore E) x")
      case None
      show ?thesis
        by (rule A, rule turn_into [OF _ assms(2)]) (use assms(1) h B 2 None in \<open>auto simp: defs\<close>)
    next
      case (Some handle)
      obtain r wr where R: "run_state handle wb = (r, wr)" by fastforce
      show ?thesis
      proof (cases r)
        case (Inl e)
        show ?thesis
          by (rule A, rule turn_into [OF _ assms(2)]) (use assms(1) h B 2 Some R Inl in \<open>auto simp: defs\<close>)
      next
        case (Inr u)
        obtain m wm where M: "run_state (ps_MarkProcessed (NewGormProcessedEventStore E) (oe_ID x) HandlerName) wr = (m, wm)"
          by fastforce
        from assms(1) h B 2 Some R Inr M have "w1 = wm" and settled: "outcome_of p = (case m of
            Inl err \<Rightarrow> bus_error x (ErrWrap ''mark processed: '' err) | Inr _ \<Rightarrow> None)"
          by (auto simp: defs split: sum.splits)
        with M have "run_state (relay_next E n (Marking x xs)) wr = (Settling x (outcome_of p) xs, w1)"
          by (cases m) (simp_all add: bus_error_def)
        from turn_into [OF this assms(2)] have marked: "alone E n i (wr, pcs(i := Marking x xs)) s" .
        show ?thesis by (rule A, rule turn_into [OF _ marked]) (use Some R Inr in simp)
      qed
    qed
  qed
qed

lemma process_turns:
  assumes "run_state (process_events (NewGormOutboxStore E) (InMemoryEventBus_Publish (inmemory_bus E)) xs) w = (c, w')"
  shows "alone E n i (w, pcs(i := Delivering xs)) (w', pcs(i := Waiting))"
  using assms
proof (induction xs arbitrary: w c)
  case Nil
  show ?case by (rule turn_into [OF _ alone_refl]) (use Nil in simp)
next
  case (Cons x xs)
  obtain p w1 where P: "run_state (InMemoryEventBus_Publish (inmemory_bus E) x) w = (p, w1)" by fastforce
  obtain m w2 where M: "run_state (case p of Inl err \<Rightarrow> ob_MarkFailed (NewGormOutboxStore E) (oe_ID x) (error_text err)
      | Inr _ \<Rightarrow> ob_MarkPublished (NewGormOutboxStore E) (oe_ID x)) w1 = (m, w2)" by fastforce
  from Cons.prems P M obtain c2 where
    R: "run_state (process_events (NewGormOutboxStore E) (InMemoryEventBus_Publish (inmemory_bus E)) xs) w2 = (c2, w')"
    by (auto split: prod.splits sum.splits)
  have "run_state (relay_next E n (Settling x (outcome_of p) xs)) w1 = (Delivering xs, w2)"
    using M by (cases p) (auto simp: outcome_of_def)
  from publish_turns [OF P turn_into [OF this Cons.IH [OF R]]] show ?case .
qed

lemma batch_turns:
  assumes "run_state (relay_batch E n) w = (c, w')"
  shows "alone E n i (w, pcs(i := Waiting)) (w', pcs(i := Waiting))"
proof -
  obtain f w1 where F: "run_state (ob_FetchPending (NewGormOutboxStore E) n) w = (f, w1)" by fastforce
  show ?thesis
  proof (cases f)
    case (Inl e)
    with assms F have "w' = w1" by (simp add: relay_batch_def OutboxWorker_processBatch_def)
    with F Inl show ?thesis using turn_into [OF _ alone_refl, of E n Waiting w Waiting w'] by auto
  next
    case (Inr xs)
    with assms F obtain c2 where
      "run_state (process_events (NewGormOutboxStore E) (InMemoryEventBus_Publish (inmemory_bus E)) xs) w1 = (c2, w')"
      by (cases "xs = []") (auto simp: relay_batch_def OutboxWorker_processBatch_def)
    from turn_into [OF _ process_turns [OF this], of n Waiting w] F Inr show ?thesis by auto
  qed
qed

lemma batch_run:
  assumes "run_state (relay_batch E n) w = (c, w')" "0 \<le> sint n" "pcs i = Waiting"
  shows "delivery_run E (w, pcs) (w', pcs)"
proof -
  from batch_turns [OF assms(1), of i pcs] assms(3) obtain m where "turns E n (replicate m i) (w, pcs) = (w', pcs)"
    by (auto simp: alone_def fun_upd_idem)
  with turns_run [OF assms(2), of E "(w, pcs)" "replicate m i"] show ?thesis by simp
qed

section \<open>The serialised service as schedules\<close>

lemma commands_schedule:
  assumes "system_run E w0 w"
  shows "service_run E (w0, all_waiting) (w, all_waiting)"
  using assms
proof (induction rule: commands_run.induct)
  case (create w c r w')
  then show ?case using service_step.create rtranclp.rtrancl_into_rtrancl by metis
next
  case (add_item w a ra w')
  then show ?case using service_step.add_item rtranclp.rtrancl_into_rtrancl by metis
next
  case (confirm_order w f rf w')
  then show ?case using service_step.confirm_order rtranclp.rtrancl_into_rtrancl by metis
next
  case (other w w')
  from other(2) [unfolded relay_step_def] have "delivery_run E (w, all_waiting) (w', all_waiting)"
    using batch_run delivery_step.requeue by (metis r_into_rtranclp)
  with other(3) show ?case using delivery_service rtranclp_trans by metis
qed simp

section \<open>What every schedule keeps\<close>

definition known_types :: "string set" where
  "known_types = {''OrderCreated'', ''OrderItemAdded'', ''OrderConfirmed''}"

definition known_statuses :: "string set" where
  "known_statuses = {''pending'', ''published'', ''failed''}"

text \<open>An entry that is published was handled, and nothing was handled that was not written.\<close>

definition delivery_ok :: "(uuid \<Rightarrow> OutboxEvent option) \<Rightarrow> (uuid \<times> string) set \<Rightarrow> bool" where
  "delivery_ok ob P \<longleftrightarrow>
     (\<forall>k x. ob k = Some x \<longrightarrow> oe_EventType x \<in> known_types \<and> oe_Status x \<in> known_statuses \<and>
        (oe_Status x = ''published'' \<longrightarrow> (k, HandlerName) \<in> P)) \<and>
     P \<subseteq> dom ob \<times> {HandlerName}"

lemma delivery_okD:
  assumes "delivery_ok ob P" "ob k = Some x"
  shows "oe_EventType x \<in> known_types" "oe_Status x \<in> known_statuses"
    "oe_Status x = ''published'' \<Longrightarrow> (k, HandlerName) \<in> P"
  using assms by (auto simp: delivery_ok_def)

lemma delivery_okI:
  assumes "\<And>k x. ob k = Some x \<Longrightarrow> oe_EventType x \<in> known_types \<and> oe_Status x \<in> known_statuses \<and>
      (oe_Status x = ''published'' \<longrightarrow> (k, HandlerName) \<in> P)"
    and "P \<subseteq> dom ob \<times> {HandlerName}"
  shows "delivery_ok ob P"
  using assms by (simp add: delivery_ok_def)

lemma known_type_handler:
  "oe_EventType x \<in> known_types \<Longrightarrow> inmemory_bus E (oe_EventType x) = [projection_handler E]"
  "oe_EventType x \<in> known_types \<Longrightarrow> \<exists>handle. projection_switch E rm x = Some handle"
  by (auto simp: known_types_def inmemory_bus_def ProjectionWorker_Setup_def Subscribe_def no_handlers_def
      projection_switch_def)

text \<open>
  What a relay holds is in the outbox under its identifier; what it is about to mark as published was
  handled.
\<close>

fun held :: "relay_pc \<Rightarrow> OutboxEvent list" where
  "held Waiting = []"
| "held (Delivering xs) = xs"
| "held (Applying x xs) = x # xs"
| "held (Marking x xs) = x # xs"
| "held (Settling x err xs) = x # xs"

fun settled :: "relay_pc \<Rightarrow> uuid set" where
  "settled (Settling x None xs) = {oe_ID x}"
| "settled pc = {}"

definition pc_ok :: "(uuid \<Rightarrow> OutboxEvent option) \<Rightarrow> (uuid \<times> string) set \<Rightarrow> relay_pc \<Rightarrow> bool" where
  "pc_ok ob P pc \<longleftrightarrow>
     (\<forall>x \<in> set (held pc). \<exists>y. ob (oe_ID x) = Some y \<and> oe_EventType y = oe_EventType x) \<and>
     (\<forall>k \<in> settled pc. (k, HandlerName) \<in> P)"

text \<open>The outbox moves on: entries keep their content and none is published that was not handled.\<close>

lemma moved_delivery:
  assumes "delivery_ok ob P" "redelivered P' ob ob'" "P \<subseteq> P'" "P' \<subseteq> dom ob \<times> {HandlerName}"
    and "\<And>k y. ob' k = Some y \<Longrightarrow> oe_Status y \<in> known_statuses"
  shows "delivery_ok ob' P'"
proof (rule delivery_okI)
  fix k y assume y: "ob' k = Some y"
  with redelivered_None [OF assms(2), of k] obtain x where x: "ob k = Some x" by (cases "ob k") auto
  from redeliveredE [OF assms(2) x] y have "log_key y = log_key x"
    "oe_Status y = ''published'' \<longrightarrow> oe_Status x = ''published'' \<or> (k, HandlerName) \<in> P'" by auto
  with delivery_okD [OF assms(1) x] assms(3,5) y
  show "oe_EventType y \<in> known_types \<and> oe_Status y \<in> known_statuses \<and> (oe_Status y = ''published'' \<longrightarrow> (k, HandlerName) \<in> P')"
    by (auto simp: log_key_def)
next
  have "dom ob \<subseteq> dom ob'" using redeliveredE [OF assms(2)] by blast
  with assms(4) show "P' \<subseteq> dom ob' \<times> {HandlerName}" by blast
qed

lemma moved_pc:
  assumes "pc_ok ob P pc" "redelivered P' ob ob'" "P \<subseteq> P'"
  shows "pc_ok ob' P' pc"
  unfolding pc_ok_def
proof (intro conjI ballI)
  fix x assume "x \<in> set (held pc)"
  with assms(1) obtain y where y: "ob (oe_ID x) = Some y" "oe_EventType y = oe_EventType x" by (auto simp: pc_ok_def)
  from redeliveredE [OF assms(2) y(1)] obtain z where "ob' (oe_ID x) = Some z" "log_key z = log_key y" by blast
  with y(2) show "\<exists>y. ob' (oe_ID x) = Some y \<and> oe_EventType y = oe_EventType x" by (auto simp: log_key_def)
next
  fix k assume "k \<in> settled pc"
  with assms(1,3) show "(k, HandlerName) \<in> P'" by (auto simp: pc_ok_def)
qed

lemma redelivered_same_log:
  assumes "redelivered P ob ob'"
  shows "same_log ob ob'"
  unfolding same_log_def
proof
  fix k
  show "map_option log_key (ob' k) = map_option log_key (ob k)"
    using redelivered_None [OF assms, of k] redeliveredE [OF assms, of k] by (cases "ob k") fastforce+
qed

text \<open>A new entry is pending and of a known type.\<close>

lemma announced_delivery:
  assumes "delivery_ok ob P" "announced R ev ob ob'"
  shows "delivery_ok ob' P"
proof -
  from assms(2) obtain x where x: "entry_for R ev x" "ob (oe_ID x) = None" "ob' = ob(oe_ID x \<mapsto> x)"
    by (auto simp: announced_def)
  have "oe_EventType x \<in> known_types \<and> oe_Status x = ''pending''"
    using x(1) by (cases ev) (simp_all add: entry_for_def known_types_def)
  with assms(1) x(3) show ?thesis by (auto simp: delivery_ok_def known_statuses_def)
qed

lemma announced_pc:
  assumes "pc_ok ob P pc" "announced R ev ob ob'"
  shows "pc_ok ob' P pc"
proof -
  from assms(2) obtain x where "ob (oe_ID x) = None" "ob' = ob(oe_ID x \<mapsto> x)" by (auto simp: announced_def)
  then have "ob' (oe_ID y) = Some z" if "ob (oe_ID y) = Some z" for y z using that by auto
  with assms(1) show ?thesis by (auto simp: pc_ok_def) blast
qed

section \<open>Turns of a relay\<close>

lemma updated_statuses:
  assumes "entries_updated Q g m m'" "\<And>k x. m k = Some x \<Longrightarrow> oe_Status x \<in> S" "\<And>x. oe_Status (g x) \<in> S"
    and "m' k = Some y"
  shows "oe_Status y \<in> S"
proof -
  have u: "case m k of None \<Rightarrow> m' k = None
      | Some x \<Rightarrow> if Q x then \<exists>y. m' k = Some y \<and> kept (g x) y else m' k = Some x"
    using assms(1) by (simp add: entries_updated_def)
  have "kept a b \<Longrightarrow> oe_Status b = oe_Status a" for a b by (cases a; cases b) (simp add: kept_def)
  with u assms(2) [of k] assms(3,4) show ?thesis by (auto split: option.splits if_splits)
qed

text \<open>
  A step of the relays: the orders stay, the outbox moves on, what was handled stays handled, and the
  invariant holds on.
\<close>

definition moves :: "('w \<Rightarrow> tables) \<Rightarrow> 'w \<Rightarrow> 'w \<Rightarrow> bool" where
  "moves view w w' \<longleftrightarrow> stored_orders (view w') = stored_orders (view w) \<and>
     handled_keys view w \<subseteq> handled_keys view w' \<and>
     redelivered (handled_keys view w') (stored_events (view w)) (stored_events (view w')) \<and>
     (delivery_ok (stored_events (view w)) (handled_keys view w) \<longrightarrow>
        delivery_ok (stored_events (view w')) (handled_keys view w'))"

lemma moves_rest: "rest_part (view w') = rest_part (view w) \<Longrightarrow> moves view w w'"
  using rest_part_parts [of "view w'" "view w"] write_part_events [of "view w'" "view w"]
  by (simp add: moves_def redelivered_refl)

lemma moves_read:
  assumes "write_part (view w') = write_part (view w)"
    and "handled_keys view w \<subseteq> handled_keys view w'"
    and "delivery_ok (stored_events (view w)) (handled_keys view w) \<Longrightarrow>
      handled_keys view w' \<subseteq> dom (stored_events (view w)) \<times> {HandlerName}"
  shows "moves view w w'"
  using assms write_part_events [OF assms(1)]
  by (auto simp: moves_def redelivered_refl intro: moved_delivery [OF _ redelivered_refl] dest: delivery_okD(2))

text \<open>A change of the outbox alone.\<close>

definition outbox_moves :: "('w \<Rightarrow> tables) \<Rightarrow> 'w \<Rightarrow> 'w \<Rightarrow> bool" where
  "outbox_moves view w w' \<longleftrightarrow> read_part (view w') = read_part (view w) \<and>
     stored_orders (view w') = stored_orders (view w) \<and>
     redelivered (handled_keys view w) (stored_events (view w)) (stored_events (view w')) \<and>
     ((\<forall>k x. stored_events (view w) k = Some x \<longrightarrow> oe_Status x \<in> known_statuses) \<longrightarrow>
        (\<forall>k y. stored_events (view w') k = Some y \<longrightarrow> oe_Status y \<in> known_statuses))"

lemma outbox_movesI:
  assumes "read_part (view w') = read_part (view w)" "stored_orders (view w') = stored_orders (view w)"
    and "redelivered (handled_keys view w) (stored_events (view w)) (stored_events (view w'))"
    and "\<And>k y. (\<And>k x. stored_events (view w) k = Some x \<Longrightarrow> oe_Status x \<in> known_statuses) \<Longrightarrow>
      stored_events (view w') k = Some y \<Longrightarrow> oe_Status y \<in> known_statuses"
  shows "outbox_moves view w w'"
  using assms by (simp add: outbox_moves_def)

lemma outbox_moves_same:
  "read_part (view w') = read_part (view w) \<Longrightarrow> stored_orders (view w') = stored_orders (view w) \<Longrightarrow>
     stored_events (view w') = stored_events (view w) \<Longrightarrow> outbox_moves view w w'"
  by (simp add: outbox_moves_def redelivered_refl)

lemma moves_outbox:
  assumes "outbox_moves view w w'"
  shows "moves view w w'"
proof -
  note o = assms [unfolded outbox_moves_def]
  have "delivery_ok (stored_events (view w')) (handled_keys view w)"
    if "delivery_ok (stored_events (view w)) (handled_keys view w)"
    by (rule moved_delivery [OF that]) (use that o in \<open>auto simp: delivery_ok_def\<close>)
  with o read_part_stored [of "view w'" "view w"] show ?thesis by (simp add: moves_def)
qed

lemma moves_pc: "moves view w w' \<Longrightarrow> pc_ok (stored_events (view w)) (handled_keys view w) pc \<Longrightarrow>
    pc_ok (stored_events (view w')) (handled_keys view w') pc"
  using moved_pc by (auto simp: moves_def)

lemma pc_ok_simps:
  "pc_ok ob P Waiting" "pc_ok ob P (Delivering []) "
  "pc_ok ob P (Delivering (x # xs)) \<longleftrightarrow> (\<exists>y. ob (oe_ID x) = Some y \<and> oe_EventType y = oe_EventType x) \<and> pc_ok ob P (Delivering xs)"
  "pc_ok ob P (Applying x xs) \<longleftrightarrow> pc_ok ob P (Delivering (x # xs))"
  "pc_ok ob P (Marking x xs) \<longleftrightarrow> pc_ok ob P (Delivering (x # xs))"
  "pc_ok ob P (Settling x (Some e) xs) \<longleftrightarrow> pc_ok ob P (Delivering (x # xs))"
  "pc_ok ob P (Settling x None xs) \<longleftrightarrow> (oe_ID x, HandlerName) \<in> P \<and> pc_ok ob P (Delivering (x # xs))"
  by (auto simp: pc_ok_def)

context gorm_platform begin

lemma checked_moves:
  assumes "run_state (ps_IsProcessed (NewGormProcessedEventStore E) i h) w = (r, w')"
  shows "moves view w w' \<and> handled_keys view w' = handled_keys view w \<and> (r = Inr True \<longrightarrow> (i, h) \<in> handled_keys view w)"
proof -
  have "view w' = view w \<and> (r = Inr True \<longrightarrow> (i, h) \<in> handled_keys view w)"
    using assms by (cases r) (auto simp: NewGormProcessedEventStore_def dest: IsProcessed_ok IsProcessed_err)
  then show ?thesis using moves_rest [of view w' w] by simp
qed

lemma marked_moves:
  assumes "run_state (ps_MarkProcessed (NewGormProcessedEventStore E) i HandlerName) w = (r, w')"
    and "i \<in> dom (stored_events (view w))"
  shows "moves view w w' \<and> (\<forall>u. r = Inr u \<longrightarrow> (i, HandlerName) \<in> handled_keys view w')"
proof -
  have "handled_keys view w' = (case r of Inl e \<Rightarrow> handled_keys view w | Inr u \<Rightarrow> insert (i, HandlerName) (handled_keys view w))"
    using assms(1) by (cases r) (auto simp: NewGormProcessedEventStore_def dest: MarkProcessed_ok MarkProcessed_err)
  then show ?thesis using moves_read [of view w' w] ps_write(2) [OF assms(1)] assms(2)
    by (auto simp: delivery_ok_def split: sum.splits)
qed

lemma published_moves:
  assumes "run_state (ob_MarkPublished (NewGormOutboxStore E) i) w = (m, w')" "(i, HandlerName) \<in> handled_keys view w"
  shows "outbox_moves view w w'"
proof (rule outbox_movesI)
  fix k y assume s: "\<And>k x. stored_events (view w) k = Some x \<Longrightarrow> oe_Status x \<in> known_statuses" "stored_events (view w') k = Some y"
  show "oe_Status y \<in> known_statuses"
  proof (cases m)
    case (Inl e)
    with ob.published_err assms(1) s show ?thesis by metis
  next
    case (Inr u)
    with ob.published_ok assms(1) obtain now where
      "entries_updated (\<lambda>x. oe_ID x = i) (published_at now) (stored_events (view w)) (stored_events (view w'))" by blast
    from updated_statuses [OF this s(1) _ s(2)] show ?thesis by (simp add: published_at_def known_statuses_def)
  qed
qed (use mark_effect [OF assms] in auto)

lemma failed_moves:
  assumes "run_state (ob_MarkFailed (NewGormOutboxStore E) i msg) w = (m, w')"
    and "delivery_ok (stored_events (view w)) P"
  shows "outbox_moves view w w'"
proof (cases m)
  case (Inl e)
  with ob.failed_err assms(1) have same: "stored_events (view w') = stored_events (view w)"
    "outbox_frame (view w') = outbox_frame (view w)" by blast+
  then show ?thesis using read_part_frames(2) [OF same(2)] outbox_frame_write [OF same(2)]
    by (intro outbox_moves_same) simp_all
next
  case (Inr u)
  from ob.failed_ok [OF assms(1) [unfolded Inr]] obtain x y where f: "outbox_frame (view w') = outbox_frame (view w)"
    "stored_events (view w) i = Some x" "stored_events (view w') = (stored_events (view w))(i \<mapsto> y)"
    "oe_Status x \<noteq> '''' \<longrightarrow> attempted msg x y" by auto
  have "oe_Status x \<noteq> ''''" using delivery_okD(2) [OF assms(2) f(2)] by (auto simp: known_statuses_def)
  with f(4) obtain c at st where k: "st \<in> {oe_Status x, ''failed''}"
    "kept (x\<lparr>oe_RetryCount := c, oe_LastError := Some msg, oe_AvailableAt := at, oe_Status := st\<rparr>) y"
    by (auto simp: attempted_def)
  have y: "oe_Status y = st" "log_key y = log_key x" "oe_OccurredAt x \<noteq> time_zero \<longrightarrow> oe_OccurredAt y = oe_OccurredAt x"
    using k(2) by (cases y; cases x; simp add: kept_def log_key_def)+
  show ?thesis
  proof (rule outbox_movesI)
    show "redelivered (handled_keys view w) (stored_events (view w)) (stored_events (view w'))"
      using f(2,3) y k(1) by (auto simp: redelivered_def split: option.splits)
    show "oe_Status z \<in> known_statuses" if "\<And>k x. stored_events (view w) k = Some x \<Longrightarrow> oe_Status x \<in> known_statuses"
      "stored_events (view w') j = Some z" for j z
      using that(2) that(1) [OF f(2)] that(1) [of j] f(3) y(1) k(1) by (auto simp: known_statuses_def split: if_splits)
  qed (use read_part_frames(2) [OF f(1)] outbox_frame_write [OF f(1)] in simp_all)
qed

lemma requeued_moves:
  assumes "run_state (ob_RequeueFailed (NewGormOutboxStore E)) w = (r, w')"
  shows "outbox_moves view w w'"
proof (cases r)
  case (Inl e)
  with ob.requeue_err assms have same: "stored_events (view w') = stored_events (view w)"
    "outbox_frame (view w') = outbox_frame (view w)" by blast+
  then show ?thesis using read_part_frames(2) [OF same(2)] outbox_frame_write [OF same(2)]
    by (intro outbox_moves_same) simp_all
next
  case (Inr n)
  from ob.requeue_ok [OF assms [unfolded Inr]] obtain now where f: "outbox_frame (view w') = outbox_frame (view w)"
    "entries_updated (\<lambda>x. oe_Status x = ''failed'') (requeued_at now) (stored_events (view w)) (stored_events (view w'))"
    by blast
  show ?thesis
  proof (rule outbox_movesI)
    show "redelivered (handled_keys view w) (stored_events (view w)) (stored_events (view w'))"
      by (rule updated_redelivered [OF f(2)]) (simp_all add: requeued_at_def log_key_def)
    show "oe_Status z \<in> known_statuses" if "\<And>k x. stored_events (view w) k = Some x \<Longrightarrow> oe_Status x \<in> known_statuses"
      "stored_events (view w') j = Some z" for j z
      by (rule updated_statuses [OF f(2) that(1) _ that(2)]) (simp_all add: requeued_at_def known_statuses_def)
  qed (use read_part_frames(2) [OF f(1)] outbox_frame_write [OF f(1)] in simp_all)
qed

end

section \<open>The invariant\<close>

context gorm_platform begin

lemma relay_next_moves:
  assumes "run_state (relay_next E n pc) w = (pc', w')" "0 \<le> sint n"
    and "delivery_ok (stored_events (view w)) (handled_keys view w)"
    and "pc_ok (stored_events (view w)) (handled_keys view w) pc"
  shows "moves view w w' \<and> pc_ok (stored_events (view w')) (handled_keys view w') pc'"
  using assms
proof (cases pc rule: held.cases)
  case 1
  from assms(1) obtain f where F: "run_state (ob_FetchPending (NewGormOutboxStore E) n) w = (f, w')"
    "pc' = (case f of Inl err \<Rightarrow> Waiting | Inr events \<Rightarrow> Delivering events)" by (auto simp: 1 split: prod.splits)
  have "view w' = view w" using F(1) fetch_law [OF _ assms(2), of w _ w'] FetchPending_err [of n w _ w']
    by (cases f) (auto simp: NewGormOutboxStore_def)
  moreover have "pc_ok (stored_events (view w)) P pc'" for P
  proof (cases f)
    case (Inr xs)
    then show ?thesis using fetch_law [OF F(1) [unfolded Inr] assms(2)] F(2) by (auto simp: pc_ok_def)
  qed (simp add: F(2) pc_ok_simps)
  ultimately show ?thesis using moves_rest [of view w' w] by simp
next
  case (2 xs)
  show ?thesis
  proof (cases xs)
    case Nil
    with assms(1) have "w' = w" "pc' = Waiting" by (simp_all add: 2)
    then show ?thesis using moves_rest [of view w' w] by (simp add: pc_ok_simps)
  next
    case (Cons x ys)
    obtain y where y: "stored_events (view w) (oe_ID x) = Some y" "oe_EventType y = oe_EventType x"
      using assms(4) by (auto simp: 2 Cons pc_ok_simps)
    from known_type_handler(1) [of x E] delivery_okD(1) [OF assms(3) y(1)] y(2) obtain p where
      P: "run_state (ps_IsProcessed (NewGormProcessedEventStore E) (oe_ID x) HandlerName) w = (p, w')" and
      pc': "pc' = (case p of
          Inl err \<Rightarrow> Settling x (bus_error x (ErrWrap ''check processed event: '' err)) ys
        | Inr processed \<Rightarrow> if processed then Settling x None ys else Applying x ys)"
      using assms(1) by (auto simp: 2 Cons split: prod.splits)
    note c = checked_moves [OF P]
    have "pc_ok (stored_events (view w)) (handled_keys view w) pc'"
      using assms(4) c by (auto simp: 2 Cons pc' pc_ok_simps bus_error_def split: sum.splits)
    from moves_pc [OF c [THEN conjunct1] this] c show ?thesis by simp
  qed
next
  case (3 x xs)
  obtain y where y: "stored_events (view w) (oe_ID x) = Some y" "oe_EventType y = oe_EventType x"
    using assms(4) by (auto simp: 3 pc_ok_simps)
  from known_type_handler(2) [of x E "NewGormReadModelStore E"] delivery_okD(1) [OF assms(3) y(1)] y(2) obtain handle where
    H: "projection_switch E (NewGormReadModelStore E) x = Some handle" by auto
  from assms(1) H obtain r where R: "run_state handle w = (r, w')" and
    pc': "pc' = (case r of Inl err \<Rightarrow> Settling x (bus_error x err) xs | Inr _ \<Rightarrow> Marking x xs)"
    by (auto simp: 3 split: prod.splits)
  have "pc_ok (stored_events (view w)) (handled_keys view w) pc'"
    using assms(4) by (auto simp: 3 pc' pc_ok_simps bus_error_def split: sum.splits)
  with moves_rest [where view = view and w = w and w' = w', OF switch_rest [OF H R]] moves_pc [of view w w']
  show ?thesis by simp
next
  case (4 x xs)
  from assms(1) obtain m where
    M: "run_state (ps_MarkProcessed (NewGormProcessedEventStore E) (oe_ID x) HandlerName) w = (m, w')" and
    pc': "pc' = (case m of Inl err \<Rightarrow> Settling x (bus_error x (ErrWrap ''mark processed: '' err)) xs
      | Inr _ \<Rightarrow> Settling x None xs)" by (auto simp: 4 split: prod.splits)
  have x: "oe_ID x \<in> dom (stored_events (view w))" using assms(4) by (auto simp: 4 pc_ok_simps)
  note m = marked_moves [OF M x]
  from moves_pc [OF m [THEN conjunct1] assms(4)]
  have "pc_ok (stored_events (view w')) (handled_keys view w') (Delivering (x # xs))"
    by (simp only: 4 pc_ok_simps(5))
  with m show ?thesis by (auto simp: pc' pc_ok_simps bus_error_def split: sum.splits)
next
  case (5 x err xs)
  have rest: "pc_ok (stored_events (view w)) (handled_keys view w) (Delivering xs)"
    using assms(4) by (cases err) (auto simp: 5 pc_ok_simps)
  show ?thesis
  proof (cases err)
    case None
    with assms(1) obtain m where M: "run_state (ob_MarkPublished (NewGormOutboxStore E) (oe_ID x)) w = (m, w')"
      "pc' = Delivering xs" by (auto simp: 5 split: prod.splits)
    have "(oe_ID x, HandlerName) \<in> handled_keys view w" using assms(4) by (simp add: 5 None pc_ok_simps)
    with published_moves [OF M(1), THEN moves_outbox] rest moves_pc [of view w w'] M(2) show ?thesis by simp
  next
    case (Some e)
    with assms(1) obtain m where M: "run_state (ob_MarkFailed (NewGormOutboxStore E) (oe_ID x) (error_text e)) w = (m, w')"
      "pc' = Delivering xs" by (auto simp: 5 split: prod.splits)
    with failed_moves [OF M(1) assms(3), THEN moves_outbox] rest moves_pc [of view w w'] show ?thesis by simp
  qed
qed

lemma command_moves:
  assumes "delivery_ok (stored_events (view w)) (handled_keys view w)" "read_part (view w') = read_part (view w)"
    and "announced E ev (stored_events (view w)) (stored_events (view w'))"
  shows "delivery_ok (stored_events (view w')) (handled_keys view w') \<and>
    (\<forall>pc. pc_ok (stored_events (view w)) (handled_keys view w) pc \<longrightarrow> pc_ok (stored_events (view w')) (handled_keys view w') pc)"
  using announced_delivery [OF assms(1,3)] announced_pc [OF _ assms(3)] read_part_stored(1) [OF assms(2)] by simp

end

text \<open>A command leaves the database as it is or announces one event, beside the read side.\<close>

definition announces_one :: "('w, 'z) runtime_scheme \<Rightarrow> tables \<Rightarrow> tables \<Rightarrow> bool" where
  "announces_one R t t' \<longleftrightarrow> t' = t \<or> read_part t' = read_part t \<and> (\<exists>ev. announced R ev (stored_events t) (stored_events t'))"

text \<open>The invariant of a service with its relays.\<close>

definition service_ok :: "'w platform \<Rightarrow> ('w \<Rightarrow> tables) \<Rightarrow> 'w service \<Rightarrow> bool" where
  "service_ok E view s \<longleftrightarrow> (case s of (w, pcs) \<Rightarrow>
     log_ok E (stored_orders (view w)) (stored_events (view w)) \<and>
     delivery_ok (stored_events (view w)) (handled_keys view w) \<and>
     (\<forall>i. pc_ok (stored_events (view w)) (handled_keys view w) (pcs i)))"

context gorm_platform begin

lemma command_announces:
  assumes v: "\<And>oid p. stored_orders (view w) oid = Some p \<Longrightarrow> p_version p \<noteq> 0"
  shows "run_state (CreateOrderHandler_Handle E (NewGormUnitOfWork E) c) w = (r, w') \<Longrightarrow> announces_one E (view w) (view w')"
    and "run_state (AddItemHandler_Handle E (NewGormUnitOfWork E) a) w = (ra, w') \<Longrightarrow> announces_one E (view w) (view w')"
    and "run_state (ConfirmOrderHandler_Handle E (NewGormUnitOfWork E) f) w = (rf, w') \<Longrightarrow> announces_one E (view w) (view w')"
proof -
  show "announces_one E (view w) (view w')" if r: "run_state (CreateOrderHandler_Handle E (NewGormUnitOfWork E) c) w = (r, w')"
  proof (cases r)
    case (Inr s)
    have "read_part (view w') = read_part (view w)"
      by (rule uow.create_keeps [of "\<lambda>w. read_part (view w)", OF keep_read r [unfolded Inr]])
    with create_effect_law [OF r [unfolded Inr]] show ?thesis by (auto simp: announces_one_def)
  qed (use create_err_view r in \<open>auto simp: announces_one_def\<close>)
  show "announces_one E (view w) (view w')" if r: "run_state (AddItemHandler_Handle E (NewGormUnitOfWork E) a) w = (ra, w')"
  proof (cases ra)
    case (Inr s)
    have "\<exists>ev. add_effect E a (stored_orders (view w)) (stored_orders (view w')) ev \<and>
        announced E ev (stored_events (view w)) (stored_events (view w'))"
      by (rule uow.Add_ok [OF r [unfolded Inr] v])
    moreover have "read_part (view w') = read_part (view w)"
      by (rule uow.add_keeps [of "\<lambda>w. read_part (view w)", OF keep_read r [unfolded Inr] v])
    ultimately show ?thesis by (auto simp: announces_one_def)
  qed (use add_err_view r in \<open>auto simp: announces_one_def\<close>)
  show "announces_one E (view w) (view w')" if r: "run_state (ConfirmOrderHandler_Handle E (NewGormUnitOfWork E) f) w = (rf, w')"
  proof (cases rf)
    case (Inr s)
    have "\<exists>ev. confirm_effect E f (stored_orders (view w)) (stored_orders (view w')) ev \<and>
        announced E ev (stored_events (view w)) (stored_events (view w'))"
      by (rule uow.Confirm_ok [OF r [unfolded Inr] v])
    moreover have "read_part (view w') = read_part (view w)"
      by (rule uow.confirm_keeps [of "\<lambda>w. read_part (view w)", OF keep_read r [unfolded Inr] v])
    ultimately show ?thesis by (auto simp: announces_one_def)
  qed (use confirm_err_view r in \<open>auto simp: announces_one_def\<close>)
qed

lemma command_kept:
  assumes "service_ok E view (w, pcs)" "log_ok E (stored_orders (view w')) (stored_events (view w'))"
    and "announces_one E (view w) (view w')"
  shows "service_ok E view (w', pcs)"
  using assms(3) unfolding announces_one_def
proof (elim disjE conjE exE)
  assume "view w' = view w"
  with assms(1) show ?thesis by (simp add: service_ok_def)
next
  fix ev assume "read_part (view w') = read_part (view w)" "announced E ev (stored_events (view w)) (stored_events (view w'))"
  from command_moves [OF _ this] assms(1,2) show ?thesis by (simp add: service_ok_def)
qed

lemma moves_kept:
  assumes "service_ok E view (w, pcs)" "moves view w w'" "\<And>j. j \<noteq> i \<Longrightarrow> pcs' j = pcs j"
    and "pc_ok (stored_events (view w')) (handled_keys view w') (pcs' i)"
  shows "service_ok E view (w', pcs')"
proof -
  have "pc_ok (stored_events (view w')) (handled_keys view w') (pcs' j)" for j
    using moves_pc [OF assms(2), of "pcs j"] assms(1,3,4) by (cases "j = i") (auto simp: service_ok_def)
  moreover have "log_ok E (stored_orders (view w')) (stored_events (view w'))"
    using same_log_ok [OF redelivered_same_log] assms(1,2) by (auto simp: service_ok_def moves_def)
  ultimately show ?thesis using assms(1,2) by (simp add: service_ok_def moves_def)
qed

lemma delivery_kept:
  assumes "delivery_step E s s'" "service_ok E view s"
  shows "service_ok E view s'"
  using assms
proof (induction rule: delivery_step.induct)
  case (requeue w q w' pcs)
  from requeued_moves [OF requeue(1), THEN moves_outbox] show ?case
    by (intro moves_kept [OF requeue(2), where i = 0]) (use requeue(2) moves_pc [of view w w' "pcs 0"] in \<open>simp_all add: service_ok_def\<close>)
next
  case (relay n pcs i w pc w')
  from relay_next_moves [OF relay(1,2)] relay(3)
  have "moves view w w'" "pc_ok (stored_events (view w')) (handled_keys view w') pc" by (simp_all add: service_ok_def)
  then show ?case by (intro moves_kept [OF relay(3), where i = i]) simp_all
next
  case (restart w pcs i)
  then show ?case by (auto simp: service_ok_def pc_ok_simps)
qed

lemma step_kept:
  assumes "service_step E s s'" "service_ok E view s"
  shows "service_ok E view s'"
  using assms
proof (induction rule: service_step.induct)
  case (create c w r w' pcs)
  have log: "log_ok E (stored_orders (view w)) (stored_events (view w))" using create(2) by (simp add: service_ok_def)
  from command_kept [OF create(2) _ command_announces(1) [OF log_ok_version [OF log] create(1)]]
    uow.history_step(1) [OF log create(1)] show ?case by simp
next
  case (add_item a w r w' pcs)
  have log: "log_ok E (stored_orders (view w)) (stored_events (view w))" using add_item(2) by (simp add: service_ok_def)
  from command_kept [OF add_item(2) _ command_announces(2) [OF log_ok_version [OF log] add_item(1)]]
    uow.history_step(2) [OF log add_item(1)] show ?case by simp
next
  case (confirm_order f w r w' pcs)
  have log: "log_ok E (stored_orders (view w)) (stored_events (view w))" using confirm_order(2) by (simp add: service_ok_def)
  from command_kept [OF confirm_order(2) _ command_announces(3) [OF log_ok_version [OF log] confirm_order(1)]]
    uow.history_step(3) [OF log confirm_order(1)] show ?case by simp
next
  case (delivery s s')
  then show ?case using delivery_kept by blast
qed

lemma run_kept: "service_run E s s' \<Longrightarrow> service_ok E view s \<Longrightarrow> service_ok E view s'"
  by (induction rule: rtranclp_induct) (auto intro: step_kept)

end

section \<open>When everything is delivered\<close>

definition all_published :: "(uuid \<Rightarrow> OutboxEvent option) \<Rightarrow> bool" where
  "all_published ob \<longleftrightarrow> (\<forall>k x. ob k = Some x \<longrightarrow> oe_Status x = ''published'')"

context gorm_platform begin

lemma delivered_step:
  assumes "delivery_step E s s'" "all_published (stored_events (view (fst s)))" "\<forall>i. held (snd s i) = []"
  shows "read_part (view (fst s')) = read_part (view (fst s)) \<and> stored_events (view (fst s')) = stored_events (view (fst s)) \<and>
    (\<forall>i. held (snd s' i) = [])"
  using assms
proof (induction rule: delivery_step.induct)
  case (requeue w q w' pcs)
  show ?case
  proof (cases q)
    case (Inl e)
    from ob.requeue_err [OF requeue(1) [unfolded Inl]] requeue(3) show ?thesis
      using read_part_frames(2) [of "view w'" "view w"] by simp
  next
    case (Inr n)
    from ob.requeue_ok [OF requeue(1) [unfolded Inr]] obtain now where f: "outbox_frame (view w') = outbox_frame (view w)"
      "entries_updated (\<lambda>x. oe_Status x = ''failed'') (requeued_at now) (stored_events (view w)) (stored_events (view w'))"
      by blast
    have "stored_events (view w') k = stored_events (view w) k" for k
    proof -
      have u: "case stored_events (view w) k of None \<Rightarrow> stored_events (view w') k = None
        | Some x \<Rightarrow> if oe_Status x = ''failed'' then \<exists>y. stored_events (view w') k = Some y \<and> kept (requeued_at now x) y
            else stored_events (view w') k = Some x"
        using f(2) by (simp add: entries_updated_def)
      have "stored_events (view w) k = Some x \<Longrightarrow> oe_Status x = ''published''" for x
        using requeue(2) by (simp add: all_published_def)
      with u show ?thesis by (cases "stored_events (view w) k") auto
    qed
    with f(1) read_part_frames(2) [of "view w'" "view w"] requeue(3) show ?thesis by auto
  qed
next
  case (relay n pcs i w pc w')
  have "pcs i = Waiting \<or> pcs i = Delivering []" using relay(4) by (cases "pcs i") (auto dest: spec [of _ i])
  then have "view w' = view w \<and> held pc = []"
  proof
    assume W: "pcs i = Waiting"
    from relay(1) obtain f where F: "run_state (ob_FetchPending (NewGormOutboxStore E) n) w = (f, w')"
      "pc = (case f of Inl err \<Rightarrow> Waiting | Inr events \<Rightarrow> Delivering events)" by (auto simp: W split: prod.splits)
    show ?thesis
    proof (cases f)
      case (Inl e)
      with F show ?thesis using FetchPending_err [of n w e w'] by (auto simp: NewGormOutboxStore_def)
    next
      case (Inr xs)
      from fetch_law [OF F(1) [unfolded Inr] relay(2)] relay(3) have "view w' = view w" "xs = []"
        by (auto simp: all_published_def) (cases xs; fastforce)
      with F(2) Inr show ?thesis by simp
    qed
  next
    assume "pcs i = Delivering []"
    with relay(1) show ?thesis by auto
  qed
  with relay(4) show ?case by simp
next
  case (restart w pcs i)
  then show ?case by simp
qed

lemma delivered_run:
  assumes "delivery_run E s s'" "all_published (stored_events (view (fst s)))" "\<forall>i. held (snd s i) = []"
  shows "read_part (view (fst s')) = read_part (view (fst s)) \<and> all_published (stored_events (view (fst s'))) \<and>
    (\<forall>i. held (snd s' i) = [])"
  using assms by (induction rule: rtranclp_induct) (auto dest: delivered_step)

end

end
