(* ===== verification/Interleaving_Properties.thy ===== *)
theory Interleaving_Properties imports Interleaving begin

text \<open>
  What holds of every schedule of relays and commands, and two schedules that leave the read model
  wrong for good: two relays of which one stalls, and one relay one of whose deliveries fails.
\<close>

section \<open>A stalled relay\<close>

text \<open>
  After the three commands, relay 1 fetches one entry, the creation of the order, and sees that it was
  not handled; relay 0 handles all three; then relay 1 goes on.
\<close>

abbreviation sc_created :: OutboxEvent where
  "sc_created \<equiv> to_port_event sc_e1"

abbreviation sc_held :: "nat \<Rightarrow> relay_pc" where
  "sc_held \<equiv> all_waiting(1 := Applying sc_created [])"

lemma sc_fetch_one:
  "run_state (GormOutboxStore_FetchPending mem_platform 1) sc_w3 = (Inr [sc_created], sc_w3)"
  unfolding sc_w3_r by (simp add: GormOutboxStore_FetchPending_def mem_eval sc_relay)

lemma sc_check_one:
  "run_state (ps_IsProcessed (NewGormProcessedEventStore mem_platform) 2 HandlerName) sc_w3 = (Inr False, sc_w3)"
  unfolding sc_w3_r by (simp add: sc_handle)

lemma sc_first_turns: "turns mem_platform 1 [1, 1] (sc_w3, all_waiting) = (sc_w3, sc_held)"
  using bus_handlers_cases [of mem_platform "''OrderCreated''"] known_type_handler(1) [of sc_created mem_platform]
  by (simp add: sc_fetch_one sc_check_one known_types_def)

definition sc_stalled :: mem where
  "sc_stalled = sc_r 19 [] [sc_p sc_e3 16, sc_p sc_e2 14, sc_p sc_e1 18]
     [sc_processed 5 15, sc_processed 4 13, sc_processed 2 10]
     [sc_view ''DRAFT'' 1500 1 2] [sc_item_view 12]"

lemma sc_apply_late:
  "projection_switch mem_platform (NewGormReadModelStore mem_platform) sc_created =
     Some (handleOrderCreated mem_platform (NewGormReadModelStore mem_platform) sc_created)"
  "run_state (handleOrderCreated mem_platform (NewGormReadModelStore mem_platform) sc_created) sc_r_done =
     (Inr (), sc_r_done\<lparr>m_order_views := [sc_view ''DRAFT'' 1500 1 2]\<rparr>)"
  by (simp_all add: projection_switch_def sc_r_done_def sc_handle sc_entries merge_view_def nonzero_def)

lemma sc_mark_late:
  "run_state (ps_MarkProcessed (NewGormProcessedEventStore mem_platform) 2 HandlerName)
       (sc_r_done\<lparr>m_order_views := [sc_view ''DRAFT'' 1500 1 2]\<rparr>) =
     (Inr (), sc_r_done\<lparr>m_clock := 18, m_order_views := [sc_view ''DRAFT'' 1500 1 2]\<rparr>)"
  by (simp add: sc_r_done_def sc_handle)

lemma sc_publish_late:
  "run_state (GormOutboxStore_MarkPublished mem_platform 2)
       (sc_r_done\<lparr>m_clock := 18, m_order_views := [sc_view ''DRAFT'' 1500 1 2]\<rparr>) = (Inr (), sc_stalled)"
proof -
  have *: "sc_r_done\<lparr>m_clock := 18, m_order_views := [sc_view ''DRAFT'' 1500 1 2]\<rparr> =
    sc_r 18 [] [sc_p sc_e3 16, sc_p sc_e2 14, sc_p sc_e1 11]
      [sc_processed 5 15, sc_processed 4 13, sc_processed 2 10] [sc_view ''DRAFT'' 1500 1 2] [sc_item_view 12]"
    by (simp add: sc_r_done_def sc_r_def)
  show ?thesis unfolding * by (subst mem_mark_published) (simp_all add: sc_stalled_def sc_p_def)
qed

lemma sc_late_turns: "turns mem_platform 1 [1, 1, 1, 1] (sc_r_done, sc_held) = (sc_stalled, all_waiting)"
  by (simp add: sc_apply_late sc_mark_late sc_publish_late fun_upd_idem)

lemma sc_batch_beside: "delivery_run mem_platform (sc_w3, sc_held) (sc_r_done, sc_held)"
  by (rule batch_run [OF sc_batch, where i = 0]) simp_all

lemma sc_commands: "service_run mem_platform (mem_empty, all_waiting) (sc_w3, all_waiting)"
proof -
  have "service_step mem_platform (mem_empty, all_waiting) (sc_w1, all_waiting)"
    by (rule service_step.create [OF sc_create_run [unfolded sc_uow_def]])
  moreover have "service_step mem_platform (sc_w1, all_waiting) (sc_w2, all_waiting)"
    by (rule service_step.add_item [OF sc_add_run [unfolded sc_uow_def]])
  moreover have "service_step mem_platform (sc_w2, all_waiting) (sc_w3, all_waiting)"
    by (rule service_step.confirm_order [OF sc_confirm_run [unfolded sc_uow_def]])
  ultimately show ?thesis by (meson converse_rtranclp_into_rtranclp rtranclp.rtrancl_refl)
qed

lemma sc_stalled_run: "service_run mem_platform (mem_empty, all_waiting) (sc_stalled, all_waiting)"
proof -
  have "delivery_run mem_platform (sc_w3, all_waiting) (sc_w3, sc_held)"
    using turns_run [of "1 :: go_int" mem_platform "(sc_w3, all_waiting)" "[1, 1]"] by (simp only: sc_first_turns) simp
  moreover have "delivery_run mem_platform (sc_r_done, sc_held) (sc_stalled, all_waiting)"
    using turns_run [of "1 :: go_int" mem_platform "(sc_r_done, sc_held)" "[1, 1, 1, 1]"] by (simp only: sc_late_turns) simp
  ultimately show ?thesis
    using sc_commands sc_batch_beside delivery_service by (meson rtranclp_trans)
qed

text \<open>The tables at the end.\<close>

lemma sc_stalled_tables:
  "stored_events (mem_view sc_stalled) = [5 \<mapsto> to_port_event (sc_p sc_e3 16), 4 \<mapsto> to_port_event (sc_p sc_e2 14),
     2 \<mapsto> to_port_event (sc_p sc_e1 18)]"
  by (rule ext) (simp add: sc_stalled_def stored_events_def mem_view_def mem_map_def mem_rows_def sc_r_def)

lemma sc_stalled_published: "all_published (stored_events (mem_view sc_stalled))"
  by (simp add: sc_stalled_tables all_published_def sc_p_def to_port_event_def)

lemma sc_stalled_order: "\<exists>p. stored_orders (mem_view sc_stalled) (OrderID 1) = Some p \<and> p_status p = StatusConfirmed"
  by (simp add: StatusConfirmed_def sc_stalled_def stored_orders_def mem_view_def mem_map_def mem_rows_def sc_r_def sc_w3_def sc_row_def
      items_of_def rows_of_def)

lemma sc_stalled_view: "\<exists>r. stored_views (mem_view sc_stalled) 1 = Some r \<and> vr_status r = ''DRAFT''"
  by (simp add: sc_stalled_def stored_views_def mem_view_def mem_map_def mem_rows_def sc_r_def sc_view_def view_of_model_def
      to_order_view_def view_row_of_def)

section \<open>Properties\<close>

text \<open>C3: However the turns of any number of relays interleave with the commands, with requeueing, with failing
  calls and with restarts, from a database where it holds: the outbox agrees with the orders, every
  entry has one of the three statuses, an entry that is published was handled by the projection, and
  nothing was handled that is not in the outbox.\<close>

theorem interleaved_relays_deliver:
  assumes "gorm_platform E view" and "service_run E (w0, all_waiting) (w, pcs)"
    and "log_ok E (stored_orders (view w0)) (stored_events (view w0))"
    and "delivery_ok (stored_events (view w0)) (stored_processed_events (view w0))"
  shows "log_ok E (stored_orders (view w)) (stored_events (view w)) \<and>
    (\<forall>k x. stored_events (view w) k = Some x \<longrightarrow> oe_Status x \<in> {''pending'', ''published'', ''failed''} \<and>
       (oe_Status x = ''published'' \<longrightarrow> (k, HandlerName) \<in> stored_processed_events (view w))) \<and>
    stored_processed_events (view w) \<subseteq> dom (stored_events (view w)) \<times> {HandlerName}"
proof -
  have "service_ok E view (w0, all_waiting)" using assms(3,4) by (simp add: service_ok_def pc_ok_simps)
  from gorm_platform.run_kept [OF assms(1,2) this] show ?thesis
    by (auto simp: service_ok_def delivery_ok_def known_statuses_def)
qed

theorem interleaved_relays_deliver_witness:
  "(2, HandlerName) \<in> stored_processed_events (mem_view sc_stalled) \<and>
   log_ok mem_platform (stored_orders (mem_view sc_stalled)) (stored_events (mem_view sc_stalled))"
proof -
  have "delivery_ok (stored_events (mem_view mem_empty)) (stored_processed_events (mem_view mem_empty))"
    by (simp add: mem_view_empty empty_tables_def delivery_ok_def stored_events_def stored_processed_events_def)
  note i = interleaved_relays_deliver [OF mem.gorm_platform_axioms sc_stalled_run _ this]
  have "stored_events (mem_view sc_stalled) 2 = Some (to_port_event (sc_p sc_e1 18))"
    "oe_Status (to_port_event (sc_p sc_e1 18)) = ''published''"
    by (simp_all add: sc_stalled_tables sc_p_def to_port_event_def)
  with i show ?thesis by (simp add: mem_view_empty log_ok_empty)
qed

text \<open>C6: Two relays may leave the read model wrong for good.  There is a schedule of the three commands and
  two relays, without any failure, after which the order is confirmed, every entry is published and
  handled, no relay has work, and the view says DRAFT; and no further delivery, requeueing or restart
  changes that.\<close>

theorem stalled_relay_reverts_view:
  "\<exists>w. service_run mem_platform (mem_empty, all_waiting) (w, all_waiting) \<and>
     (\<exists>p. stored_orders (mem_view w) (OrderID 1) = Some p \<and> p_status p = StatusConfirmed) \<and>
     all_published (stored_events (mem_view w)) \<and>
     (\<forall>w' pcs'. delivery_run mem_platform (w, all_waiting) (w', pcs') \<longrightarrow>
        (\<exists>r. stored_views (mem_view w') 1 = Some r \<and> vr_status r = ''DRAFT''))"
proof (intro exI [of _ sc_stalled] conjI allI impI)
  show "service_run mem_platform (mem_empty, all_waiting) (sc_stalled, all_waiting)" by (rule sc_stalled_run)
  show "all_published (stored_events (mem_view sc_stalled))" by (rule sc_stalled_published)
  show "\<exists>p. stored_orders (mem_view sc_stalled) (OrderID 1) = Some p \<and> p_status p = StatusConfirmed"
    by (rule sc_stalled_order)
next
  fix w' pcs' assume "delivery_run mem_platform (sc_stalled, all_waiting) (w', pcs')"
  from mem.delivered_run [OF this] sc_stalled_published
  have "read_part (mem_view w') = read_part (mem_view sc_stalled)" by simp
  from read_part_stored(2) [OF this] sc_stalled_view
  show "\<exists>r. stored_views (mem_view w') 1 = Some r \<and> vr_status r = ''DRAFT''" by simp
qed

theorem stalled_relay_reverts_view_witness:
  "\<exists>w p r. stored_orders (mem_view w) (OrderID 1) = Some p \<and> p_status p = StatusConfirmed \<and>
     stored_views (mem_view w) 1 = Some r \<and> vr_status r = ''DRAFT''"
proof -
  from stalled_relay_reverts_view obtain w p where
    w: "stored_orders (mem_view w) (OrderID 1) = Some p" "p_status p = StatusConfirmed"
      "\<forall>w' pcs'. delivery_run mem_platform (w, all_waiting) (w', pcs') \<longrightarrow>
        (\<exists>r. stored_views (mem_view w') 1 = Some r \<and> vr_status r = ''DRAFT'')" by blast
  have "delivery_run mem_platform (w, all_waiting) (w, all_waiting)" by simp
  with w(3) obtain r where "stored_views (mem_view w) 1 = Some r" "vr_status r = ''DRAFT''" by blast
  with w(1,2) show ?thesis by blast
qed

section \<open>A delivery that fails once\<close>

text \<open>After the three commands; the third call of the batch, the insertion of the order's view, finds no connection.\<close>

definition sc_first_batch :: mem where
  "sc_first_batch = sc_w3\<lparr>m_faults := [False, False, True]\<rparr>"

lemma sc_first_batch_run: "run_state (relay_batch mem_platform 100) sc_first_batch = ((1, 2), sc_r_fault)"
proof -
  have "sc_first_batch = sc_r 10 [False, False, True] [sc_e3, sc_e2, sc_e1] [] [] []"
    by (simp add: sc_first_batch_def sc_w3_r) (simp add: sc_r_def)
  then show ?thesis using sc_batch_fault by simp
qed

lemma sc_fault_tables:
  "stored_events (mem_view sc_r_fault) = [5 \<mapsto> to_port_event (sc_p sc_e3 14), 2 \<mapsto> to_port_event sc_f1, 4 \<mapsto> to_port_event sc_f2]"
  by (simp add: fun_eq_iff stored_events_def mem_view_def mem_map_def mem_rows_def sc_r_fault_def sc_r_def)

lemma sc_again_tables:
  "stored_events (mem_view sc_r_again) = [5 \<mapsto> to_port_event (sc_p sc_e3 14),
     2 \<mapsto> to_port_event (sc_p sc_f1 5000001), 4 \<mapsto> to_port_event (sc_p sc_f2 5000004)]"
  by (simp add: fun_eq_iff stored_events_def mem_view_def mem_map_def mem_rows_def sc_r_again_def sc_r_def)

lemma sc_again_published: "all_published (stored_events (mem_view sc_r_again))"
  by (simp add: sc_again_tables all_published_def) (simp add: sc_p_def to_port_event_def)

lemma sc_again_order: "\<exists>p. stored_orders (mem_view sc_r_again) (OrderID 1) = Some p \<and> p_status p = StatusConfirmed"
  by (simp add: StatusConfirmed_def sc_r_again_def stored_orders_def mem_view_def mem_map_def mem_rows_def sc_r_def sc_w3_def sc_row_def
      items_of_def rows_of_def)

text \<open>C30: One relay and one failing call may leave the read model wrong for good.  After the three
  commands, the delivery of \<^verbatim>\<open>OrderCreated\<close> fails once, for a lost connection: its entry stays pending
  with that error, and so does that of the item; the batch goes on all the same and publishes the
  confirmation, which updated no row.  The next batch publishes the two others.  Then every entry is
  published and the order is confirmed, the view says DRAFT, and no further delivery, requeueing or
  restart changes that.\<close>

theorem lost_confirmation:
  "service_run mem_platform (mem_empty, all_waiting) (sc_w3, all_waiting) \<and>
   (\<exists>w1 w2 x p.
     run_state (relay_batch mem_platform 100) (sc_w3\<lparr>m_faults := [False, False, True]\<rparr>) = ((1, 2), w1) \<and>
     stored_events (mem_view w1) 2 = Some x \<and> oe_EventType x = ''OrderCreated'' \<and> oe_Status x = ''pending'' \<and> oe_RetryCount x = 1 \<and>
     oe_LastError x = Some (error_text (ErrWrap ''handler error for OrderCreated: '' (ErrDriver ''connection refused''))) \<and>
     run_state (relay_batch mem_platform 100) (w1\<lparr>m_clock := 5000000\<rparr>) = ((2, 0), w2) \<and>
     all_published (stored_events (mem_view w2)) \<and>
     stored_orders (mem_view w2) (OrderID 1) = Some p \<and> p_status p = StatusConfirmed \<and>
     (\<forall>w' pcs'. delivery_run mem_platform (w2, all_waiting) (w', pcs') \<longrightarrow>
        (\<exists>r. stored_views (mem_view w') 1 = Some r \<and> vr_status r = ''DRAFT'')))"
proof -
  obtain p where "stored_orders (mem_view sc_r_again) (OrderID 1) = Some p" "p_status p = StatusConfirmed"
    using sc_again_order by blast
  note order = this
  have first: "stored_events (mem_view sc_r_fault) 2 = Some (to_port_event sc_f1)" by (simp add: sc_fault_tables)
  show ?thesis
  proof (rule conjI [OF sc_commands], rule exI [of _ sc_r_fault], rule exI [of _ sc_r_again], rule exI [of _ "to_port_event sc_f1"],
      rule exI [of _ p], intro conjI allI impI)
    show "run_state (relay_batch mem_platform 100) (sc_w3\<lparr>m_faults := [False, False, True]\<rparr>) = ((1, 2), sc_r_fault)"
      using sc_first_batch_run by (simp only: sc_first_batch_def)
    fix w' pcs' assume "delivery_run mem_platform (sc_r_again, all_waiting) (w', pcs')"
    from mem.delivered_run [OF this] sc_again_published
    have "read_part (mem_view w') = read_part (mem_view sc_r_again)" by simp
    from read_part_stored(2) [OF this] show "\<exists>r. stored_views (mem_view w') 1 = Some r \<and> vr_status r = ''DRAFT''"
      by (simp add: sc_r_again_def mem_rows_def sc_view_def view_of_model_def to_order_view_def view_row_of_def)
  qed (simp_all add: first order sc_batch_again sc_again_published, simp_all add: to_port_event_def sc_f1_def sc_sent_def sc_e1_def sc_entry_def)
qed

theorem lost_confirmation_witness:
  "\<exists>w p r. all_published (stored_events (mem_view w)) \<and> stored_orders (mem_view w) (OrderID 1) = Some p \<and>
     p_status p = StatusConfirmed \<and> stored_views (mem_view w) 1 = Some r \<and> vr_status r = ''DRAFT''"
proof -
  from lost_confirmation obtain w p where
    w: "all_published (stored_events (mem_view w))" "stored_orders (mem_view w) (OrderID 1) = Some p" "p_status p = StatusConfirmed"
      "\<forall>w' pcs'. delivery_run mem_platform (w, all_waiting) (w', pcs') \<longrightarrow>
        (\<exists>r. stored_views (mem_view w') 1 = Some r \<and> vr_status r = ''DRAFT'')" by blast
  have "delivery_run mem_platform (w, all_waiting) (w, all_waiting)" by simp
  with w(4) obtain r where "stored_views (mem_view w) 1 = Some r" "vr_status r = ''DRAFT''" by blast
  with w(1-3) show ?thesis by blast
qed

end
