(* ===== verification/Eventual_Consistency.thy ===== *)
theory Eventual_Consistency imports Calm_Run begin

text \<open>
  Eventual consistency of the read model: in a run whose batches fail no delivery and overtake
  no event, every view shows a state its order has had, and once the entries of an order are
  all published, its present one.
\<close>

section \<open>Calm runs\<close>

text \<open>
  The steps of the service, from the empty database.  Events of one order carry increasing
  instants, a batch may leave out entries but delivers those it fetched and in the order in which
  the events of each order occurred, and totals stay within 64 bits.
\<close>

inductive calm_run :: "'w platform \<Rightarrow> ('w \<Rightarrow> tables) \<Rightarrow> 'w \<Rightarrow> bool" for E view where
  empty: "view w = empty_tables \<Longrightarrow> calm_run E view w"
| create: "calm_run E view w \<Longrightarrow> run_state (CreateOrderHandler_Handle E (NewGormUnitOfWork E) c) w = (r, w') \<Longrightarrow>
     in_order (stored_events (view w)) (stored_events (view w')) \<Longrightarrow> calm_run E view w'"
| add_item: "calm_run E view w \<Longrightarrow> run_state (AddItemHandler_Handle E (NewGormUnitOfWork E) a) w = (ra, w') \<Longrightarrow>
     in_order (stored_events (view w)) (stored_events (view w')) \<Longrightarrow> calm_run E view w'"
| confirm_order: "calm_run E view w \<Longrightarrow> run_state (ConfirmOrderHandler_Handle E (NewGormUnitOfWork E) f) w = (rf, w') \<Longrightarrow>
     in_order (stored_events (view w)) (stored_events (view w')) \<Longrightarrow> calm_run E view w'"
| batch: "calm_run E view w \<Longrightarrow> 0 \<le> sint n \<Longrightarrow> run_state (relay_batch E n) w = ((ok, 0), w') \<Longrightarrow>
     exact_totals (stored_orders (view w)) \<Longrightarrow>
     no_overtaking (stored_events (view w')) (stored_processed_events (view w')) \<Longrightarrow> calm_run E view w'"
| requeue: "calm_run E view w \<Longrightarrow> run_state (ob_RequeueFailed (NewGormOutboxStore E)) w = (rq, w') \<Longrightarrow>
     calm_run E view w'"

section \<open>What is shown\<close>

lemma follows_past:
  assumes "follows R ob P V L oid p"
  shows "unseen oid V L \<or> (\<exists>q. evolves q p \<and> shown oid q V L)"
proof -
  from assms obtain h n where h: "story R oid h" "snd (last h) = p" "shown_after oid (take n h) V L"
    by (auto simp: follows_def)
  show ?thesis
  proof (cases "take n h = []")
    case True
    with h(3) show ?thesis by (simp add: shown_after_def)
  next
    case False
    then have "last (take n h) \<in> set h" by (meson in_set_takeD last_in_set)
    with story_evolves [OF h(1), of "fst (last (take n h))" "snd (last (take n h))"] h(2)
    have "evolves (snd (last (take n h))) p" by simp
    with h(3) False show ?thesis by (auto simp: shown_after_def)
  qed
qed

lemma follows_present:
  assumes "follows R ob P V L oid p" "\<And>k. k \<in> keys_of R ob oid \<Longrightarrow> (k, HandlerName) \<in> P"
  shows "shown oid p V L"
proof -
  from assms(1) obtain h ks n where h: "story R oid h" "snd (last h) = p" "recorded R ob oid ks h" "n \<le> length h"
    "\<forall>i < length ks. (ks ! i, HandlerName) \<in> P \<longleftrightarrow> i < n" "shown_after oid (take n h) V L"
    unfolding follows_def by blast
  have len: "length ks = length h" using h(3) by (auto simp: recorded_def dest: list_all2_lengthD)
  have "\<forall>i < length ks. i < n" using h(3,5) assms(2) by (metis nth_mem recorded_def)
  then have "length h \<le> n" using len by (cases "length h") auto
  with h story_nonempty [OF h(1)] show ?thesis by (simp add: shown_after_def)
qed

lemma in_step_past:
  assumes "in_step R m ob P V L"
  shows "case m oid of None \<Rightarrow> unseen oid V L
     | Some p \<Rightarrow> unseen oid V L \<or> (\<exists>q. evolves q p \<and> shown oid q V L)"
proof (cases "m oid")
  case None
  with in_stepD(1) [OF assms None] show ?thesis by simp
next
  case (Some p)
  with follows_past [OF in_stepD(3) [OF assms Some]] show ?thesis by simp
qed

lemma in_step_present:
  assumes "in_step R m ob P V L" "\<And>k x. ob k = Some x \<Longrightarrow> oe_AggregateID x = OrderID_String R oid \<Longrightarrow> oe_Status x = ''published''"
  shows "case m oid of None \<Rightarrow> unseen oid V L | Some p \<Rightarrow> shown oid p V L"
proof (cases "m oid")
  case None
  with in_stepD(1) [OF assms(1) None] show ?thesis by simp
next
  case (Some p)
  have "(k, HandlerName) \<in> P" if "k \<in> keys_of R ob oid" for k
    using that assms(2) in_stepD(6) [OF assms(1)] by (auto simp: keys_of_def)
  from follows_present [OF in_stepD(3) [OF assms(1) Some] this] Some show ?thesis by simp
qed

context gorm_platform begin

lemma calm_run_in_step: "calm_run E view w \<Longrightarrow> tables_in_step E (view w)"
proof (induction rule: calm_run.induct)
  case (empty w)
  have "stored_orders empty_tables = Map.empty" "stored_events empty_tables = Map.empty" "stored_views empty_tables = Map.empty"
    "stored_lines empty_tables = Map.empty" "stored_processed_events empty_tables = {}"
    by (simp_all add: empty_tables_def fun_eq_iff stored_orders_def stored_events_def stored_views_def stored_lines_def
        stored_processed_events_def)
  with empty in_step_empty show ?case by (simp add: tables_in_step_def)
qed (blast intro: command_in_step batch_in_step requeue_in_step)+

end

section \<open>Eventual consistency\<close>

text \<open>In a calm run no view is ahead of or beside its order: of an order that is not stored nothing is
  shown, and of a stored one nothing yet or a state it has had, with the customer, status, total and
  lines of that state.\<close>

theorem views_show_past_states:
  assumes "gorm_platform E view" "calm_run E view w"
  shows "case stored_orders (view w) oid of
      None \<Rightarrow> unseen oid (stored_views (view w)) (stored_lines (view w))
    | Some p \<Rightarrow> unseen oid (stored_views (view w)) (stored_lines (view w)) \<or>
        (\<exists>q. evolves q p \<and> shown oid q (stored_views (view w)) (stored_lines (view w)))"
  using in_step_past gorm_platform.calm_run_in_step [OF assms] by (simp only: tables_in_step_def)

text \<open>C9: In a run of commands, whole batches and requeueing whose batches count no failure, after none of
  which an event was handled before an earlier one of its order, whose new events are dated later than
  those their orders have, and where the exact totals fit in 64 bits: once all entries of an order are
  published, the read model shows the order as it is stored, with its customer, status and total, the
  number of its items or 0, and its items as its lines and no others.\<close>

theorem eventually_consistent:
  assumes "gorm_platform E view" "calm_run E view w"
    and "\<And>k x. stored_events (view w) k = Some x \<Longrightarrow> oe_AggregateID x = OrderID_String E oid \<Longrightarrow> oe_Status x = ''published''"
  shows "case stored_orders (view w) oid of
      None \<Rightarrow> unseen oid (stored_views (view w)) (stored_lines (view w))
    | Some p \<Rightarrow> shown oid p (stored_views (view w)) (stored_lines (view w))"
  using in_step_present [OF gorm_platform.calm_run_in_step [OF assms(1,2), unfolded tables_in_step_def] assms(3)] .

section \<open>The scenario\<close>

lemma mem_events:
  "stored_events (mem_view w) = map_of (map (\<lambda>r. (oem_ID r, to_port_event r)) (mem_rows oem_ID (m_outbox w)))"
  by (simp add: fun_eq_iff stored_events_def mem_view_def mem_map_def map_option_rows)

lemma sc_outboxes:
  "m_outbox mem_empty = []" "m_outbox sc_w1 = [sc_e1]" "m_outbox sc_w2 = [sc_e2, sc_e1]"
  "m_outbox sc_w3 = [sc_e3, sc_e2, sc_e1]" "m_outbox sc_r_done = [sc_p sc_e3 16, sc_p sc_e2 14, sc_p sc_e1 11]"
  by (simp_all add: mem_empty_def sc_w1_def sc_w2_def sc_w3_def sc_r_done_def sc_r_def)

lemma sc_ports [simp]:
  "oem_OccurredAt sc_e1 = 2" "oem_OccurredAt sc_e2 = 5" "oem_OccurredAt sc_e3 = 8" "oem_AggregateID sc_e1 = ''u''"
  "oem_AggregateID sc_e2 = ''u''" "oem_AggregateID sc_e3 = ''u''" "oem_Status (sc_p e t) = ''published''"
  by (simp_all add: sc_e1_def sc_e2_def sc_e3_def sc_entry_def sc_p_def)

lemma sc_done_processed:
  "stored_processed_events (mem_view sc_r_done) = {(5, HandlerName), (4, HandlerName), (2, HandlerName)}"
  unfolding sc_r_done_def sc_stored_read by (simp add: mem_rows_def sc_processed_def pe_key_def HandlerName_def)

lemma sc_in_order:
  "in_order (stored_events (mem_view mem_empty)) (stored_events (mem_view sc_w1))"
  "in_order (stored_events (mem_view sc_w1)) (stored_events (mem_view sc_w2))"
  "in_order (stored_events (mem_view sc_w2)) (stored_events (mem_view sc_w3))"
  by (auto simp: in_order_def mem_events sc_outboxes mem_rows_def split: if_splits)

lemma sc_exact: "exact_totals (stored_orders (mem_view sc_w3))"
  by (auto simp: exact_totals_def stored_orders_def mem_view_def mem_map_def mem_rows_def sc_w3_def sc_row_def mem_empty_def
      items_of_def rows_of_def sc_item_def ToDomainItem_def ReconstructOrderItem_def exact_sum_def exact_price_def
      Collect_conv_if2 split: if_splits)

lemma sc_calm: "calm_run mem_platform mem_view sc_r_done"
proof -
  have "calm_run mem_platform mem_view mem_empty" by (rule calm_run.empty) (rule mem_view_empty)
  then have "calm_run mem_platform mem_view sc_w1"
    by (rule calm_run.create [OF _ sc_create_run [unfolded sc_uow_def] sc_in_order(1)])
  then have "calm_run mem_platform mem_view sc_w2"
    by (rule calm_run.add_item [OF _ sc_add_run [unfolded sc_uow_def] sc_in_order(2)])
  then have "calm_run mem_platform mem_view sc_w3"
    by (rule calm_run.confirm_order [OF _ sc_confirm_run [unfolded sc_uow_def] sc_in_order(3)])
  then show ?thesis
  proof (rule calm_run.batch [where view = mem_view, OF _ _ sc_batch sc_exact])
    show "no_overtaking (stored_events (mem_view sc_r_done)) (stored_processed_events (mem_view sc_r_done))"
      by (auto simp: no_overtaking_def mem_events sc_outboxes mem_rows_def sc_done_processed split: if_splits)
  qed simp
qed

theorem views_show_past_states_witness:
  "case stored_orders (mem_view sc_r_done) (OrderID 1) of
     None \<Rightarrow> unseen (OrderID 1) (stored_views (mem_view sc_r_done)) (stored_lines (mem_view sc_r_done))
   | Some p \<Rightarrow> unseen (OrderID 1) (stored_views (mem_view sc_r_done)) (stored_lines (mem_view sc_r_done)) \<or>
       (\<exists>q. evolves q p \<and> shown (OrderID 1) q (stored_views (mem_view sc_r_done)) (stored_lines (mem_view sc_r_done)))"
  by (rule views_show_past_states [OF mem.gorm_platform_axioms sc_calm])

theorem eventually_consistent_witness:
  "\<exists>p. stored_orders (mem_view sc_r_done) (OrderID 1) = Some p \<and> p_status p = ''CONFIRMED'' \<and>
     shown (OrderID 1) p (stored_views (mem_view sc_r_done)) (stored_lines (mem_view sc_r_done))"
proof -
  have "oe_Status x = ''published''" if "stored_events (mem_view sc_r_done) k = Some x" for k x
    using that by (auto simp: mem_events sc_outboxes mem_rows_def split: if_splits)
  from eventually_consistent [OF mem.gorm_platform_axioms sc_calm this, of "OrderID 1"] show ?thesis
    by (simp add: stored_orders_def mem_view_def mem_map_def mem_rows_def sc_r_done_def sc_r_def sc_w3_def sc_row_def
        mem_empty_def)
qed

end
