(* ===== verification/Single_Relay.thy ===== *)
theory Single_Relay imports Interleaving Eventual_Consistency begin

text \<open>
  One relay, whose turns interleave with the commands: it may be interrupted and restarted after any
  turn, and any call of the fetch, of the check and of the marks may fail.  As long as the writing of
  the read model succeeds and no event is applied before every earlier one of its order was handled,
  the read model keeps up with the orders.
\<close>

section \<open>Runs\<close>

text \<open>Everything earlier of the order of an entry was handled.\<close>

definition next_in_order :: "tables \<Rightarrow> OutboxEvent \<Rightarrow> bool" where
  "next_in_order t x \<longleftrightarrow> (\<forall>j y. stored_events t j = Some y \<longrightarrow> oe_AggregateID y = oe_AggregateID x \<longrightarrow>
     oe_OccurredAt y < oe_OccurredAt x \<longrightarrow> (j, HandlerName) \<in> stored_processed_events t)"

text \<open>The one condition on the turns is on the writing of the read model.\<close>

definition orderly :: "tables \<Rightarrow> relay_pc \<Rightarrow> relay_pc \<Rightarrow> bool" where
  "orderly t pc pc' \<longleftrightarrow> (case pc of
       Applying x xs \<Rightarrow> pc' = Marking x xs \<and> next_in_order t x \<and> exact_totals (stored_orders t)
     | _ \<Rightarrow> True)"

inductive relay_run :: "'w platform \<Rightarrow> ('w \<Rightarrow> tables) \<Rightarrow> 'w \<Rightarrow> relay_pc \<Rightarrow> bool" for E view where
  empty: "view w = empty_tables \<Longrightarrow> relay_run E view w Waiting"
| create: "relay_run E view w pc \<Longrightarrow> run_state (CreateOrderHandler_Handle E (NewGormUnitOfWork E) c) w = (r, w') \<Longrightarrow>
     in_order (stored_events (view w)) (stored_events (view w')) \<Longrightarrow> relay_run E view w' pc"
| add_item: "relay_run E view w pc \<Longrightarrow> run_state (AddItemHandler_Handle E (NewGormUnitOfWork E) a) w = (ra, w') \<Longrightarrow>
     in_order (stored_events (view w)) (stored_events (view w')) \<Longrightarrow> relay_run E view w' pc"
| confirm_order: "relay_run E view w pc \<Longrightarrow> run_state (ConfirmOrderHandler_Handle E (NewGormUnitOfWork E) f) w = (rf, w') \<Longrightarrow>
     in_order (stored_events (view w)) (stored_events (view w')) \<Longrightarrow> relay_run E view w' pc"
| requeue: "relay_run E view w pc \<Longrightarrow> run_state (ob_RequeueFailed (NewGormOutboxStore E)) w = (rq, w') \<Longrightarrow>
     relay_run E view w' pc"
| turn: "relay_run E view w pc \<Longrightarrow> 0 \<le> sint n \<Longrightarrow> run_state (relay_next E n pc) w = (pc', w') \<Longrightarrow>
     orderly (view w) pc pc' \<Longrightarrow> relay_run E view w' pc'"
| restart: "relay_run E view w pc \<Longrightarrow> relay_run E view w Waiting"

text \<open>Such a run is one of the service.\<close>

abbreviation one_relay :: "relay_pc \<Rightarrow> nat \<Rightarrow> relay_pc" where
  "one_relay pc \<equiv> all_waiting(0 := pc)"

lemma relay_run_service: "relay_run E view w pc \<Longrightarrow> \<exists>w0. view w0 = empty_tables \<and> service_run E (w0, all_waiting) (w, one_relay pc)"
proof (induction rule: relay_run.induct)
  case (empty w)
  then show ?case by (auto simp: fun_upd_idem)
next
  case (create w pc c r w')
  then show ?case using service_step.create [OF create.hyps(2), of "one_relay pc"] by (meson rtranclp.rtrancl_into_rtrancl)
next
  case (add_item w pc a ra w')
  then show ?case using service_step.add_item [OF add_item.hyps(2), of "one_relay pc"] by (meson rtranclp.rtrancl_into_rtrancl)
next
  case (confirm_order w pc f rf w')
  then show ?case using service_step.confirm_order [OF confirm_order.hyps(2), of "one_relay pc"] by (meson rtranclp.rtrancl_into_rtrancl)
next
  case (requeue w pc rq w')
  then show ?case using service_step.delivery [OF delivery_step.requeue [OF requeue.hyps(2), of "one_relay pc"]]
    by (meson rtranclp.rtrancl_into_rtrancl)
next
  case (turn w pc n pc' w')
  have "delivery_step E (w, one_relay pc) (w', one_relay pc')"
    using delivery_step.relay [of E n "one_relay pc" 0 w pc' w'] turn.hyps(2,3) by simp
  then show ?case using turn.IH service_step.delivery by (meson rtranclp.rtrancl_into_rtrancl)
next
  case (restart w pc)
  have "delivery_step E (w, one_relay pc) (w, one_relay Waiting)"
    using delivery_step.restart [of E w "one_relay pc" 0] by simp
  then show ?case using restart.IH service_step.delivery by (meson rtranclp.rtrancl_into_rtrancl)
qed

section \<open>The invariant\<close>

text \<open>
  \<open>D\<close> are events that were written to the read model and not marked as handled, because the mark
  failed or the relay was interrupted.  With them the read model is in step; and before any event
  that was written, everything earlier of its order was marked.
\<close>

definition marked_before :: "(uuid \<Rightarrow> OutboxEvent option) \<Rightarrow> (uuid \<times> string) set \<Rightarrow> (uuid \<times> string) set \<Rightarrow> bool" where
  "marked_before ob P Q \<longleftrightarrow> (\<forall>j k x y. ob k = Some x \<longrightarrow> (k, HandlerName) \<in> Q \<longrightarrow> ob j = Some y \<longrightarrow>
     oe_AggregateID y = oe_AggregateID x \<longrightarrow> oe_OccurredAt y < oe_OccurredAt x \<longrightarrow> (j, HandlerName) \<in> P)"

lemma marked_beforeD:
  "marked_before ob P Q \<Longrightarrow> ob k = Some x \<Longrightarrow> (k, HandlerName) \<in> Q \<Longrightarrow> ob j = Some y \<Longrightarrow>
     oe_AggregateID y = oe_AggregateID x \<Longrightarrow> oe_OccurredAt y < oe_OccurredAt x \<Longrightarrow> (j, HandlerName) \<in> P"
  unfolding marked_before_def by blast

fun pc_near :: "(uuid \<times> string) set \<Rightarrow> (uuid \<times> string) set \<Rightarrow> relay_pc \<Rightarrow> bool" where
  "pc_near P Q (Applying x xs) \<longleftrightarrow> (oe_ID x, HandlerName) \<notin> P"
| "pc_near P Q (Marking x xs) \<longleftrightarrow> (oe_ID x, HandlerName) \<in> Q"
| "pc_near P Q pc \<longleftrightarrow> True"

definition near_step :: "'w platform \<Rightarrow> tables \<Rightarrow> (uuid \<times> string) set \<Rightarrow> relay_pc \<Rightarrow> bool" where
  "near_step E t D pc \<longleftrightarrow>
     in_step E (stored_orders t) (stored_events t) (stored_processed_events t \<union> D) (stored_views t) (stored_lines t) \<and>
     marked_before (stored_events t) (stored_processed_events t) (stored_processed_events t \<union> D) \<and>
     pc_near (stored_processed_events t) (stored_processed_events t \<union> D) pc \<and>
     (\<forall>x \<in> set (held pc). deliverable t x)"

lemma marked_before_mono: "marked_before ob P Q \<Longrightarrow> P \<subseteq> P' \<Longrightarrow> marked_before ob P' Q"
  unfolding marked_before_def by blast

lemma marked_before_redelivered:
  assumes "marked_before ob P Q" "redelivered P' ob ob'" "\<And>k x. ob k = Some x \<Longrightarrow> oe_OccurredAt x \<noteq> time_zero"
  shows "marked_before ob' P Q"
  unfolding marked_before_def
proof (intro allI impI)
  fix j k x y assume a: "ob' k = Some x" "(k, HandlerName) \<in> Q" "ob' j = Some y" "oe_AggregateID y = oe_AggregateID x"
    "oe_OccurredAt y < oe_OccurredAt x"
  from redelivered_back [OF assms(2) a(1)] assms(3) obtain x' where x: "ob k = Some x'" "log_key x = log_key x'"
    "oe_OccurredAt x = oe_OccurredAt x'" by metis
  from redelivered_back [OF assms(2) a(3)] assms(3) obtain y' where y: "ob j = Some y'" "log_key y = log_key y'"
    "oe_OccurredAt y = oe_OccurredAt y'" by metis
  from marked_beforeD [OF assms(1) x(1) a(2) y(1)] a(4,5) x y show "(j, HandlerName) \<in> P" by (simp add: log_key_def)
qed

lemma redelivered_mono: "redelivered P ob ob' \<Longrightarrow> P \<subseteq> Q \<Longrightarrow> redelivered Q ob ob'"
  using redelivered_trans [OF _ redelivered_refl] .

lemma marked_before_announced:
  assumes "marked_before ob P Q" "in_order ob ob'" "announced R ev ob ob'" "\<And>k. (k, HandlerName) \<in> Q \<Longrightarrow> k \<in> dom ob"
  shows "marked_before ob' P Q"
proof -
  from assms(3) obtain z where z: "ob (oe_ID z) = None" "ob' = ob(oe_ID z \<mapsto> z)" by (auto simp: announced_def)
  show ?thesis
    unfolding marked_before_def
  proof (intro allI impI)
    fix j k x y assume a: "ob' k = Some x" "(k, HandlerName) \<in> Q" "ob' j = Some y" "oe_AggregateID y = oe_AggregateID x"
      "oe_OccurredAt y < oe_OccurredAt x"
    have "k \<noteq> oe_ID z" using assms(4) [OF a(2)] z(1) by auto
    with a(1) z(2) have x: "ob k = Some x" by simp
    show "(j, HandlerName) \<in> P"
    proof (cases "j = oe_ID z")
      case True
      with a(3) z(2) have "y = z" by simp
      with in_orderD(2) [OF assms(2) z(1), of z k x] z(2) x a(4,5) show ?thesis by simp
    next
      case False
      with a(3) z(2) have "ob j = Some y" by simp
      from marked_beforeD [OF assms(1) x a(2) this a(4,5)] show ?thesis .
    qed
  qed
qed

lemma empty_stored:
  "stored_orders empty_tables = Map.empty" "stored_events empty_tables = Map.empty" "stored_views empty_tables = Map.empty"
  "stored_lines empty_tables = Map.empty" "stored_processed_events empty_tables = {}"
  by (simp_all add: empty_tables_def fun_eq_iff stored_orders_def stored_events_def stored_views_def stored_lines_def
      stored_processed_events_def)

section \<open>Every step keeps it\<close>

context gorm_platform begin

lemma deliverable_kept:
  assumes "deliverable (view w) x" "in_step E m (stored_events (view w)) Q V L"
    and "redelivered P (stored_events (view w)) (stored_events (view w'))"
  shows "deliverable (view w') x"
proof -
  from assms(1) obtain z where z: "stored_events (view w) (oe_ID x) = Some z" "log_key x = log_key z"
    "oe_OccurredAt x = oe_OccurredAt z" by (auto simp: deliverable_def)
  from redeliveredE [OF assms(3) z(1)] obtain y where "stored_events (view w') (oe_ID x) = Some y"
    "log_key y = log_key z" "oe_OccurredAt z \<noteq> time_zero \<longrightarrow> oe_OccurredAt y = oe_OccurredAt z" by blast
  with z in_stepD(4) [OF assms(2) z(1)] show ?thesis by (auto simp: deliverable_def)
qed

lemma near_moved:
  assumes N: "near_step E (view w) D pc" and "stored_orders (view w') = stored_orders (view w)"
    and "read_part (view w') = read_part (view w)"
    and R: "redelivered (handled_keys view w) (stored_events (view w)) (stored_events (view w'))"
    and "pc_near (handled_keys view w) (handled_keys view w \<union> D) pc'" "\<forall>x \<in> set (held pc'). deliverable (view w) x"
  shows "near_step E (view w') D pc'"
proof -
  note same = assms(2) read_part_stored [OF assms(3)]
  note I = N [unfolded near_step_def, THEN conjunct1]
  have "in_step E (stored_orders (view w')) (stored_events (view w')) (handled_keys view w' \<union> D)
      (stored_views (view w')) (stored_lines (view w'))"
    unfolding same by (rule in_step_redelivered [OF I redelivered_mono [OF R]]) simp
  moreover have "marked_before (stored_events (view w')) (handled_keys view w') (handled_keys view w' \<union> D)"
    unfolding same by (rule marked_before_redelivered [OF _ R]) (use N in_stepD(4) [OF I] in \<open>simp_all add: near_step_def\<close>)
  moreover have "\<forall>x \<in> set (held pc'). deliverable (view w') x" using assms(6) deliverable_kept [OF _ I R] by blast
  ultimately show ?thesis using assms(5) same by (simp add: near_step_def)
qed

lemma near_command:
  assumes N: "near_step E (view w) D pc" and ord: "in_order (stored_events (view w)) (stored_events (view w'))"
    and new: "announces_one E (view w) (view w')"
    and I': "in_step E (stored_orders (view w')) (stored_events (view w')) (handled_keys view w \<union> D)
      (stored_views (view w)) (stored_lines (view w)) \<and> read_part (view w') = read_part (view w)"
  shows "near_step E (view w') D pc"
  using new unfolding announces_one_def
proof (elim disjE conjE exE)
  assume "view w' = view w"
  with N show ?thesis by simp
next
  fix ev assume rp: "read_part (view w') = read_part (view w)" and ann: "announced E ev (stored_events (view w)) (stored_events (view w'))"
  note same = read_part_stored [OF rp] and I = N [unfolded near_step_def, THEN conjunct1]
  have "marked_before (stored_events (view w')) (handled_keys view w) (handled_keys view w \<union> D)"
    by (rule marked_before_announced [OF _ ord ann]) (use N in_stepD(7) [OF I] in \<open>simp_all add: near_step_def\<close>)
  moreover have "deliverable (view w') x" if "deliverable (view w) x" for x
    using that announced_keep [OF ann] by (auto simp: deliverable_def)
  ultimately show ?thesis using N I' same by (simp add: near_step_def)
qed

text \<open>The read model written: the event is the next of its order, or it was written before.\<close>

lemma switch_projects:
  assumes "projection_switch E (NewGormReadModelStore E) x = Some handle" "run_state handle w = (Inr u, w')"
    and "carries E x ev" "event_status_ok ev" "statuses_ok (stored_views (view w))"
  shows "projected E ev (stored_views (view w)) (stored_lines (view w)) (stored_views (view w')) (stored_lines (view w'))"
  using assms(3)
proof (cases rule: carriesE)
  case (created e)
  then show ?thesis using proj.handleOrderCreated_ok [of x w u w' e] assms by (auto simp: projection_switch_def)
next
  case (added e)
  then show ?thesis using proj.handleOrderItemAdded_ok [of x w u w' e] assms by (auto simp: projection_switch_def)
next
  case (confirmed e)
  then show ?thesis using proj.handleOrderConfirmed_ok [of x w u w' e] assms by (auto simp: projection_switch_def)
qed

lemma near_applied:
  assumes N: "near_step E (view w) D (Applying x xs)"
    and H: "projection_switch E (NewGormReadModelStore E) x = Some handle" "run_state handle w = (Inr u, w')"
    and ord: "next_in_order (view w) x" and exact: "exact_totals (stored_orders (view w))"
  shows "near_step E (view w') (insert (oe_ID x, HandlerName) D) (Marking x xs)"
proof -
  let ?P = "handled_keys view w" and ?k = "(oe_ID x, HandlerName)"
  note N' = N [unfolded near_step_def]
  note I = N' [THEN conjunct1]
  have rest: "rest_part (view w') = rest_part (view w)" by (rule switch_rest [OF H])
  note same = write_part_events [OF rest_part_parts(1) [OF rest]] rest_part_parts(2) [OF rest]
  have x: "?k \<notin> ?P" "deliverable (view w) x" using N' by auto
  then obtain z where z: "stored_events (view w) (oe_ID x) = Some z" "log_key x = log_key z"
    "oe_OccurredAt x = oe_OccurredAt z" by (auto simp: deliverable_def)
  have car: "carries E z ev \<longleftrightarrow> carries E x ev" for ev using z(2) by (simp add: carries_def log_key_def)
  have agg: "oe_AggregateID x = oe_AggregateID z" using z(2) by (simp add: log_key_def)
  have earlier: "(j, HandlerName) \<in> ?P" if "stored_events (view w) j = Some y" "oe_AggregateID y = oe_AggregateID z"
    "oe_OccurredAt y < oe_OccurredAt z" for j y
    using ord that agg z(3) by (auto simp: next_in_order_def)
  have pr: "projected E ev (stored_views (view w)) (stored_lines (view w)) (stored_views (view w')) (stored_lines (view w'))"
    if "carries E z ev" "event_status_ok ev" for ev
    using switch_projects [OF H _ that(2) in_step_statuses [OF I]] that(1) car by simp
  have "in_step E (stored_orders (view w)) (stored_events (view w)) (insert ?k (?P \<union> D)) (stored_views (view w')) (stored_lines (view w'))"
  proof (cases "?k \<in> ?P \<union> D")
    case True
    have "(j, HandlerName) \<notin> ?P \<union> D" if y: "stored_events (view w) j = Some y" "oe_AggregateID y = oe_AggregateID z"
      "oe_OccurredAt z < oe_OccurredAt y" for j y
      using marked_beforeD [OF N' [THEN conjunct2, THEN conjunct1] y(1) _ z(1)] y(2,3) x(1) by auto
    from in_step_again [OF I z(1) True this stored_items_unique pr] True show ?thesis by (simp add: insert_absorb)
  next
    case False
    show ?thesis
      by (rule in_step_project [OF I z(1) False _ stored_items_unique exact pr]) (use earlier in blast)
  qed
  moreover have "marked_before (stored_events (view w)) ?P (insert ?k (?P \<union> D))"
    unfolding marked_before_def
  proof (intro allI impI)
    fix j k v y assume a: "stored_events (view w) k = Some v" "(k, HandlerName) \<in> insert ?k (?P \<union> D)" "stored_events (view w) j = Some y"
      "oe_AggregateID y = oe_AggregateID v" "oe_OccurredAt y < oe_OccurredAt v"
    show "(j, HandlerName) \<in> ?P"
    proof (cases "k = oe_ID x")
      case True
      with a(1) z(1) have "v = z" by simp
      with earlier [OF a(3)] a(4,5) show ?thesis by simp
    next
      case False
      with a(2) have "(k, HandlerName) \<in> ?P \<union> D" by simp
      from marked_beforeD [OF N' [THEN conjunct2, THEN conjunct1] a(1) this a(3-5)] show ?thesis .
    qed
  qed
  moreover have "\<forall>y \<in> set (x # xs). deliverable (view w) y" using N' by simp
  ultimately show ?thesis by (simp add: near_step_def same deliverable_def)
qed

lemma near_marked:
  assumes N: "near_step E (view w) D (Marking x xs)"
    and M: "run_state (ps_MarkProcessed (NewGormProcessedEventStore E) (oe_ID x) HandlerName) w = (m, w')"
  shows "near_step E (view w') D (Settling x e xs)"
proof -
  let ?P = "handled_keys view w" and ?k = "(oe_ID x, HandlerName)"
  note N' = N [unfolded near_step_def]
  have wp: "write_part (view w') = write_part (view w)" by (rule ps_write(2) [OF M])
  have read: "stored_views (view w') = stored_views (view w) \<and> stored_lines (view w') = stored_lines (view w) \<and>
      (handled_keys view w' = ?P \<or> handled_keys view w' = insert ?k ?P)"
    using M by (cases m) (auto simp: NewGormProcessedEventStore_def dest: MarkProcessed_ok MarkProcessed_err processed_frame_views)
  with N' have Q: "handled_keys view w' \<union> D = ?P \<union> D" by auto
  have "marked_before (stored_events (view w)) (handled_keys view w') (?P \<union> D)"
    by (rule marked_before_mono [OF N' [THEN conjunct2, THEN conjunct1]]) (use read in blast)
  moreover have "\<forall>y \<in> set (x # xs). deliverable (view w) y" using N' by simp
  ultimately show ?thesis using N' read write_part_events [OF wp] by (simp add: near_step_def deliverable_def Q)
qed

end

section \<open>Turns\<close>

context gorm_platform begin

lemma near_outbox:
  assumes "near_step E (view w) D pc" "outbox_moves view w w'"
    and "pc_near (handled_keys view w) (handled_keys view w \<union> D) pc'" "set (held pc') \<subseteq> set (held pc)"
  shows "near_step E (view w') D pc'"
  using near_moved [OF assms(1) _ _ _ assms(3)] assms(1,2,4) by (auto simp: outbox_moves_def near_step_def)

lemma near_pc:
  assumes "near_step E (view w) D pc" "view w' = view w"
    and "pc_near (handled_keys view w) (handled_keys view w \<union> D) pc'" "\<forall>x \<in> set (held pc'). deliverable (view w) x"
  shows "near_step E (view w') D pc'"
  using assms by (simp add: near_step_def)

lemma near_fetched:
  assumes N: "near_step E (view w) D Waiting" and "run_state (relay_next E n Waiting) w = (pc', w')" "0 \<le> sint n"
  shows "near_step E (view w') D pc'"
proof -
  from assms(2) obtain f where F: "run_state (ob_FetchPending (NewGormOutboxStore E) n) w = (f, w')"
    "pc' = (case f of Inl err \<Rightarrow> Waiting | Inr events \<Rightarrow> Delivering events)" by (auto split: prod.splits)
  show ?thesis
  proof (cases f)
    case (Inl e)
    with F have "view w' = view w" by (auto simp: NewGormOutboxStore_def dest: FetchPending_err)
    from near_pc [OF N this, of Waiting] F(2) Inl show ?thesis by simp
  next
    case (Inr xs)
    note f = fetch_law [OF F(1) [unfolded Inr] assms(3)]
    from near_pc [OF N, of w' "Delivering xs"] f F(2) Inr show ?thesis by (auto simp: deliverable_def)
  qed
qed

lemma near_checked:
  assumes N: "near_step E (view w) D (Delivering (x # xs))"
    and T: "run_state (relay_next E n (Delivering (x # xs))) w = (pc', w')"
  shows "near_step E (view w') D pc'"
proof (cases "inmemory_bus E (oe_EventType x) = []")
  case True
  with T have "w' = w" "pc' = Settling x None xs" by simp_all
  with near_pc [OF N, of w pc'] N show ?thesis by (simp add: near_step_def)
next
  case False
  with T obtain p where P: "run_state (ps_IsProcessed (NewGormProcessedEventStore E) (oe_ID x) HandlerName) w = (p, w')" and
    pc': "pc' = (case p of
        Inl err \<Rightarrow> Settling x (bus_error x (ErrWrap ''check processed event: '' err)) xs
      | Inr processed \<Rightarrow> if processed then Settling x None xs else Applying x xs)"
    by (auto split: prod.splits)
  have "view w' = view w \<and> (p = Inr False \<longrightarrow> (oe_ID x, HandlerName) \<notin> handled_keys view w)"
    using P by (cases p) (auto simp: NewGormProcessedEventStore_def dest: IsProcessed_ok IsProcessed_err)
  then show ?thesis using near_pc [OF N, of w' pc'] N
    by (auto simp: pc' near_step_def split: sum.splits)
qed

lemma turn_near:
  assumes "run_state (relay_next E n pc) w = (pc', w')" "0 \<le> sint n" "orderly (view w) pc pc'"
    and N: "near_step E (view w) D pc"
    and "delivery_ok (stored_events (view w)) (handled_keys view w)"
    and "pc_ok (stored_events (view w)) (handled_keys view w) pc"
  shows "\<exists>D'. near_step E (view w') D' pc'"
proof (cases pc rule: held.cases)
  case 1
  with near_fetched assms(1,2) N show ?thesis by blast
next
  case (2 xs)
  show ?thesis
  proof (cases xs)
    case Nil
    with assms(1) 2 have "w' = w" "pc' = Waiting" by simp_all
    with near_pc [OF N, of w Waiting] show ?thesis by auto
  next
    case (Cons x ys)
    with near_checked assms(1) N 2 show ?thesis by blast
  qed
next
  case (3 x xs)
  from assms(3) have o: "pc' = Marking x xs" "next_in_order (view w) x" "exact_totals (stored_orders (view w))"
    by (simp_all add: orderly_def 3)
  with assms(1) obtain handle u where H: "projection_switch E (NewGormReadModelStore E) x = Some handle"
    "run_state handle w = (Inr u, w')"
    by (auto simp: 3 split: option.splits prod.splits sum.splits)
  from near_applied [OF N [unfolded 3] H o(2,3)] o(1) show ?thesis by blast
next
  case (4 x xs)
  from assms(1) obtain m e where M: "run_state (ps_MarkProcessed (NewGormProcessedEventStore E) (oe_ID x) HandlerName) w = (m, w')"
    "pc' = Settling x e xs" by (auto simp: 4 split: prod.splits sum.splits)
  from near_marked [OF N [unfolded 4] M(1)] M(2) show ?thesis by blast
next
  case (5 x err xs)
  have "pc' = Delivering xs \<and> outbox_moves view w w'"
  proof (cases err)
    case None
    with assms(1) obtain m where M: "run_state (ob_MarkPublished (NewGormOutboxStore E) (oe_ID x)) w = (m, w')"
      "pc' = Delivering xs" by (auto simp: 5 split: prod.splits)
    have "(oe_ID x, HandlerName) \<in> handled_keys view w" using assms(6) by (simp add: 5 None pc_ok_simps)
    from published_moves [OF M(1) this] M(2) show ?thesis by simp
  next
    case (Some e)
    with assms(1) obtain m where M: "run_state (ob_MarkFailed (NewGormOutboxStore E) (oe_ID x) (error_text e)) w = (m, w')"
      "pc' = Delivering xs" by (auto simp: 5 split: prod.splits)
    from failed_moves [OF M(1) assms(5)] M(2) show ?thesis by simp
  qed
  with near_outbox [OF N, of w' "Delivering xs"] show ?thesis by (auto simp: 5)
qed

lemma empty_near: "view w = empty_tables \<Longrightarrow> near_step E (view w) {} Waiting"
  by (simp add: near_step_def empty_stored in_step_empty marked_before_def)

lemma relay_run_ok:
  assumes "relay_run E view w pc"
  shows "service_ok E view (w, one_relay pc)"
proof -
  from relay_run_service [OF assms] obtain w0 where w0: "view w0 = empty_tables"
    "service_run E (w0, all_waiting) (w, one_relay pc)" by blast
  have "service_ok E view (w0, all_waiting)"
    using w0(1) log_ok_empty by (simp add: service_ok_def empty_stored delivery_ok_def pc_ok_simps)
  from run_kept [OF w0(2) this] show ?thesis .
qed

lemma relay_run_near: "relay_run E view w pc \<Longrightarrow> \<exists>D. near_step E (view w) D pc"
proof (induction rule: relay_run.induct)
  case (empty w)
  then show ?case using empty_near by blast
next
  case (create w pc c r w')
  then obtain D where N: "near_step E (view w) D pc" by blast
  note I = N [unfolded near_step_def, THEN conjunct1]
  have "announces_one E (view w) (view w')"
    by (rule command_announces(1) [OF _ create.hyps(2)]) (rule stored_versions [OF I])
  from near_command [OF N create.hyps(3) this
      command_follows(1) [OF I create.hyps(3,2)]] show ?case by blast
next
  case (add_item w pc a ra w')
  then obtain D where N: "near_step E (view w) D pc" by blast
  note I = N [unfolded near_step_def, THEN conjunct1]
  have "announces_one E (view w) (view w')"
    by (rule command_announces(2) [OF _ add_item.hyps(2)]) (rule stored_versions [OF I])
  from near_command [OF N add_item.hyps(3) this
      command_follows(2) [OF I add_item.hyps(3,2)]] show ?case by blast
next
  case (confirm_order w pc f rf w')
  then obtain D where N: "near_step E (view w) D pc" by blast
  note I = N [unfolded near_step_def, THEN conjunct1]
  have "announces_one E (view w) (view w')"
    by (rule command_announces(3) [OF _ confirm_order.hyps(2)]) (rule stored_versions [OF I])
  from near_command [OF N confirm_order.hyps(3) this
      command_follows(3) [OF I confirm_order.hyps(3,2)]] show ?case by blast
next
  case (requeue w pc rq w')
  then obtain D where N: "near_step E (view w) D pc" by blast
  from near_outbox [OF N requeued_moves [OF requeue.hyps(2)]] N show ?case by (auto simp: near_step_def)
next
  case (turn w pc n pc' w')
  then obtain D where N: "near_step E (view w) D pc" by blast
  from relay_run_ok [OF turn.hyps(1)] have "delivery_ok (stored_events (view w)) (handled_keys view w)"
    "pc_ok (stored_events (view w)) (handled_keys view w) pc" by (auto simp: service_ok_def dest: spec [of _ 0])
  from turn_near [OF turn.hyps(3,2,4) N this] show ?case .
next
  case (restart w pc)
  then obtain D where "near_step E (view w) D pc" by blast
  from near_pc [OF this, of w Waiting] show ?case by auto
qed

end

end
