(* ===== verification/Single_Relay_Properties.thy ===== *)
theory Single_Relay_Properties imports Single_Relay begin

text \<open>
  What one relay beside the commands guarantees in the runs of \<open>relay_run\<close>, which it may be interrupted
  in anywhere: no view is ahead of or beside its order, and an order whose entries are published is
  shown as it is stored.  Without the conditions of these runs it does not hold: see
  \<open>lost_confirmation\<close>, where an event fails to be applied and a later one of its order is not.
\<close>

section \<open>A relay that is interrupted\<close>

text \<open>
  The relay writes the creation to the read model, is stopped before the event is marked as handled,
  and starts again: the event is applied a second time.
\<close>

definition sc_c :: "time \<Rightarrow> OutboxEventModel list \<Rightarrow> ProcessedEventModel list \<Rightarrow> OrderViewModel list \<Rightarrow> mem" where
  "sc_c c obx pr ov = sc_w1\<lparr>m_clock := c, m_outbox := obx, m_processed := pr, m_order_views := ov\<rparr>"

abbreviation sc_drafted :: "OrderViewModel list" where
  "sc_drafted \<equiv> [sc_view ''DRAFT'' 0 0 2]"

definition sc_caught_up :: mem where
  "sc_caught_up = sc_c 6 [sc_p sc_e1 5] [sc_processed 2 4] sc_drafted"

abbreviation sc_event :: OutboxEvent where
  "sc_event \<equiv> to_port_event sc_e1"

lemma sc_c_first: "sc_w1 = sc_c 4 [sc_e1] [] []"
  by (simp add: sc_c_def sc_w1_def mem_empty_def)

lemma sc_turns:
  "run_state (relay_next mem_platform 1 Waiting) (sc_c 4 [sc_e1] [] ov) = (Delivering [sc_event], sc_c 4 [sc_e1] [] ov)"
  "run_state (relay_next mem_platform 1 (Delivering [sc_event])) (sc_c 4 [sc_e1] [] ov) =
     (Applying sc_event [], sc_c 4 [sc_e1] [] ov)"
  "ov = [] \<or> ov = sc_drafted \<Longrightarrow> run_state (relay_next mem_platform 1 (Applying sc_event [])) (sc_c 4 [sc_e1] [] ov) =
     (Marking sc_event [], sc_c 4 [sc_e1] [] sc_drafted)"
  "run_state (relay_next mem_platform 1 (Marking sc_event [])) (sc_c 4 [sc_e1] [] sc_drafted) =
     (Settling sc_event None [], sc_c 5 [sc_e1] [sc_processed 2 4] sc_drafted)"
  "run_state (relay_next mem_platform 1 (Settling sc_event None [])) (sc_c 5 [sc_e1] [sc_processed 2 4] sc_drafted) =
     (Delivering [], sc_caught_up)"
proof -
  show "run_state (relay_next mem_platform 1 Waiting) (sc_c 4 [sc_e1] [] ov) = (Delivering [sc_event], sc_c 4 [sc_e1] [] ov)"
    by (simp add: GormOutboxStore_FetchPending_def sc_c_def mem_eval sc_relay)
  show "run_state (relay_next mem_platform 1 (Delivering [sc_event])) (sc_c 4 [sc_e1] [] ov) =
     (Applying sc_event [], sc_c 4 [sc_e1] [] ov)"
    using known_type_handler(1) [of sc_event mem_platform] by (simp add: known_types_def sc_c_def sc_handle)
  show "run_state (relay_next mem_platform 1 (Applying sc_event [])) (sc_c 4 [sc_e1] [] ov) =
     (Marking sc_event [], sc_c 4 [sc_e1] [] sc_drafted)" if "ov = [] \<or> ov = sc_drafted"
    using that by (elim disjE) (simp_all add: sc_c_def projection_switch_def sc_handle merge_view_def nonzero_def)
  show "run_state (relay_next mem_platform 1 (Marking sc_event [])) (sc_c 4 [sc_e1] [] sc_drafted) =
     (Settling sc_event None [], sc_c 5 [sc_e1] [sc_processed 2 4] sc_drafted)"
    by (simp add: sc_c_def sc_handle)
  show "run_state (relay_next mem_platform 1 (Settling sc_event None [])) (sc_c 5 [sc_e1] [sc_processed 2 4] sc_drafted) =
     (Delivering [], sc_caught_up)"
    by (simp add: sc_caught_up_def sc_p_def GormOutboxStore_MarkPublished_def mem_platform_sel mem_run mem_table_sel mem_write_def
        mem_insert_def mem_rows_id sc_c_def sc_handle)
qed

lemma sc_c_events: "stored_events (mem_view (sc_c c [e] pr ov)) = [oem_ID e \<mapsto> to_port_event e]"
  by (rule ext) (simp add: sc_c_def stored_events_def mem_view_def mem_map_def mem_rows_def)

lemma sc_c_exact: "exact_totals (stored_orders (mem_view (sc_c c obx pr ov)))"
  by (auto simp: exact_totals_def stored_orders_def mem_view_def mem_map_def mem_rows_def sc_c_def sc_w1_def sc_row_def
      mem_empty_def items_of_def rows_of_def exact_sum_def split: if_splits)

lemma sc_orderly:
  "orderly (mem_view (sc_c 4 [sc_e1] [] ov)) (Applying sc_event []) (Marking sc_event [])"
  by (auto simp: orderly_def next_in_order_def sc_c_events sc_c_exact split: if_splits)

lemma sc_interrupted: "relay_run mem_platform mem_view (sc_c 4 [sc_e1] [] sc_drafted) Waiting"
proof -
  note turn = relay_run.turn [where n = 1 and E = mem_platform and view = mem_view]
  have "relay_run mem_platform mem_view mem_empty Waiting" by (rule relay_run.empty) (rule mem_view_empty)
  then have "relay_run mem_platform mem_view (sc_c 4 [sc_e1] [] []) Waiting"
    unfolding sc_c_first [symmetric] by (rule relay_run.create [OF _ sc_create_run [unfolded sc_uow_def] sc_in_order(1)])
  then have "relay_run mem_platform mem_view (sc_c 4 [sc_e1] [] []) (Delivering [sc_event])"
    by (rule turn [OF _ _ sc_turns(1)]) (simp_all add: orderly_def)
  then have "relay_run mem_platform mem_view (sc_c 4 [sc_e1] [] []) (Applying sc_event [])"
    by (rule turn [OF _ _ sc_turns(2)]) (simp_all add: orderly_def)
  then have "relay_run mem_platform mem_view (sc_c 4 [sc_e1] [] sc_drafted) (Marking sc_event [])"
    by (rule turn [OF _ _ sc_turns(3)]) (simp_all add: sc_orderly)
  then show ?thesis by (rule relay_run.restart)
qed

lemma sc_restarted: "relay_run mem_platform mem_view sc_caught_up (Delivering [])"
proof -
  note turn = relay_run.turn [where n = 1 and E = mem_platform and view = mem_view]
  have "relay_run mem_platform mem_view (sc_c 4 [sc_e1] [] sc_drafted) (Delivering [sc_event])"
    by (rule turn [OF sc_interrupted _ sc_turns(1)]) (simp_all add: orderly_def)
  then have "relay_run mem_platform mem_view (sc_c 4 [sc_e1] [] sc_drafted) (Applying sc_event [])"
    by (rule turn [OF _ _ sc_turns(2)]) (simp_all add: orderly_def)
  then have "relay_run mem_platform mem_view (sc_c 4 [sc_e1] [] sc_drafted) (Marking sc_event [])"
    by (rule turn [OF _ _ sc_turns(3)]) (simp_all add: sc_orderly)
  then have "relay_run mem_platform mem_view (sc_c 5 [sc_e1] [sc_processed 2 4] sc_drafted) (Settling sc_event None [])"
    by (rule turn [OF _ _ sc_turns(4)]) (simp_all add: orderly_def)
  then show ?thesis
    by (rule turn [OF _ _ sc_turns(5)]) (simp_all add: orderly_def)
qed

section \<open>Properties\<close>

text \<open>C5: One relay, stopped and started again anywhere, and whose fetches, checks and marks may fail.  As
  long as every event it applies to the read model is applied with success and after every earlier
  event of its order was handled, each new event is dated later than those its order has, and the
  exact totals fit in 64 bits, no view is ahead of or beside its order at any point between two turns:
  of an order that is not stored nothing is shown, and of a stored one nothing yet or a state it has
  had, with the customer, status, total and lines of that state and the number of its items, or 0.\<close>

theorem relay_shows_past_states:
  assumes "gorm_platform E view" "relay_run E view w pc"
  shows "case stored_orders (view w) oid of
      None \<Rightarrow> unseen oid (stored_views (view w)) (stored_lines (view w))
    | Some p \<Rightarrow> unseen oid (stored_views (view w)) (stored_lines (view w)) \<or>
        (\<exists>q. evolves q p \<and> shown oid q (stored_views (view w)) (stored_lines (view w)))"
proof -
  from gorm_platform.relay_run_near [OF assms] obtain D where "near_step E (view w) D pc" by blast
  from in_step_past [OF this [unfolded near_step_def, THEN conjunct1]] show ?thesis .
qed

theorem relay_shows_past_states_witness:
  "case stored_orders (mem_view (sc_c 4 [sc_e1] [] sc_drafted)) (OrderID 1) of
     None \<Rightarrow> unseen (OrderID 1) (stored_views (mem_view (sc_c 4 [sc_e1] [] sc_drafted)))
       (stored_lines (mem_view (sc_c 4 [sc_e1] [] sc_drafted)))
   | Some p \<Rightarrow> unseen (OrderID 1) (stored_views (mem_view (sc_c 4 [sc_e1] [] sc_drafted)))
         (stored_lines (mem_view (sc_c 4 [sc_e1] [] sc_drafted))) \<or>
       (\<exists>q. evolves q p \<and> shown (OrderID 1) q (stored_views (mem_view (sc_c 4 [sc_e1] [] sc_drafted)))
         (stored_lines (mem_view (sc_c 4 [sc_e1] [] sc_drafted))))"
  by (rule relay_shows_past_states [OF mem.gorm_platform_axioms sc_interrupted])

text \<open>C2: One relay, stopped and started again anywhere, and whose fetches, checks and marks may fail.  As
  long as every event it applies to the read model is applied with success and after every earlier
  event of its order was handled, each new event is dated later than those its order has, and the
  exact totals fit in 64 bits, an order whose entries are all published is shown as it is stored: its
  customer, status and total, the number of its items or 0, and its items as its lines and no others.\<close>

theorem relay_catches_up:
  assumes "gorm_platform E view" "relay_run E view w pc"
    and "\<And>k x. stored_events (view w) k = Some x \<Longrightarrow> oe_AggregateID x = OrderID_String E oid \<Longrightarrow> oe_Status x = ''published''"
  shows "case stored_orders (view w) oid of
      None \<Rightarrow> unseen oid (stored_views (view w)) (stored_lines (view w))
    | Some p \<Rightarrow> shown oid p (stored_views (view w)) (stored_lines (view w))"
proof -
  from gorm_platform.relay_run_near [OF assms(1,2)] obtain D where "near_step E (view w) D pc" by blast
  from in_step_present [OF this [unfolded near_step_def, THEN conjunct1]] assms(3) show ?thesis by blast
qed

theorem relay_catches_up_witness:
  "\<exists>p. stored_orders (mem_view sc_caught_up) (OrderID 1) = Some p \<and> p_status p = ''DRAFT'' \<and>
     shown (OrderID 1) p (stored_views (mem_view sc_caught_up)) (stored_lines (mem_view sc_caught_up))"
proof -
  have "oe_Status x = ''published''" if "stored_events (mem_view sc_caught_up) k = Some x" for k x
    using that by (auto simp: sc_caught_up_def sc_c_events to_port_event_def split: if_splits)
  from relay_catches_up [OF mem.gorm_platform_axioms sc_restarted this, of "OrderID 1"] show ?thesis
    by (simp add: stored_orders_def mem_view_def mem_map_def mem_rows_def sc_caught_up_def sc_c_def sc_w1_def sc_row_def
        mem_empty_def)
qed

end
