(* ===== verification/Observability.thy ===== *)
theory Observability imports Log_Store begin

text \<open>
  Tracing, metrics and the standard library's logger (\<^verbatim>\<open>observability/tracing.go\<close>,
  \<^verbatim>\<open>metrics.go\<close>, \<^verbatim>\<open>logger.go\<close>).  The OpenTelemetry exporter and provider and the
  Prometheus registry are parameters.
\<close>

section \<open>Tracing\<close>

text \<open>
  \<open>to_Exporter\<close> and \<open>to_Resource\<close> may fail; \<open>to_SetProvider\<close> installs the provider (\<^verbatim>\<open>None\<close>: the
  one that does nothing), \<open>to_Shutdown\<close> stops it.
\<close>

record ('x, 'y, 'w) tracing_libs =
  to_URLHost :: "string \<Rightarrow> go_error + string"
  to_Exporter :: "string \<Rightarrow> go_error + 'x"
  to_Resource :: "string \<Rightarrow> go_error + 'y"
  to_SetProvider :: "('x \<times> 'y) option \<Rightarrow> ('w, unit) state"
  to_SetPropagator :: "('w, unit) state"
  to_Shutdown :: "'x \<times> 'y \<Rightarrow> ('w, unit) state"

text \<open>It yields the shutdown function; with an error that function is nil.\<close>

definition InitTracer ::
  "('x, 'y, 'w) tracing_libs \<Rightarrow> (log_record \<Rightarrow> ('w, unit) state) \<Rightarrow> string \<Rightarrow> string \<Rightarrow> ('w, go_error + ('w, unit) state) state" where
  "InitTracer T log serviceName otlpEndpoint =
     (if otlpEndpoint = '''' then do {
        log \<lparr>lg_Level = InfoLevel, lg_Message = ''tracing disabled: no OTLP endpoint configured'', lg_Fields = []\<rparr>;
        to_SetProvider T None;
        ret (Inr (ret ()))
      }
      else (case normalizeOTLPEndpoint (to_URLHost T) otlpEndpoint of
        Inl err \<Rightarrow> ret (Inl err)
      | Inr endpoint \<Rightarrow> (case to_Exporter T endpoint of
        Inl err \<Rightarrow> ret (Inl err)
      | Inr exporter \<Rightarrow> (case to_Resource T serviceName of
        Inl err \<Rightarrow> ret (Inl err)
      | Inr res \<Rightarrow> do {
          to_SetProvider T (Some (exporter, res));
          to_SetPropagator T;
          log \<lparr>lg_Level = InfoLevel, lg_Message = ''tracing initialized'' @ ''endpoint'' @ endpoint, lg_Fields = []\<rparr>;
          ret (Inr (to_Shutdown T (exporter, res)))
        }))))"

section \<open>Metrics\<close>

record metric_opts =
  mo_Kind :: string
  mo_Namespace :: string
  mo_Name :: string
  mo_Help :: string
  mo_Labels :: "string list"

record Metrics =
  mt_OutboxPendingGauge :: metric_opts
  mt_OutboxPublishSuccess :: metric_opts
  mt_OutboxPublishFailed :: metric_opts
  mt_ProjectionLagSeconds :: metric_opts
  mt_HTTPRequestDuration :: metric_opts

definition service_metrics :: Metrics where
  "service_metrics =
     (let m = (\<lambda>kind name help labels. \<lparr>mo_Kind = kind, mo_Namespace = ''order_service'', mo_Name = name,
        mo_Help = help, mo_Labels = labels\<rparr>) in
      \<lparr>mt_OutboxPendingGauge = m ''gauge'' ''outbox_pending_total'' ''Number of pending events in the outbox.'' [],
       mt_OutboxPublishSuccess = m ''counter'' ''outbox_publish_success_total''
         ''Total number of successfully published outbox events.'' [],
       mt_OutboxPublishFailed = m ''counter'' ''outbox_publish_failed_total''
         ''Total number of failed outbox publish attempts.'' [],
       mt_ProjectionLagSeconds = m ''gauge'' ''projection_lag_seconds'' ''Projection lag in seconds.'' [],
       mt_HTTPRequestDuration = m ''histogram'' ''http_request_duration_seconds''
         ''Duration of HTTP requests in seconds.'' [''method'', ''path'', ''status'']\<rparr>)"

definition NewMetrics :: "(metric_opts list \<Rightarrow> ('w, unit) state) \<Rightarrow> ('w, Metrics) state" where
  "NewMetrics mustRegister = do {
     let m = service_metrics;
     mustRegister [mt_OutboxPendingGauge m, mt_OutboxPublishSuccess m, mt_OutboxPublishFailed m,
       mt_ProjectionLagSeconds m, mt_HTTPRequestDuration m];
     ret m
   }"

text \<open>\<open>startPersisting\<close> makes the ticker of 30 seconds and starts the goroutine.\<close>

definition NewMetricsWithDatabasePersistence ::
  "(metric_opts list \<Rightarrow> ('w, unit) state) \<Rightarrow> ('w, unit) state \<Rightarrow> ('w, Metrics) state" where
  "NewMetricsWithDatabasePersistence mustRegister startPersisting = do {
     m \<leftarrow> NewMetrics mustRegister;
     startPersisting;
     ret m
   }"

text \<open>\<open>select\<close> yields whether \<^verbatim>\<open>done\<close> was closed; otherwise the ticker fired.\<close>

definition persistMetrics ::
  "('w, bool) state \<Rightarrow> (string \<Rightarrow> string \<Rightarrow> 'f :: zero \<Rightarrow> (string \<times> string) list option \<Rightarrow> ('w, go_error + unit) state)
     \<Rightarrow> ('w, unit) state \<Rightarrow> 'w \<Rightarrow> 'w option" where
  "persistMetrics select save stopTicker = forever (do {
     closed \<leftarrow> select;
     if closed then do { stopTicker; ret False }
     else do { saveCurrentMetrics save; ret True }
   })"

section \<open>The correlation identifier in a context\<close>

text \<open>A context as the values it carries by key.\<close>

type_synonym go_context = "string \<Rightarrow> field option"

definition ContextWithCorrelationID :: "go_context \<Rightarrow> string \<Rightarrow> go_context" where
  "ContextWithCorrelationID ctx i = ctx(''correlation_id'' \<mapsto> FStr i)"

definition CorrelationIDFromContext :: "go_context \<Rightarrow> string" where
  "CorrelationIDFromContext ctx = (case ctx ''correlation_id'' of Some (FStr i) \<Rightarrow> i | _ \<Rightarrow> '''')"

lemma correlation_id_kept:
  "CorrelationIDFromContext (ContextWithCorrelationID ctx i) = i"
  "k \<noteq> ''correlation_id'' \<Longrightarrow> ContextWithCorrelationID ctx i k = ctx k"
  by (simp_all add: CorrelationIDFromContext_def ContextWithCorrelationID_def)

section \<open>The adapter for \<^verbatim>\<open>log/slog\<close>\<close>

text \<open>slog's levels are integers: -4, 0, 4 and 8 for debug, info, warn and error.\<close>

record slog_record =
  sr_Level :: int
  sr_Message :: string
  sr_Attrs :: fields

definition slog_level :: "int \<Rightarrow> level" where
  "slog_level l = (if l = -4 then DebugLevel else if l = 0 then InfoLevel else if l = 4 then WarnLevel
     else if l = 8 then ErrorLevel else InfoLevel)"

definition slog_Handle ::
  "('w, 'z) runtime_scheme \<Rightarrow> (string \<times> nat) option \<Rightarrow> string \<Rightarrow> 'w core \<Rightarrow> slog_record \<Rightarrow> ('w, go_error + unit) state" where
  "slog_Handle R caller stack c r = do {
     Logw R caller stack c \<lparr>lg_Level = slog_level (sr_Level r), lg_Message = sr_Message r, lg_Fields = sr_Attrs r\<rparr>;
     ret (Inr ())
   }"

definition slog_WithAttrs :: "'w core \<Rightarrow> fields \<Rightarrow> 'w core" where
  "slog_WithAttrs c attrs = With c attrs"

definition slog_WithGroup :: "'w core \<Rightarrow> string \<Rightarrow> 'w core" where
  "slog_WithGroup c name = With c [(name, FNamespace)]"

definition slog_Enabled :: "'w core \<Rightarrow> int \<Rightarrow> bool" where
  "slog_Enabled c l = Enabled c (slog_level l)"

lemmas observability_eval [go_defs] = InitTracer_def service_metrics_def NewMetrics_def
  NewMetricsWithDatabasePersistence_def ContextWithCorrelationID_def CorrelationIDFromContext_def slog_level_def
  slog_Handle_def slog_WithAttrs_def slog_WithGroup_def slog_Enabled_def

text \<open>A record that is not enabled leaves no trace; the names registered are distinct.\<close>

lemma slog_disabled: "\<not> slog_Enabled c (sr_Level r) \<Longrightarrow> slog_Handle R caller stack c r = ret (Inr ())"
  by (simp add: slog_Handle_def slog_Enabled_def Logw_def)

text \<open>The fields after a group are in a map of its name.\<close>

lemma map_encoder_group:
  assumes "FNamespace \<notin> snd ` set fs"
  shows "map_encoder (fs @ (g, FNamespace) # gs) = AList.update g (FMap (map_encoder gs)) (map_encoder fs)"
proof -
  have "encode_into m (fs @ (g, FNamespace) # gs) = AList.update g (FMap (encode_into [] gs)) (encode_into m fs)" for m
    using assms by (induction m fs rule: encode_into.induct) auto
  then show ?thesis by (simp add: map_encoder_def)
qed

lemma metric_names_distinct:
  "distinct (map mo_Name [mt_OutboxPendingGauge service_metrics, mt_OutboxPublishSuccess service_metrics,
     mt_OutboxPublishFailed service_metrics, mt_ProjectionLagSeconds service_metrics,
     mt_HTTPRequestDuration service_metrics])"
  by (simp add: service_metrics_def Let_def)

lemma InitTracer_fails:
  "run_state (InitTracer T log serviceName otlpEndpoint) w = (Inl err, w') \<Longrightarrow>
     w' = w \<and> otlpEndpoint \<noteq> ''''"
  by (auto simp: InitTracer_def split: if_splits sum.splits prod.splits)

end
