(* ===== verification/Lifecycle.thy ===== *)
theory Lifecycle imports Service Observability begin

text \<open>
  The life of the process (\<^verbatim>\<open>Run\<close> of \<^verbatim>\<open>internal/bootstrap/app.go\<close> and \<^verbatim>\<open>main\<close>): what is
  opened and started, in which order, and what happens on the way out.  The operating system, the
  database driver, the HTTP server and the collectors are parameters; a goroutine is started by
  its name, and what it runs is defined elsewhere.
\<close>

section \<open>The host\<close>

datatype goroutine =
    OutboxWorkerRun
  | KafkaConsumerRun reader_config
  | PersistMetrics
  | Serve string "(string \<times> string) option"

text \<open>
  \<open>ho_Encode\<close> is zap's encoder, \<open>ho_Caller\<close> the position it finds for a message; \<open>ho_StopLogs\<close>
  shuts the collector's provider down.  \<open>ho_Select\<close> waits for a signal or for an error of the server; \<open>ho_Cancel\<close> cancels the context of the
  workers, \<open>ho_ShutdownDone\<close> releases the one of the shutdown.  \<open>ho_Go\<close> starts a goroutine.
\<close>

record ('w, 'f, 'x, 'y) host = "'w runtime" +
  ho_Encode :: "EncoderConfig \<Rightarrow> entry \<Rightarrow> fields \<Rightarrow> go_error + string"
  ho_OpenFile :: "string \<Rightarrow> go_error + 'w write_syncer"
  ho_Stdout :: "'w write_syncer"
  ho_CloseFile :: "('w, go_error + unit) state"
  ho_Caller :: "string \<Rightarrow> (string \<times> nat) option"
  ho_Stack :: string
  ho_OpenDB :: "string \<Rightarrow> ('w, go_error + unit) state"
  ho_UseTracing :: "('w, go_error + unit) state"
  ho_SqlDB :: "('w, go_error + unit) state"
  ho_SetPool :: "go_int \<Rightarrow> go_int \<Rightarrow> int64 \<Rightarrow> ('w, unit) state"
  ho_LogDB :: "('f, 'w) telemetry_db"
  ho_Tracing :: "('x, 'y, 'w) tracing_libs"
  ho_LogExporter :: "string \<Rightarrow> go_error + 'x"
  ho_LogClient :: "'x \<Rightarrow> 'y \<Rightarrow> 'w otel_client"
  ho_StopLogs :: "'x \<Rightarrow> 'y \<Rightarrow> ('w, go_error + unit) state"
  ho_RegisterCollectors :: "('w, unit) state"
  ho_MustRegister :: "metric_opts list \<Rightarrow> ('w, unit) state"
  ho_StopMetrics :: "('w, unit) state"
  ho_Go :: "goroutine \<Rightarrow> ('w, unit) state"
  ho_Select :: "('w, go_error + string) state"
  ho_Cancel :: "('w, unit) state"
  ho_CloseWriter :: "kafka_writer \<Rightarrow> ('w, go_error + unit) state"
  ho_Shutdown :: "int64 \<Rightarrow> ('w, go_error + unit) state"
  ho_ShutdownDone :: "('w, unit) state"

section \<open>Deferred calls\<close>

text \<open>
  A deferred call, \<^verbatim>\<open>None\<close> for a nil function, which panics when it is run.  They run in the
  reverse order of their \<^verbatim>\<open>defer\<close> statements (the list has the last one first), also while
  panicking.
\<close>

type_synonym 'w deferred = "('w, unit) state option"

datatype outcome = Returned "go_error option" | Panicked string

definition nil_call :: string where
  "nil_call = ''invalid memory address or nil pointer dereference''"

fun run_defers :: "'w deferred list \<Rightarrow> outcome \<Rightarrow> ('w, outcome) state" where
  "run_defers [] out = ret out"
| "run_defers (None # ds) out = run_defers ds (Panicked nil_call)"
| "run_defers (Some d # ds) out = do { d; run_defers ds out }"

section \<open>Starting\<close>

definition log_record_at :: "('w, 'f, 'x, 'y) host \<Rightarrow> 'w core \<Rightarrow> log_record \<Rightarrow> ('w, unit) state" where
  "log_record_at H c r = Logw H (ho_Caller H (lg_Message r)) (ho_Stack H) c r"

definition log_at :: "('w, 'f, 'x, 'y) host \<Rightarrow> 'w core \<Rightarrow> level \<Rightarrow> string \<Rightarrow> fields \<Rightarrow> ('w, unit) state" where
  "log_at H c lvl msg fs = log_record_at H c \<lparr>lg_Level = lvl, lg_Message = msg, lg_Fields = fs\<rparr>"

text \<open>Closing the log file, or nothing when the log goes to the standard output only.\<close>

definition close_log :: "('w, 'f, 'x, 'y) host \<Rightarrow> Config \<Rightarrow> 'w core \<Rightarrow> ('w, unit) state" where
  "close_log H cfg logger =
     (if lc_FilePath (cf_Log cfg) = '''' then ret ()
      else do {
        c \<leftarrow> ho_CloseFile H;
        case c of
          Inl err \<Rightarrow> log_at H logger ErrorLevel ''failed to close log file'' [(''error'', FError err)]
        | Inr _ \<Rightarrow> ret ()
      })"

definition open_database :: "('w, 'f, 'x, 'y) host \<Rightarrow> Config \<Rightarrow> ('w, go_error + unit) state" where
  "open_database H cfg = do {
     d \<leftarrow> ho_OpenDB H (DSN (cf_Database cfg));
     case d of
       Inl err \<Rightarrow> ret (Inl (ErrWrap ''connect database: '' err))
     | Inr _ \<Rightarrow> do {
         t \<leftarrow> ho_UseTracing H;
         case t of
           Inl err \<Rightarrow> ret (Inl (ErrWrap ''setup gorm tracing: '' err))
         | Inr _ \<Rightarrow> do {
             s \<leftarrow> ho_SqlDB H;
             case s of
               Inl err \<Rightarrow> ret (Inl (ErrWrap ''get sql.DB: '' err))
             | Inr _ \<Rightarrow> do { ho_SetPool H 25 5 (5 * 60 * 1000000000); ret (Inr ()) }
           }
       }
   }"

text \<open>The tracer's shutdown function, nil when it could not be set up.\<close>

definition start_tracer :: "('w, 'f, 'x, 'y) host \<Rightarrow> Config \<Rightarrow> 'w core \<Rightarrow> ('w, 'w deferred) state" where
  "start_tracer H cfg logger = do {
     t \<leftarrow> InitTracer (ho_Tracing H) (log_record_at H logger) (tr_ServiceName (cf_Tracing cfg)) (tr_OTLPEndpoint (cf_Tracing cfg));
     case t of
       Inl err \<Rightarrow> do {
         log_at H logger WarnLevel ''tracing init failed'' [(''error'', FError err)];
         ret None
       }
     | Inr shutdown \<Rightarrow> ret (Some shutdown)
   }"

text \<open>The logger with the collector and the cleanup function, which is nil after an error.\<close>

definition start_signoz :: "('w, 'f, 'x, 'y) host \<Rightarrow> Config \<Rightarrow> 'w core \<Rightarrow> ('w, 'w core \<times> 'w deferred) state" where
  "start_signoz H cfg logger = do {
     s \<leftarrow> InitSigNozLogger (\<lambda>r c. log_record_at H c r) (to_URLHost (ho_Tracing H)) (ho_LogExporter H) (to_Resource (ho_Tracing H))
       (ho_LogClient H) (ho_StopLogs H) (tr_ServiceName (cf_Tracing cfg)) (cf_SigNozEndpoint cfg) (Some logger);
     case s of
       Inl err \<Rightarrow> do {
         log_at H logger WarnLevel ''SigNoz logs init failed, continuing without SigNoz'' [(''error'', FError err)];
         ret (logger, None)
       }
     | Inr (c, cleanup) \<Rightarrow> ret (case c of None \<Rightarrow> logger | Some l \<Rightarrow> l, Some cleanup)
   }"

text \<open>Which bus; its construction has no effect but a line in the log.\<close>

definition start_bus :: "('w, 'f, 'x, 'y) host \<Rightarrow> Config \<Rightarrow> 'w core \<Rightarrow> ('w, kafka_writer option) state" where
  "start_bus H cfg logger =
     (if uses_kafka cfg then do {
        let w = kafka_writer_of (bus_KafkaConfig cfg);
        log_at H logger InfoLevel ''event bus: kafka''
          [(''brokers'', FStrs (bk_Brokers (cf_Kafka cfg))), (''topic'', FStr (bk_Topic (cf_Kafka cfg))),
           (''consumer_group'', FStr (bk_ConsumerGroup (cf_Kafka cfg)))];
        ret (Some w)
      }
      else do { log_at H logger InfoLevel ''event bus: inmemory'' []; ret None })"

definition server_addr :: "Config \<Rightarrow> string" where
  "server_addr cfg = '':'' @ Itoa (sv_Port (cf_Server cfg))"

definition server_tls :: "Config \<Rightarrow> (string \<times> string) option" where
  "server_tls cfg = (let h = sv_HTTPS (cf_Server cfg) in if hs_Enabled h then Some (hs_CertFile h, hs_KeyFile h) else None)"

text \<open>The goroutines of the workers and of the server.\<close>

definition start_workers :: "('w, 'f, 'x, 'y) host \<Rightarrow> Config \<Rightarrow> kafka_writer option \<Rightarrow> ('w, unit) state" where
  "start_workers H cfg bus = do {
     ho_Go H OutboxWorkerRun;
     (case bus of
        None \<Rightarrow> ret ()
      | Some w \<Rightarrow> ho_Go H (KafkaConsumerRun (NewKafkaReader ((bus_KafkaConfig cfg)\<lparr>kc_BatchSize := 0, kc_BatchTimeout := 0\<rparr>))));
     ho_Go H (Serve (server_addr cfg) (server_tls cfg))
   }"

section \<open>Stopping\<close>

text \<open>
  From the select to the return, with the calls deferred on the way.
\<close>

definition wait_and_stop ::
  "('w, 'f, 'x, 'y) host \<Rightarrow> Config \<Rightarrow> 'w core \<Rightarrow> kafka_writer option \<Rightarrow> ('w, outcome \<times> 'w deferred list) state" where
  "wait_and_stop H cfg logger bus = do {
     q \<leftarrow> ho_Select H;
     case q of
       Inl err \<Rightarrow> ret (Returned (Some (ErrWrap ''server error: '' err)), [])
     | Inr sig \<Rightarrow> do {
         log_at H logger InfoLevel ''received shutdown signal'' [(''signal'', FOther sig)];
         ho_Cancel H;
         (case bus of
            None \<Rightarrow> ret ()
          | Some w \<Rightarrow> do {
              c \<leftarrow> ho_CloseWriter H w;
              case c of
                Inl err \<Rightarrow> log_at H logger ErrorLevel ''failed to close kafka writer'' [(''error'', FError err)]
              | Inr _ \<Rightarrow> ret ()
            });
         s \<leftarrow> ho_Shutdown H (sv_ShutdownTimeout (cf_Server cfg));
         case s of
           Inl err \<Rightarrow> ret (Returned (Some (ErrWrap ''server shutdown: '' err)), [Some (ho_ShutdownDone H)])
         | Inr _ \<Rightarrow> do {
             log_at H logger InfoLevel ''server stopped gracefully'' [];
             ret (Returned None, [Some (ho_ShutdownDone H)])
           }
       }
   }"

section \<open>Run\<close>

text \<open>\<open>ds\<close> are the calls deferred so far.\<close>

definition run_service :: "('w, 'f, 'x, 'y) host \<Rightarrow> Config \<Rightarrow> 'w core \<Rightarrow> 'w deferred list \<Rightarrow> ('w, outcome) state" where
  "run_service H cfg logger0 ds = do {
     let logger1 = LoggerWithDatabasePersistence logger0 [Some (saveFn (ho_LogDB H))];
     shutdown \<leftarrow> start_tracer H cfg logger1;
     (logger, cleanup) \<leftarrow> start_signoz H cfg logger1;
     ho_RegisterCollectors H;
     m \<leftarrow> NewMetricsWithDatabasePersistence (ho_MustRegister H) (ho_Go H PersistMetrics);
     bus \<leftarrow> start_bus H cfg logger;
     log_at H logger InfoLevel ''projection worker: registering event handlers'' [];
     log_at H logger InfoLevel ''DEBUG: Registering logging middleware with database'' [(''db_not_nil'', FBool True)];
     start_workers H cfg bus;
     (out, late) \<leftarrow> wait_and_stop H cfg logger bus;
     run_defers (late @ [Some (ho_StopMetrics H), cleanup, shutdown, Some (ho_Cancel H)] @ ds) out
   }"

definition Run :: "('w, 'f, 'x, 'y) host \<Rightarrow> environment \<Rightarrow> ('w, outcome) state" where
  "Run H V =
     (let cfg = LoadConfig V in
      case NewLogger (ho_Encode H) (ho_OpenFile H) (ho_Stdout H) (lc_Level (cf_Log cfg)) (lc_FilePath (cf_Log cfg)) of
        Inl err \<Rightarrow> ret (Returned (Some (ErrWrap ''init logger: '' err)))
      | Inr logger \<Rightarrow> do {
          log_at H logger InfoLevel ''starting order-service''
            [(''port'', FInt (sint (sv_Port (cf_Server cfg)))), (''event_bus'', FStr (cf_EventBusType cfg))];
          d \<leftarrow> open_database H cfg;
          case d of
            Inl err \<Rightarrow> run_defers [Some (close_log H cfg logger)] (Returned (Some err))
          | Inr _ \<Rightarrow> run_service H cfg logger [Some (close_log H cfg logger)]
        })"

text \<open>The exit code of the process: \<^verbatim>\<open>log.Fatal\<close> exits with 1, a panic with 2.\<close>

fun exit_code :: "outcome \<Rightarrow> nat" where
  "exit_code (Returned None) = 0"
| "exit_code (Returned (Some err)) = 1"
| "exit_code (Panicked p) = 2"

definition main :: "('w, 'f, 'x, 'y) host \<Rightarrow> environment \<Rightarrow> ('w, nat) state" where
  "main H V = do { out \<leftarrow> Run H V; ret (exit_code out) }"

text \<open>
  The goroutine of the server: \<open>listen\<close> returns when the server stops, with the error of a clean shutdown
  or another one, which is sent to the channel \<open>ho_Select\<close> waits on.
\<close>

definition serve ::
  "('w, 'f, 'x, 'y) host \<Rightarrow> 'w core \<Rightarrow> (string \<Rightarrow> (string \<times> string) option \<Rightarrow> ('w, go_error option) state) \<Rightarrow> (go_error \<Rightarrow> ('w, unit) state)
     \<Rightarrow> Config \<Rightarrow> ('w, unit) state" where
  "serve H logger listen send cfg = do {
     (case server_tls cfg of
        Some (cert, key) \<Rightarrow> log_at H logger InfoLevel ''https server listening''
          [(''addr'', FStr (server_addr cfg)), (''cert_file'', FStr cert)]
      | None \<Rightarrow> log_at H logger InfoLevel ''http server listening'' [(''addr'', FStr (server_addr cfg))]);
     r \<leftarrow> listen (server_addr cfg) (server_tls cfg);
     case r of
       None \<Rightarrow> ret ()
     | Some err \<Rightarrow> if err \<noteq> ErrText ''http: Server closed'' then send err else ret ()
   }"

lemmas lifecycle_eval [go_defs] = log_record_at_def log_at_def close_log_def open_database_def start_tracer_def start_signoz_def start_bus_def
  server_addr_def server_tls_def start_workers_def wait_and_stop_def run_service_def Run_def main_def serve_def

end
