(* ===== verification/Lifecycle_Properties.thy ===== *)
theory Lifecycle_Properties imports Lifecycle Log_Properties begin

text \<open>
  What the process calls, in order, on every way out: a clean exit follows a signal and stops everything
  that was started; an error of the server skips the shutdown; and with an exporter that cannot be set up
  a process that came to serve ends with a panic.
\<close>

section \<open>The trace of a process\<close>

text \<open>The calls to the host that open, start, stop or release something; \<open>'p\<close> is the tracer provider.\<close>

datatype 'p call =
    OpenDB string
  | UseTracing
  | SqlDB
  | SetPool go_int go_int int64
  | SetProvider "'p option"
  | SetPropagator
  | RegisterCollectors
  | MustRegister "metric_opts list"
  | Go goroutine
  | Select
  | Cancel
  | CloseWriter kafka_writer
  | Shutdown int64
  | ShutdownDone
  | StopMetrics
  | StopLogs
  | StopTracer 'p
  | CloseFile

text \<open>\<open>adds tr m c\<close>: whatever \<open>m\<close> yields, the trace grows by \<open>c\<close>; a quiet one does not touch it.\<close>

definition adds :: "('w \<Rightarrow> 'c list) \<Rightarrow> ('w, 'a) state \<Rightarrow> 'c list \<Rightarrow> bool" where
  "adds tr m cs \<longleftrightarrow> (\<forall>w. tr (snd (run_state m w)) = tr w @ cs)"

lemma adds_ret: "adds tr (ret x) []"
  by (simp add: adds_def)

lemma adds_bind: "adds tr m cs \<Longrightarrow> (\<And>x. adds tr (f x) ds) \<Longrightarrow> adds tr (State_Monad.bind m f) (cs @ ds)"
  by (simp add: adds_def split: prod.splits) (metis snd_conv)

lemma adds_run: "adds tr m cs \<Longrightarrow> run_state m w = (x, w') \<Longrightarrow> tr w' = tr w @ cs"
  unfolding adds_def by (metis snd_conv)

lemma adds_wp: "adds tr m cs \<Longrightarrow> (\<And>x w'. tr w' = tr w @ cs \<Longrightarrow> Q x w') \<Longrightarrow> wp m Q w"
  by (auto simp: wp_iff dest: adds_run)

lemma quiet_bind: "adds tr m [] \<Longrightarrow> (\<And>x. adds tr (f x) []) \<Longrightarrow> adds tr (State_Monad.bind m f) []"
  using adds_bind [of tr m "[]" f "[]"] by simp

fun quiet_core :: "('w \<Rightarrow> 'c list) \<Rightarrow> 'w core \<Rightarrow> bool" where
  "quiet_core tr (SinkCore lvl own sink) \<longleftrightarrow> (\<forall>en fs. adds tr (ls_Write sink en fs) []) \<and> adds tr (ls_Sync sink) []"
| "quiet_core tr (HookedCore c hooks) \<longleftrightarrow> quiet_core tr c \<and>
     (\<forall>save. Some save \<in> set hooks \<longrightarrow> (\<forall>t a b c d e f fs. adds tr (save t a b c d e f fs) []))"
| "quiet_core tr (OtelCore C lvl own) \<longleftrightarrow> adds tr (ot_Now C) [] \<and> (\<forall>r. adds tr (ot_Emit C r) [])"
| "quiet_core tr (TeeCore cs) \<longleftrightarrow> (\<forall>c \<in> set cs. quiet_core tr c)"

lemma run_hooks_quiet:
  assumes "\<forall>save. Some save \<in> set hooks \<longrightarrow> (\<forall>t a b c d e f fs. adds tr (save t a b c d e f fs) [])"
  shows "adds tr (run_hooks hooks en fs) []"
  using assms
proof (induction hooks)
  case Nil
  show ?case by (simp add: adds_ret)
next
  case (Cons h hs)
  then have "adds tr (Hook h en fs) []" by (cases h) (auto simp: Hook_def Let_def adds_ret)
  with Cons show ?case by (auto intro!: quiet_bind adds_ret split: sum.splits)
qed

lemma Write_quiet:
  shows "quiet_core tr c \<Longrightarrow> adds tr (Write c en fs) []"
    and "\<forall>c \<in> set cs. quiet_core tr c \<Longrightarrow> adds tr (Write_all cs en fs) []"
proof (induction c en fs and cs en fs rule: Write_Write_all.induct)
qed (auto simp: otel_Write_def Let_def intro!: quiet_bind adds_ret run_hooks_quiet split: sum.splits)

lemma Sync_quiet:
  shows "quiet_core tr c \<Longrightarrow> adds tr (Sync c) []"
    and "\<forall>c \<in> set cs. quiet_core tr c \<Longrightarrow> adds tr (Sync_all cs) []"
proof (induction c and cs rule: Sync_Sync_all.induct)
qed (auto intro!: quiet_bind adds_ret)

lemma Check_quiet: "quiet_core tr c \<Longrightarrow> d \<in> set (Check c l) \<Longrightarrow> quiet_core tr d"
  by (induction c l rule: Check.induct) (auto split: if_splits)

lemma Logw_quiet:
  assumes "adds tr (time_Now R) []" "quiet_core tr c"
  shows "adds tr (Logw R caller stack c r) []"
proof -
  have "\<forall>d \<in> set cs. quiet_core tr d \<Longrightarrow> adds tr (write_checked cs en fs) []" for cs en fs
    by (induction cs) (auto intro!: quiet_bind adds_ret Write_quiet)
  then have "adds tr (write_checked (Check c (lg_Level r)) en (lg_Fields r)) []" for en
    using Check_quiet [OF assms(2)] by blast
  with assms(1) show ?thesis by (simp add: Logw_def quiet_bind adds_ret)
qed

section \<open>The host's laws\<close>

text \<open>
  Every call of the kind of \<open>call\<close> leaves itself in the trace, and printing, storing and sending lines
  leaves nothing there.
\<close>

locale host_trace =
  fixes H :: "('w, 'f, 'x, 'y) host" and tr :: "'w \<Rightarrow> ('x \<times> 'y) call list"
  assumes clock: "adds tr (time_Now H) []"
    and stdout: "adds tr (ws_Write (ho_Stdout H) line) []" "adds tr (ws_Sync (ho_Stdout H)) []"
    and opened_file: "ho_OpenFile H p = Inr out \<Longrightarrow> adds tr (ws_Write out line) []"
      "ho_OpenFile H p = Inr out \<Longrightarrow> adds tr (ws_Sync out) []"
    and log_row: "adds tr (td_CreateLog (ho_LogDB H) r) []"
    and client: "adds tr (ot_Now (ho_LogClient H x y)) []" "adds tr (ot_Emit (ho_LogClient H x y) r') []"
    and connecting: "adds tr (ho_OpenDB H dsn) [OpenDB dsn]" "adds tr (ho_UseTracing H) [UseTracing]"
      "adds tr (ho_SqlDB H) [SqlDB]" "adds tr (ho_SetPool H a b d) [SetPool a b d]"
    and tracing: "adds tr (to_SetProvider (ho_Tracing H) q) [SetProvider q]"
      "adds tr (to_SetPropagator (ho_Tracing H)) [SetPropagator]" "adds tr (to_Shutdown (ho_Tracing H) z) [StopTracer z]"
    and metrics: "adds tr (ho_RegisterCollectors H) [RegisterCollectors]" "adds tr (ho_MustRegister H ms) [MustRegister ms]"
      "adds tr (ho_StopMetrics H) [StopMetrics]"
    and running: "adds tr (ho_Go H g) [Go g]" "adds tr (ho_Select H) [Select]" "adds tr (ho_Cancel H) [Cancel]"
    and stopping: "adds tr (ho_CloseWriter H kw) [CloseWriter kw]" "adds tr (ho_Shutdown H t) [Shutdown t]"
      "adds tr (ho_ShutdownDone H) [ShutdownDone]" "adds tr (ho_StopLogs H x' y') [StopLogs]" "adds tr (ho_CloseFile H) [CloseFile]"

section \<open>What a run calls\<close>

definition tracer_fails :: "('w, 'f, 'x, 'y) host \<Rightarrow> Config \<Rightarrow> bool" where
  "tracer_fails H cfg \<longleftrightarrow> (let T = ho_Tracing H; e = tr_OTLPEndpoint (cf_Tracing cfg) in e \<noteq> '''' \<and>
     (case normalizeOTLPEndpoint (to_URLHost T) e of Inl _ \<Rightarrow> True
      | Inr d \<Rightarrow> (case to_Exporter T d of Inl _ \<Rightarrow> True
        | Inr x \<Rightarrow> (case to_Resource T (tr_ServiceName (cf_Tracing cfg)) of Inl _ \<Rightarrow> True | Inr y \<Rightarrow> False))))"

definition signoz_fails :: "('w, 'f, 'x, 'y) host \<Rightarrow> Config \<Rightarrow> bool" where
  "signoz_fails H cfg \<longleftrightarrow> (let T = ho_Tracing H; e = cf_SigNozEndpoint cfg in e \<noteq> '''' \<and>
     (case normalizeOTLPEndpoint (to_URLHost T) e of Inl _ \<Rightarrow> True
      | Inr d \<Rightarrow> (case ho_LogExporter H d of Inl _ \<Rightarrow> True
        | Inr x \<Rightarrow> (case to_Resource T (tr_ServiceName (cf_Tracing cfg)) of Inl _ \<Rightarrow> True | Inr y \<Rightarrow> False))))"

text \<open>The tracer: not set up, the one that does nothing, or one with an exporter.\<close>

fun tracer_start :: "'p option option \<Rightarrow> 'p call list" where
  "tracer_start None = []"
| "tracer_start (Some None) = [SetProvider None]"
| "tracer_start (Some (Some p)) = [SetProvider (Some p), SetPropagator]"

fun tracer_stop :: "'p option option \<Rightarrow> 'p call list" where
  "tracer_stop (Some (Some p)) = [StopTracer p]"
| "tracer_stop _ = []"

definition opened :: "Config \<Rightarrow> 'p call list" where
  "opened cfg = [OpenDB (DSN (cf_Database cfg)), UseTracing, SqlDB, SetPool 25 5 300000000000]"

definition started :: "Config \<Rightarrow> 'p call list" where
  "started cfg = [RegisterCollectors,
     MustRegister [mt_OutboxPendingGauge service_metrics, mt_OutboxPublishSuccess service_metrics,
       mt_OutboxPublishFailed service_metrics, mt_ProjectionLagSeconds service_metrics, mt_HTTPRequestDuration service_metrics],
     Go PersistMetrics, Go OutboxWorkerRun] @
     (if uses_kafka cfg
      then [Go (KafkaConsumerRun (NewKafkaReader ((bus_KafkaConfig cfg)\<lparr>kc_BatchSize := 0, kc_BatchTimeout := 0\<rparr>)))]
      else []) @
     [Go (Serve (server_addr cfg) (server_tls cfg))]"

definition stopped :: "Config \<Rightarrow> 'p call list" where
  "stopped cfg = [Cancel] @ (if uses_kafka cfg then [CloseWriter (kafka_writer_of (bus_KafkaConfig cfg))] else []) @
     [Shutdown (sv_ShutdownTimeout (cf_Server cfg)), ShutdownDone]"

text \<open>What happens between the wait and the deferred calls: nothing on an error of the server.\<close>

definition way_out :: "Config \<Rightarrow> go_error + string \<Rightarrow> 'p call list" where
  "way_out cfg q = (case q of Inl e \<Rightarrow> [] | Inr sig \<Rightarrow> stopped cfg)"

definition file_closed :: "Config \<Rightarrow> 'p call list" where
  "file_closed cfg = (if lc_FilePath (cf_Log cfg) = '''' then [] else [CloseFile])"

definition released :: "Config \<Rightarrow> 'p option option \<Rightarrow> bool \<Rightarrow> 'p call list" where
  "released cfg t logs = [StopMetrics] @ (if logs \<and> cf_SigNozEndpoint cfg \<noteq> '''' then [StopLogs] else []) @ tracer_stop t @
     [Cancel] @ file_closed cfg"

text \<open>The deferred calls all run; one nil function among them makes a panic of the outcome.\<close>

lemma run_defers_calls:
  assumes "run_state (run_defers ds out) w = (out', w')"
    and "list_all2 (\<lambda>d cs. case d of None \<Rightarrow> cs = [] | Some m \<Rightarrow> adds tr m cs) ds css"
  shows "tr w' = tr w @ concat css \<and> out' = (if None \<in> set ds then Panicked nil_call else out)"
  using assms
proof (induction ds out arbitrary: w css rule: run_defers.induct)
  case (1 out)
  then show ?case by simp
next
  case (2 ds out)
  from 2(3) obtain css' where "css = [] # css'" "list_all2 (\<lambda>d cs. case d of None \<Rightarrow> cs = [] | Some m \<Rightarrow> adds tr m cs) ds css'"
    by (auto simp: list_all2_Cons1)
  with 2 show ?case by auto
next
  case (3 d ds out)
  from 3(3) obtain cs css' where "css = cs # css'" "adds tr d cs"
    "list_all2 (\<lambda>d cs. case d of None \<Rightarrow> cs = [] | Some m \<Rightarrow> adds tr m cs) ds css'"
    by (auto simp: list_all2_Cons1)
  with 3(1,2) show ?case by (auto split: prod.splits dest: adds_run)
qed

section \<open>Under the host's laws\<close>

context host_trace
begin

lemma logged: "quiet_core tr c \<Longrightarrow> adds tr (log_at H c lvl msg fs) []"
  by (simp add: log_at_def log_record_at_def Logw_quiet clock)

lemma logged_record: "quiet_core tr c \<Longrightarrow> adds tr (log_record_at H c r) []"
  by (simp add: log_record_at_def Logw_quiet clock)

lemma log_same:
  "run_state (log_at H c lvl msg fs) w = (u, w') \<Longrightarrow> quiet_core tr c \<Longrightarrow> tr w' = tr w"
  "run_state (log_record_at H c r) w = (u, w') \<Longrightarrow> quiet_core tr c \<Longrightarrow> tr w' = tr w"
  using adds_run [OF logged] adds_run [OF logged_record] by fastforce+

lemma line_stored: "adds tr (saveFn (ho_LogDB H) t l m n c i j fs) []"
  by (auto simp: saveFn_def SaveLog_def intro!: quiet_bind adds_ret log_row split: sum.splits)

lemma first_logger: "NewLogger (ho_Encode H) (ho_OpenFile H) (ho_Stdout H) lvl path = Inr c \<Longrightarrow> quiet_core tr c"
  by (auto simp: NewLogger_def both_sinks_def line_sink_to_def in_turn_def intro!: quiet_bind adds_ret stdout
      split: if_splits sum.splits dest: opened_file)

lemma second_logger: "quiet_core tr c \<Longrightarrow> quiet_core tr (LoggerWithDatabasePersistence c [Some (saveFn (ho_LogDB H))])"
  by (simp add: LoggerWithDatabasePersistence_def line_stored)

lemma close_log_adds: "quiet_core tr c \<Longrightarrow> adds tr (close_log H cfg c) (file_closed cfg)"
  using adds_bind [OF stopping(5), of "\<lambda>r. case r of Inl err \<Rightarrow>
      log_at H c ErrorLevel ''failed to close log file'' [(''error'', FError err)] | Inr u \<Rightarrow> ret u" "[]"]
  by (auto simp: close_log_def file_closed_def adds_ret logged split: sum.splits)

lemma tracer_started:
  assumes "run_state (start_tracer H cfg c) w = (d, w')" "quiet_core tr c"
  obtains t where "tr w' = tr w @ tracer_start t" "t = None \<longleftrightarrow> tracer_fails H cfg"
    "d = map_option (\<lambda>p. case p of None \<Rightarrow> ret () | Some z \<Rightarrow> to_Shutdown (ho_Tracing H) z) t"
proof -
  note q = log_same [OF _ assms(2)] tracing [THEN adds_run]
  have "\<exists>t. tr w' = tr w @ tracer_start t \<and> (t = None \<longleftrightarrow> tracer_fails H cfg) \<and>
      d = map_option (\<lambda>p. case p of None \<Rightarrow> ret () | Some z \<Rightarrow> to_Shutdown (ho_Tracing H) z) t"
  proof (cases "tr_OTLPEndpoint (cf_Tracing cfg) = ''''")
    case True
    with assms(1) show ?thesis
      by (intro exI [of _ "Some None"]) (auto simp: start_tracer_def InitTracer_def tracer_fails_def split: prod.splits dest!: q)
  next
    case False
    note e = False
    show ?thesis
    proof (cases "tracer_fails H cfg")
      case True
      with e assms(1) show ?thesis
        by (intro exI [of _ None])
          (auto simp: start_tracer_def InitTracer_def tracer_fails_def Let_def split: prod.splits sum.splits dest!: q)
    next
      case False
      with e obtain n x y where "normalizeOTLPEndpoint (to_URLHost (ho_Tracing H)) (tr_OTLPEndpoint (cf_Tracing cfg)) = Inr n"
        "to_Exporter (ho_Tracing H) n = Inr x" "to_Resource (ho_Tracing H) (tr_ServiceName (cf_Tracing cfg)) = Inr y"
        by (auto simp: tracer_fails_def Let_def split: sum.splits)
      with e False assms(1) show ?thesis
        by (intro exI [of _ "Some (Some (x, y))"])
          (auto simp: start_tracer_def InitTracer_def split: prod.splits dest!: q)
    qed
  qed
  with that show ?thesis by blast
qed

lemma signoz_started:
  assumes "run_state (start_signoz H cfg c) w = ((c', d), w')" "quiet_core tr c"
  shows "tr w' = tr w \<and> quiet_core tr c' \<and>
    (d = None \<longleftrightarrow> signoz_fails H cfg) \<and>
    (\<forall>cleanup. d = Some cleanup \<longrightarrow> adds tr cleanup (if cf_SigNozEndpoint cfg = '''' then [] else [StopLogs]))"
proof -
  have "adds tr (do { _ \<leftarrow> Sync (TeeCore [c, OtelCore (ho_LogClient H x y) l []]); _ \<leftarrow> ho_StopLogs H x y; ret () }) [StopLogs]"
    for x y l
    using adds_bind [OF Sync_quiet(1) [of tr "TeeCore [c, OtelCore (ho_LogClient H x y) l []]"],
        of "\<lambda>_. do { _ \<leftarrow> ho_StopLogs H x y; ret () }" "[StopLogs]"]
      adds_bind [OF stopping(4) [of x y], of "\<lambda>_. ret ()" "[]"] assms(2)
    by (simp add: client adds_ret)
  from this [simplified] show ?thesis
    using assms
    by (auto simp: start_signoz_def InitSigNozLogger_def signoz_fails_def client adds_ret Let_def
        split: if_splits prod.splits sum.splits dest!: log_same)
qed

text \<open>The way to the return: an error of the server, or the shutdown after a signal.\<close>

lemma waited:
  assumes "run_state (wait_and_stop H cfg c bus) w = ((out, late), w')" "quiet_core tr c"
    and "bus = (if uses_kafka cfg then Some (kafka_writer_of (bus_KafkaConfig cfg)) else None)"
  shows "\<exists>q v. run_state (ho_Select H) w = (q, v) \<and> (case q of
      Inl e \<Rightarrow> late = [] \<and> tr w' = tr w @ [Select] \<and> out = Returned (Some (ErrWrap ''server error: '' e))
    | Inr sig \<Rightarrow> late = [Some (ho_ShutdownDone H)] \<and> tr w' @ [ShutdownDone] = tr w @ [Select] @ stopped cfg \<and>
        (out = Returned None \<or> (\<exists>e. out = Returned (Some (ErrWrap ''server shutdown: '' e)))))"
proof -
  note q = log_same [OF _ assms(2)] running(2,3) [THEN adds_run] stopping(1,2) [THEN adds_run]
  show ?thesis
    using assms(1,3)
    by (auto simp: wait_and_stop_def stopped_def split: prod.splits sum.splits if_splits dest!: q)
qed

lemma bus_started:
  assumes "run_state (start_bus H cfg c) w = (b, w')" "quiet_core tr c"
  shows "tr w' = tr w \<and> b = (if uses_kafka cfg then Some (kafka_writer_of (bus_KafkaConfig cfg)) else None)"
  using assms by (auto simp: start_bus_def Let_def split: prod.splits if_splits dest!: log_same)

lemma service_ran:
  assumes "run_state (run_service H cfg c [Some (close_log H cfg c)]) w = (out, w')" "quiet_core tr c"
  shows "\<exists>t out1 q v v'. run_state (ho_Select H) v = (q, v') \<and> tr v = tr w @ tracer_start t @ started cfg \<and>
    tr w' = tr v @ [Select] @ way_out cfg q @ released cfg t (\<not> signoz_fails H cfg) \<and>
    (t = None \<longleftrightarrow> tracer_fails H cfg) \<and>
    (case q of Inl e \<Rightarrow> out1 = Returned (Some (ErrWrap ''server error: '' e))
     | Inr sig \<Rightarrow> out1 = Returned None \<or> (\<exists>e. out1 = Returned (Some (ErrWrap ''server shutdown: '' e)))) \<and>
    out = (if tracer_fails H cfg \<or> signoz_fails H cfg then Panicked nil_call else out1)"
proof -
  let ?c1 = "LoggerWithDatabasePersistence c [Some (saveFn (ho_LogDB H))]"
  let ?bus = "if uses_kafka cfg then Some (kafka_writer_of (bus_KafkaConfig cfg)) else None"
  note c1 = second_logger [OF assms(2)]
  obtain d w1 where D: "run_state (start_tracer H cfg ?c1) w = (d, w1)" by (rule prod.exhaust)
  obtain l k w2 where L: "run_state (start_signoz H cfg ?c1) w1 = ((l, k), w2)" by (metis surj_pair)
  from tracer_started [OF D c1] obtain t where t: "tr w1 = tr w @ tracer_start t" "t = None \<longleftrightarrow> tracer_fails H cfg"
    "d = map_option (\<lambda>p. case p of None \<Rightarrow> ret () | Some z \<Rightarrow> to_Shutdown (ho_Tracing H) z) t" .
  note l = signoz_started [OF L c1]
  then have ql: "quiet_core tr l" by simp
  obtain a1 w3 where A1: "run_state (ho_RegisterCollectors H) w2 = (a1, w3)" by (rule prod.exhaust)
  obtain m w4 where M: "run_state (NewMetricsWithDatabasePersistence (ho_MustRegister H) (ho_Go H PersistMetrics)) w3 = (m, w4)" by (rule prod.exhaust)
  obtain b w5 where B: "run_state (start_bus H cfg l) w4 = (b, w5)" by (rule prod.exhaust)
  from bus_started [OF B ql] have b: "tr w5 = tr w4" "b = ?bus" by auto
  obtain a2 w6 where A2: "run_state (log_at H l InfoLevel ''projection worker: registering event handlers'' []) w5 = (a2, w6)" by (rule prod.exhaust)
  obtain a3 w7 where A3: "run_state (log_at H l InfoLevel ''DEBUG: Registering logging middleware with database''
    [(''db_not_nil'', FBool True)]) w6 = (a3, w7)" by (rule prod.exhaust)
  obtain a4 w8 where A4: "run_state (start_workers H cfg b) w7 = (a4, w8)" by (rule prod.exhaust)
  obtain o1 late w9 where W: "run_state (wait_and_stop H cfg l b) w8 = ((o1, late), w9)" by (metis surj_pair)
  let ?ds = "late @ [Some (ho_StopMetrics H), k, d, Some (ho_Cancel H), Some (close_log H cfg c)]"
  have R: "run_state (run_defers ?ds o1) w9 = (out, w')"
    using assms(1) by (simp add: run_service_def Let_def D L A1 M B A2 A3 A4 W)
  have "tr w8 = tr w @ tracer_start t @ started cfg"
    using t(1) l adds_run [OF metrics(1) A1] M b log_same(1) [OF A2 ql] log_same(1) [OF A3 ql] A4
    by (auto simp: NewMetricsWithDatabasePersistence_def NewMetrics_def start_workers_def started_def Let_def
        split: prod.splits if_splits dest!: metrics(2) [THEN adds_run] running(1) [THEN adds_run])
  note up = this
  let ?late = "if late = [] then [] else [[ShutdownDone]]"
  from waited [OF W ql b(2)] obtain q v' where q: "run_state (ho_Select H) w8 = (q, v')" and
    way: "case q of
      Inl e \<Rightarrow> late = [] \<and> tr w9 = tr w8 @ [Select] \<and> o1 = Returned (Some (ErrWrap ''server error: '' e))
    | Inr sig \<Rightarrow> late = [Some (ho_ShutdownDone H)] \<and> tr w9 @ [ShutdownDone] = tr w8 @ [Select] @ stopped cfg \<and>
        (o1 = Returned None \<or> (\<exists>e. o1 = Returned (Some (ErrWrap ''server shutdown: '' e))))" by blast
  have late: "late = [] \<or> late = [Some (ho_ShutdownDone H)]" using way by (cases q) simp_all
  have "list_all2 (\<lambda>d cs. case d of None \<Rightarrow> cs = [] | Some m \<Rightarrow> adds tr m cs) ?ds
      (?late @ [[StopMetrics], if \<not> signoz_fails H cfg \<and> cf_SigNozEndpoint cfg \<noteq> '''' then [StopLogs] else [], tracer_stop t,
        [Cancel], file_closed cfg])"
    using late l t(3) by (auto simp: metrics running stopping tracing adds_ret close_log_adds [OF assms(2)] split: option.splits)
  from run_defers_calls [OF R this] have "tr w' = tr w9 @ concat ?late @ released cfg t (\<not> signoz_fails H cfg)"
    "out = (if tracer_fails H cfg \<or> signoz_fails H cfg then Panicked nil_call else o1)"
    using late l t by (auto simp: released_def)
  with up t(2) q way show ?thesis
    by (intro exI [of _ t] exI [of _ o1] exI [of _ q] exI [of _ w8] exI [of _ v'])
      (auto simp: way_out_def split: sum.splits)
qed

lemma Run_calls:
  fixes V
  defines "cfg \<equiv> LoadConfig V"
  assumes "run_state (Run H V) w = (out, w')"
  shows "tr w' = tr w \<and> (\<exists>e. out = Returned (Some (ErrWrap ''init logger: '' e))) \<or>
    (\<exists>n \<in> {1, 2, 3}. tr w' = tr w @ take n (opened cfg) @ file_closed cfg \<and> (\<exists>e. out = Returned (Some e))) \<or>
    (\<exists>t out1 q v v'. run_state (ho_Select H) v = (q, v') \<and> tr v = tr w @ opened cfg @ tracer_start t @ started cfg \<and>
      tr w' = tr v @ [Select] @ way_out cfg q @ released cfg t (\<not> signoz_fails H cfg) \<and>
      (t = None \<longleftrightarrow> tracer_fails H cfg) \<and>
      (case q of Inl e \<Rightarrow> out1 = Returned (Some (ErrWrap ''server error: '' e))
       | Inr sig \<Rightarrow> out1 = Returned None \<or> (\<exists>e. out1 = Returned (Some (ErrWrap ''server shutdown: '' e)))) \<and>
      out = (if tracer_fails H cfg \<or> signoz_fails H cfg then Panicked nil_call else out1))"
proof (cases "NewLogger (ho_Encode H) (ho_OpenFile H) (ho_Stdout H) (lc_Level (cf_Log cfg)) (lc_FilePath (cf_Log cfg))")
  case (Inl e)
  with assms show ?thesis by (auto simp: Run_def)
next
  case (Inr c)
  note q = first_logger [OF Inr]
  obtain u w1 where A: "run_state (log_at H c InfoLevel ''starting order-service''
    [(''port'', FInt (sint (sv_Port (cf_Server cfg)))), (''event_bus'', FStr (cf_EventBusType cfg))]) w = (u, w1)"
    by (rule prod.exhaust)
  obtain d w2 where D: "run_state (open_database H cfg) w1 = (d, w2)" by (rule prod.exhaust)
  from log_same(1) [OF A q] have w1: "tr w1 = tr w" .
  show ?thesis
  proof (cases d)
    case (Inl e)
    with assms(2) have "run_state (run_defers [Some (close_log H cfg c)] (Returned (Some e))) w2 = (out, w')"
      by (simp add: Run_def cfg_def [symmetric] Inr A D)
    from run_defers_calls [OF this, of tr "[file_closed cfg]"]
    have "tr w' = tr w2 @ file_closed cfg" "out = Returned (Some e)" by (simp_all add: close_log_adds [OF q])
    moreover have "\<exists>n \<in> {1, 2, 3}. tr w2 = tr w1 @ take n (opened cfg)"
      using D Inl by (auto simp: open_database_def opened_def split: prod.splits sum.splits dest!: connecting [THEN adds_run])
    ultimately show ?thesis using w1 by auto
  next
    case (Inr u')
    with assms(2) have R: "run_state (run_service H cfg c [Some (close_log H cfg c)]) w2 = (out, w')"
      by (simp add: Run_def cfg_def [symmetric] \<open>NewLogger _ _ _ _ _ = Inr c\<close> A D)
    have "tr w2 = tr w @ opened cfg"
      using D Inr w1 by (auto simp: open_database_def opened_def split: prod.splits sum.splits dest!: connecting [THEN adds_run])
    with service_ran [OF R q] show ?thesis by (intro disjI2) (simp only: append_assoc)
  qed
qed

end

section \<open>A host that records\<close>

definition traced :: "'p call \<Rightarrow> 'r \<Rightarrow> ('p call list logging, 'r) state" where
  "traced c r = State (\<lambda>(cs, l). (r, (cs @ [c], l)))"

lemma traced_adds [simp]: "adds fst (traced c r) [c]"
  by (simp add: traced_def adds_def split_beta)

type_synonym recording = "(string \<times> string) call list logging"

definition no_sink :: "'s write_syncer" where
  "no_sink = \<lparr>ws_Write = (\<lambda>line. ret (Inr ())), ws_Sync = ret (Inr ())\<rparr>"

text \<open>Its parameters are whether the database opens, what the select yields, and whether exporters can be made.\<close>

definition recording_host ::
  "(go_error + unit) \<Rightarrow> (go_error + string) \<Rightarrow> bool \<Rightarrow> (recording, int, string, string) host" where
  "recording_host db sel exporters =
     \<lparr>time_Now = ret 0, uuid_NewV7 = ret 0, uuid_New = ret 0, uuid_Parse = uuid_Parse mem_platform, uuid_Rest = uuid_Rest mem_platform,
      uuid_String = uuid_String mem_platform, time_MarshalText = time_MarshalText mem_platform,
      time_UnmarshalText = time_UnmarshalText mem_platform,
      ho_Encode = (\<lambda>cfg en fs. Inr (en_Message en)), ho_OpenFile = (\<lambda>p. Inr no_sink), ho_Stdout = no_sink, ho_CloseFile = traced CloseFile (Inr ()),
      ho_Caller = (\<lambda>m. None), ho_Stack = ''stack'',
      ho_OpenDB = (\<lambda>dsn. traced (OpenDB dsn) db), ho_UseTracing = traced UseTracing (Inr ()),
      ho_SqlDB = traced SqlDB (Inr ()), ho_SetPool = (\<lambda>a b d. traced (SetPool a b d) ()), ho_LogDB = list_db,
      ho_Tracing = \<lparr>to_URLHost = (\<lambda>u. Inr u), to_Exporter = (\<lambda>e. if exporters then Inr e else Inl (ErrText ''no exporter'')),
        to_Resource = (\<lambda>n. Inr n), to_SetProvider = (\<lambda>p. traced (SetProvider p) ()),
        to_SetPropagator = traced SetPropagator (), to_Shutdown = (\<lambda>p. traced (StopTracer p) ())\<rparr>,
      ho_LogExporter = (\<lambda>e. if exporters then Inr e else Inl (ErrText ''no exporter'')),
      ho_LogClient = (\<lambda>x y. \<lparr>ot_Emit = (\<lambda>r. ret ()), ot_Now = ret 0, ot_TraceIDFromHex = (\<lambda>s. None),
        ot_SpanIDFromHex = (\<lambda>s. None)\<rparr>),
      ho_StopLogs = (\<lambda>x y. traced StopLogs (Inr ())), ho_RegisterCollectors = traced RegisterCollectors (),
      ho_MustRegister = (\<lambda>ms. traced (MustRegister ms) ()), ho_StopMetrics = traced StopMetrics (),
      ho_Go = (\<lambda>g. traced (Go g) ()), ho_Select = traced Select sel, ho_Cancel = traced Cancel (),
      ho_CloseWriter = (\<lambda>k. traced (CloseWriter k) (Inr ())), ho_Shutdown = (\<lambda>t. traced (Shutdown t) (Inr ())),
      ho_ShutdownDone = traced ShutdownDone ()\<rparr>"

interpretation rh: host_trace "recording_host db sel exporters" fst for db sel exporters
  by unfold_locales
    (auto simp: recording_host_def no_sink_def adds_ret, auto simp: adds_def list_db_def split: if_splits prod.splits)

section \<open>A run\<close>

text \<open>With Kafka, a collector and a log file.\<close>

definition lc_environment :: environment where
  "lc_environment =
     \<lparr>ev_Getenv = (\<lambda>k. if k = ''LOG_LEVEL'' then ''error'' else if k = ''LOG_FILE_PATH'' then ''/var/log/orders''
        else if k = ''EVENT_BUS_TYPE'' then ''kafka'' else if k = ''OTEL_EXPORTER_OTLP_ENDPOINT'' then ''collector:4318'' else ''''),
      ev_ParseDuration = (\<lambda>s. None)\<rparr>"

definition lc_run :: "(go_error + string) \<Rightarrow> bool \<Rightarrow> outcome \<times> recording" where
  "lc_run sel exporters = run_state (Run (recording_host (Inr ()) sel exporters) lc_environment) ([], [], [], [])"

lemma lc_config:
  "lc_Level (cf_Log (LoadConfig lc_environment)) = ''error''" "lc_FilePath (cf_Log (LoadConfig lc_environment)) = ''/var/log/orders''"
  "tr_OTLPEndpoint (cf_Tracing (LoadConfig lc_environment)) = ''collector:4318''" "cf_SigNozEndpoint (LoadConfig lc_environment) = ''''"
  "cf_EventBusType (LoadConfig lc_environment) = ''kafka''"
  "tr_ServiceName (cf_Tracing (LoadConfig lc_environment)) = ''order-service''"
  by (simp_all add: LoadConfig_def lc_environment_def envStr_def)

lemma lc_endpoint: "normalizeOTLPEndpoint Inr ''collector:4318'' = Inr ''collector:4318''"
  by (simp add: normalizeOTLPEndpoint_def TrimSpace_def is_space_def Let_def sublist_code)

lemmas lc_eval = Run_def run_service_def open_database_def start_tracer_def InitTracer_def start_signoz_def InitSigNozLogger_def
  start_bus_def start_workers_def wait_and_stop_def close_log_def log_at_def log_record_at_def Logw_def NewLogger_def
  LoggerWithDatabasePersistence_def NewMetricsWithDatabasePersistence_def NewMetrics_def lc_config lc_endpoint
  recording_host_def traced_def config_level_def less_eq_level_def uses_kafka_def Let_def

lemma lc_clean: "fst (lc_run (Inr ''interrupt'') True) = Returned None"
  unfolding lc_run_def by (simp add: lc_eval)

section \<open>Properties\<close>

text \<open>C10: When the service returns without an error, a signal stopped it and everything was set up: the
  database was opened, the tracer, the metrics, the workers and the server were started in this
  order; then the workers are cancelled, Kafka's writer is closed and the server is shut down, and
  the deferred calls release the metrics, the log exporter, the tracer and the log file, in the
  reverse order of their start.\<close>

theorem clean_shutdown_order:
  fixes V
  defines "cfg \<equiv> LoadConfig V"
  assumes "host_trace H tr" and "run_state (Run H V) w = (Returned None, w')"
  shows "\<exists>t. tr w' = tr w @ opened cfg @ tracer_start (Some t) @ started cfg @ [Select] @ stopped cfg @ released cfg (Some t) True"
proof -
  have "\<exists>t out1 q v v'. run_state (ho_Select H) v = (q, v') \<and> tr v = tr w @ opened cfg @ tracer_start t @ started cfg \<and>
      tr w' = tr v @ [Select] @ way_out cfg q @ released cfg t (\<not> signoz_fails H cfg) \<and>
      (t = None \<longleftrightarrow> tracer_fails H cfg) \<and>
      (case q of Inl e \<Rightarrow> out1 = Returned (Some (ErrWrap ''server error: '' e))
       | Inr sig \<Rightarrow> out1 = Returned None \<or> (\<exists>e. out1 = Returned (Some (ErrWrap ''server shutdown: '' e)))) \<and>
      Returned None = (if tracer_fails H cfg \<or> signoz_fails H cfg then Panicked nil_call else out1)"
    using host_trace.Run_calls [OF assms(2,3)] unfolding cfg_def by simp
  then obtain t out1 q v where tr: "tr v = tr w @ opened cfg @ tracer_start t @ started cfg"
      "tr w' = tr v @ [Select] @ way_out cfg q @ released cfg t (\<not> signoz_fails H cfg)" and t: "t = None \<longleftrightarrow> tracer_fails H cfg"
    and q: "case q of Inl e \<Rightarrow> out1 = Returned (Some (ErrWrap ''server error: '' e))
       | Inr sig \<Rightarrow> out1 = Returned None \<or> (\<exists>e. out1 = Returned (Some (ErrWrap ''server shutdown: '' e)))"
    and out: "Returned None = (if tracer_fails H cfg \<or> signoz_fails H cfg then Panicked nil_call else out1)" by blast
  from out have "\<not> tracer_fails H cfg" "\<not> signoz_fails H cfg" "out1 = Returned None" by (simp_all split: if_splits)
  moreover from this(3) q have "way_out cfg q = stopped cfg" by (cases q) (simp_all add: way_out_def)
  moreover from t calculation(1) obtain t' where "t = Some t'" by blast
  ultimately show ?thesis using tr by (intro exI [of _ t']) simp
qed

theorem clean_shutdown_order_witness:
  "last (fst (snd (lc_run (Inr ''interrupt'') True))) = CloseFile \<and>
   (\<exists>calls t. fst (snd (lc_run (Inr ''interrupt'') True)) = calls @ tracer_stop (Some t) @ [Cancel, CloseFile])"
proof -
  have "run_state (Run (recording_host (Inr ()) (Inr ''interrupt'') True) lc_environment) ([], [], [], []) =
    (Returned None, snd (lc_run (Inr ''interrupt'') True))"
    using lc_clean by (simp add: lc_run_def prod_eq_iff)
  from clean_shutdown_order [OF rh.host_trace_axioms this] obtain t where
    "fst (snd (lc_run (Inr ''interrupt'') True)) = opened (LoadConfig lc_environment) @ tracer_start (Some t) @
      started (LoadConfig lc_environment) @ [Select] @ stopped (LoadConfig lc_environment) @
      released (LoadConfig lc_environment) (Some t) True" by auto
  then have "\<exists>calls. fst (snd (lc_run (Inr ''interrupt'') True)) = calls @ tracer_stop (Some t) @ [Cancel, CloseFile]"
    by (simp add: released_def lc_config file_closed_def)
  then show ?thesis by auto
qed

lemma early_calls:
  "Go g \<notin> set (take n (opened cfg) @ file_closed cfg)" "Select \<notin> set (take n (opened cfg) @ file_closed cfg)"
  by (auto simp: opened_def file_closed_def dest: in_set_takeD split: if_splits)

text \<open>C16: What every way out of the service has done, call by call.  When the log file cannot be opened, nothing.
  When the database cannot be set up, the log file is closed.  Otherwise the tracer, the metrics, the
  workers and the server are started and the service waits; on a signal it cancels the workers, closes
  Kafka's writer when there is one, and shuts the server down within its timeout; on an error of the server
  it does none of these; and then, on either, it stops the persistence of metrics, stops the log exporter when one was set
  up, shuts the tracer down when one was set, cancels the workers (again, after a signal) and closes the
  log file, each once.\<close>

theorem every_exit_releases:
  fixes V
  defines "cfg \<equiv> LoadConfig V"
  assumes "host_trace H tr" and "run_state (Run H V) w = (out, w')"
  shows "tr w' = tr w \<and> (\<exists>e. out = Returned (Some (ErrWrap ''init logger: '' e))) \<or>
    (\<exists>n \<in> {1, 2, 3}. tr w' = tr w @ take n (opened cfg) @ file_closed cfg \<and> (\<exists>e. out = Returned (Some e))) \<or>
    (\<exists>t q v v'. run_state (ho_Select H) v = (q, v') \<and>
      tr v = tr w @ opened cfg @ tracer_start t @ started cfg \<and> (t = None \<longleftrightarrow> tracer_fails H cfg) \<and>
      tr w' = tr v @ [Select] @
        (case q of
           Inl e \<Rightarrow> []
         | Inr sig \<Rightarrow> [Cancel] @ (if uses_kafka cfg then [CloseWriter (kafka_writer_of (bus_KafkaConfig cfg))] else []) @
             [Shutdown (sv_ShutdownTimeout (cf_Server cfg)), ShutdownDone]) @
        [StopMetrics] @ (if cf_SigNozEndpoint cfg \<noteq> '''' \<and> \<not> signoz_fails H cfg then [StopLogs] else []) @
        (case t of Some (Some p) \<Rightarrow> [StopTracer p] | _ \<Rightarrow> []) @ [Cancel] @
        (if lc_FilePath (cf_Log cfg) = '''' then [] else [CloseFile]))"
proof -
  have stop: "tracer_stop t = (case t of Some (Some p) \<Rightarrow> [StopTracer p] | _ \<Rightarrow> [])" for t :: "'p option option"
    by (cases t rule: tracer_stop.cases) simp_all
  have rel: "released cfg t (\<not> signoz_fails H cfg) =
      [StopMetrics] @ (if cf_SigNozEndpoint cfg \<noteq> '''' \<and> \<not> signoz_fails H cfg then [StopLogs] else []) @
      (case t of Some (Some p) \<Rightarrow> [StopTracer p] | _ \<Rightarrow> []) @ [Cancel] @ (if lc_FilePath (cf_Log cfg) = '''' then [] else [CloseFile])" for t
    by (simp add: released_def stop file_closed_def)
  show ?thesis
    using host_trace.Run_calls [OF assms(2,3)] unfolding cfg_def [symmetric] rel way_out_def stopped_def by blast
qed

lemma lc_address_in_use: "Go OutboxWorkerRun \<in> set (fst (snd (lc_run (Inl (ErrText ''address in use'')) True)))"
  unfolding lc_run_def by (simp add: lc_eval)

text \<open>The port is taken: the service ends without closing Kafka's writer.\<close>

theorem every_exit_releases_witness:
  "let calls = fst (snd (lc_run (Inl (ErrText ''address in use'')) True))
   in last calls = CloseFile \<and> StopMetrics \<in> set calls \<and> count_list calls Cancel = 1 \<and> (\<forall>k. CloseWriter k \<notin> set calls)"
proof -
  let ?r = "lc_run (Inl (ErrText ''address in use'')) True"
  have "run_state (Run (recording_host (Inr ()) (Inl (ErrText ''address in use'')) True) lc_environment) ([], [], [], []) = (fst ?r, snd ?r)"
    by (simp add: lc_run_def)
  note run = every_exit_releases [OF rh.host_trace_axioms this]
  have "fst (snd ?r) \<noteq> []" "fst (snd ?r) \<noteq> take n (opened (LoadConfig lc_environment)) @ file_closed (LoadConfig lc_environment)" for n
    using lc_address_in_use early_calls(1) [of OutboxWorkerRun n "LoadConfig lc_environment"] by force+
  with run obtain t q v v' where
    S: "run_state (ho_Select (recording_host (Inr ()) (Inl (ErrText ''address in use'')) True)) v = (q, v')" and
    v: "fst v = opened (LoadConfig lc_environment) @ tracer_start t @ started (LoadConfig lc_environment)" and
    calls: "fst (snd ?r) = fst v @ [Select] @ (case q of Inl e \<Rightarrow> []
         | Inr sig \<Rightarrow> [Cancel] @ (if uses_kafka (LoadConfig lc_environment)
               then [CloseWriter (kafka_writer_of (bus_KafkaConfig (LoadConfig lc_environment)))] else []) @
             [Shutdown (sv_ShutdownTimeout (cf_Server (LoadConfig lc_environment))), ShutdownDone]) @ [StopMetrics] @
         (case t of Some (Some p) \<Rightarrow> [StopTracer p] | _ \<Rightarrow> []) @ [Cancel] @ [CloseFile]"
    by (simp only: lc_config fst_conv append.append_Nil simp_thms if_True if_False list.distinct bex_triv) (elim exE conjE, rule that)
  from S have q: "q = Inl (ErrText ''address in use'')"
    by (auto simp: recording_host_def traced_def split: prod.splits)
  have t: "tracer_start t = [] \<or> (\<exists>p. tracer_start t = [SetProvider p] \<or> tracer_start t = [SetProvider p, SetPropagator])"
    by (cases t rule: tracer_start.cases) auto
  show ?thesis unfolding Let_def calls v q using t
    by (auto simp: opened_def started_def split: option.splits)
qed

text \<open>C25: When the exporter of the traces or of the logs cannot be set up, the process either stops
  before anything is started, with code 1 (the log file or the database could not be opened), or it
  starts the metrics, the workers and the server, waits, and in the end panics, with code 2, whatever
  ended the wait, also a signal and a clean shutdown: a nil function was deferred.\<close>

theorem failed_exporter_panics:
  fixes V
  defines "cfg \<equiv> LoadConfig V"
  assumes "host_trace H tr" and "tracer_fails H cfg \<or> signoz_fails H cfg"
    and "run_state (main H V) w = (n, w')"
  shows "(\<exists>calls. tr w' = tr w @ calls \<and> Select \<notin> set calls \<and> (\<forall>g. Go g \<notin> set calls) \<and> n = 1) \<or>
    (\<exists>before after. tr w' = tr w @ before @ started cfg @ [Select] @ after \<and> n = 2)"
proof -
  obtain out where R: "run_state (Run H V) w = (out, w')" and n: "n = exit_code out"
    using assms(4) by (auto simp: main_def split: prod.splits)
  from host_trace.Run_calls [OF assms(2) R] consider
      e where "tr w' = tr w" "out = Returned (Some e)"
    | k e where "k \<in> {1, 2, 3}" "tr w' = tr w @ take k (opened cfg) @ file_closed cfg" "out = Returned (Some e)"
    | t q v where "tr v = tr w @ opened cfg @ tracer_start t @ started cfg"
        "tr w' = tr v @ [Select] @ way_out cfg q @ released cfg t (\<not> signoz_fails H cfg)" "out = Panicked nil_call"
    unfolding cfg_def [symmetric] if_P [OF assms(3)] by blast
  then show ?thesis
  proof cases
    case 2
    with n early_calls(1) [of _ k cfg] early_calls(2) [of k cfg] show ?thesis
      by (intro disjI1 exI [of _ "take k (opened cfg) @ file_closed cfg"]) auto
  next
    case 3
    then have "\<exists>before after. tr w' = tr w @ before @ started cfg @ [Select] @ after"
      by (intro exI [of "\<lambda>before. \<exists>after. tr w' = tr w @ before @ started cfg @ [Select] @ after" "opened cfg @ tracer_start t"]
          exI [of _ "way_out cfg q @ released cfg t (\<not> signoz_fails H cfg)"]) simp
    with n 3 show ?thesis by simp
  qed (use n in auto)
qed

definition lc_main :: "(go_error + string) \<Rightarrow> bool \<Rightarrow> nat \<times> recording" where
  "lc_main sel exporters = run_state (main (recording_host (Inr ()) sel exporters) lc_environment) ([], [], [], [])"

lemma lc_main_selects: "Select \<in> set (fst (snd (lc_main (Inr ''interrupt'') False)))"
  unfolding lc_main_def main_def by (simp add: lc_eval)

theorem failed_exporter_panics_witness: "fst (lc_main (Inr ''interrupt'') False) = 2"
  using failed_exporter_panics [OF rh.host_trace_axioms, of "Inr ()" "Inr ''interrupt''" False lc_environment "([], [], [], [])"
    "fst (lc_main (Inr ''interrupt'') False)" "snd (lc_main (Inr ''interrupt'') False)"] lc_main_selects
  by (auto simp: lc_main_def tracer_fails_def lc_config lc_endpoint recording_host_def Let_def)

end
