(* ===== verification/Spec2Isabelle.thy ===== *)
theory Spec2Isabelle
imports Domain_Properties Kafka_Relay_Properties Idempotency_Properties Service_Properties Worker_Loops Api_Docs
  Interleaving_Properties Single_Relay_Properties Lifecycle_Properties
begin

text \<open>
  An order service with an outbox: a verification library.

  The program.  \<^verbatim>\<open>src/internal\<close> holds a Go service in layers.  An order (\<^verbatim>\<open>domain/order\<close>) is
  created as a draft, receives items and is confirmed; each step raises a domain event.  The
  command handlers (\<^verbatim>\<open>application/command\<close>) load an order, apply one method, and save the order
  and its events in one transaction (\<^verbatim>\<open>infrastructure/persistence\<close>): the events go to an outbox
  table.  A relay (\<^verbatim>\<open>infrastructure/worker/outbox_worker.go\<close>) polls the outbox and publishes to a
  bus (\<^verbatim>\<open>infrastructure/messaging\<close>), in memory or through Kafka, where a consumer reads the
  messages back.  A projection (\<^verbatim>\<open>application/projection\<close>) turns the events into the views that
  the queries (\<^verbatim>\<open>application/query\<close>) show.  Handlers and middleware (\<^verbatim>\<open>interfaces/http\<close>) answer
  requests, and \<^verbatim>\<open>bootstrap\<close> puts the parts together.

  The world.  Code that reads or changes anything outside its arguments is a state transformer
  (the library's \<^verbatim>\<open>State_Monad\<close>) over an abstract world; a fallible call yields
  \<open>go_error + 'a\<close>, and every early return is a branch.  Machine integers are 64-bit
  words that wrap around; identifiers are 128-bit words; instants are microseconds.  What is not in
  the repository is a parameter: the clock, the identifiers and their text (\<open>runtime\<close>), GORM with
  its tables and transactions (\<open>platform\<close>), the JSON and media type parsers, the validator's
  \<^verbatim>\<open>uuid\<close> tag and the printer (\<open>http_libs\<close>), the Kafka writer and reader, the histogram, the
  encoder and the sinks of the log and its tables (\<open>line_sink\<close>, \<open>write_syncer\<close>, \<open>telemetry_db\<close>,
  \<open>otel_client\<close>), the packages of tracing
  (\<open>tracing_libs\<close>), the environment and its parser of durations (\<open>environment\<close>), and the process
  around the service: files, driver, signals, goroutines, HTTP server (\<open>host\<close>).
  What the code relies on is stated as the laws of locales: \<open>runtime_codec\<close>, \<open>gorm_laws\<close>,
  \<open>gorm_assign_laws\<close> and \<open>gorm_platform\<close>, \<open>kafka_group\<close>, \<open>kafka_relay\<close>, \<open>log_pipeline\<close>, \<open>host_trace\<close>.  \<open>Mem_Platform\<close> is a
  database in memory that obeys the laws of GORM; the witnesses run the service on it.

  Theories, in the order of the code.
  \<^item> \<open>Prelude\<close>: results, the rules for running state transformers, words, maps.
    \<open>Go_Text\<close>: decimal text, prefixes.
  \<^item> \<open>Errors\<close>, \<open>Domain_Values\<close>, \<open>Domain_Events\<close>, \<open>Aggregate\<close>: \<^verbatim>\<open>domain/order\<close>.
    \<open>Json_Codec\<close>: what \<^verbatim>\<open>encoding/json\<close> does with the events.
  \<^item> \<open>Persistence_Models\<close>, \<open>Platform\<close>: the rows and the database as a parameter.
    \<open>Ports\<close>: the interfaces of \<^verbatim>\<open>application/port\<close> as records, their contracts as locales.
  \<^item> \<open>Order_Repository\<close>, \<open>Outbox_Store\<close>, \<open>Unit_Of_Work\<close>, \<open>Read_Model_Store\<close>,
    \<open>Event_Stores\<close>: the adapters over GORM, each shown to obey its port's contract.
  \<^item> \<open>Commands\<close> and \<open>Command_History\<close>: the handlers over any unit of work, and what a history of
    commands keeps.  \<open>Projection\<close>, \<open>Read_Consistency\<close>, \<open>Queries\<close>: the read side.
  \<^item> \<open>Messaging\<close>, \<open>Workers\<close>, \<open>Relay\<close>, \<open>Kafka_Consumer\<close>, \<open>Kafka_Relay\<close>: buses, loops and their composition.
    \<open>System\<close>: commands and relay steps in any order.
    \<open>Order_Story\<close>, \<open>In_Step\<close>, \<open>Next_Event\<close>, \<open>Calm_Run\<close>: the events of an order with the state after
    each, and the point to which the read model has followed them.
    \<open>Interleaving\<close>: several relays as program counters (\<open>relay_pc\<close>, \<open>relay_next\<close>), whose turns
    interleave with the commands.  \<open>Single_Relay\<close>: one such relay, interrupted and restarted.
  \<^item> \<open>Telemetry\<close>, \<open>Log_Store\<close>, \<open>Observability\<close>: the cores of the logger (\<^verbatim>\<open>observability\<close>), the rows
    they leave in the database, the metrics, the set-up of the tracer.
  \<^item> \<open>Http\<close>, \<open>Middleware\<close>, \<open>Config\<close>, \<open>Service\<close>: requests, the stack around the handlers, the
    settings, and the wiring of \<^verbatim>\<open>bootstrap/app.go\<close>.  \<open>Lifecycle\<close>: \<^verbatim>\<open>Run\<close> and \<^verbatim>\<open>main\<close>, from the settings
    to the deferred calls.  \<open>Api_Docs\<close>: the published document (\<^verbatim>\<open>docs/docs.go\<close>).
  \<^item> \<open>Mem_Platform\<close>, \<open>Scenario\<close>, \<open>Relay_Scenario\<close>: the instance and the runs the witnesses use.

  What is shown.
  \<^item> \<open>Domain_Properties\<close>: the aggregate's invariant over all its methods; the events of an order
    replay to its state; each method's outcome on every branch; when the total is exact, and an
    order confirmed with a negative total; round trips of events and rows.
  \<^item> \<open>Write_Properties\<close>, \<open>System\<close>: what a command does to the tables, that a failed one does
    nothing, that the outbox and the orders agree after every history, that confirmed orders are
    final; and that the version check of \<^verbatim>\<open>Save\<close> refuses no copy with the version it was loaded with,
    so that concurrent updates are lost, on any platform that obeys the laws.
  \<^item> \<open>Read_Properties\<close>, \<open>Query_Properties\<close>: an event has its abstract effect once; views show
    the orders when the events are handled in order and the totals fit 64 bits; what a response and
    a page hold.
  \<^item> \<open>Relay_Properties\<close>, \<open>Messaging_Properties\<close>, \<open>Kafka_Consumer\<close>: batches, retries and
    their delays, giving up, requeueing; the order of handlers; the envelope's round trip; a
    message whose handler fails is passed over.  \<open>Kafka_Relay_Properties\<close>: what is published with Kafka is
    on the topic; one failing call loses a confirmation although every message is consumed.
  \<^item> \<open>Idempotency_Properties\<close>: a stored result is found until it expires.
  \<^item> \<open>Http_Properties\<close>, \<open>Service_Properties\<close>: an endpoint reports success exactly when its
    command took effect; which errors are shown; the two families of handlers agree but for the log,
    the content type and the trace identifier.  The handlers write their lines to any logger that leaves the
    tables of the orders alone (\<open>quiet\<close>).  Under the middleware every request is answered and carries its
    identifier, and the log has the handler's lines and the access line, except for the pages of
    metrics, health and documentation.  \<open>Log_Properties\<close>: what a logged line leaves
    on the output, in the database and at the collector.  The logger obeys what the middleware assumes of it
    (\<open>access_log\<close>, from \<open>service_log\<close>).
  \<^item> \<open>Response_Types\<close>, \<open>Api_Docs\<close>: the status and shape of every answer of every route; document and
    service agree, value by value (\<open>body_json\<close>, \<open>conforms\<close>), but for statuses of errors that it leaves out.
  \<^item> \<open>Worker_Loops\<close>: the relay returns exactly when it is cancelled, and what it has changed by then.
  \<^item> \<open>Eventual_Consistency\<close>: in a run of commands, relay batches without failures and requeueing in which no event
    overtakes another of its order, the instants of the events of an order increase and no total
    overflows (\<open>calm_run\<close>), every view shows a state its order has
    had, and the present one when the order's entries are published.
  \<^item> \<open>Single_Relay_Properties\<close>: the same for a relay whose single calls interleave with the commands, and
    which may be stopped and started again anywhere, so that events are applied twice.  Its fetches,
    checks and marks may fail; what its runs (\<open>relay_run\<close>) exclude is an application of an event that
    fails, or that comes before an earlier event of the order was handled.  \<open>Interleaving_Properties\<close>: what holds with any number of relays
    under every schedule (\<open>service_run\<close>); a schedule of two relays that leaves a confirmed order shown as a
    draft for good; and the same outcome with one relay and one delivery that fails, where a later event
    of the order overtakes it.
  \<^item> \<open>Lifecycle_Properties\<close>: the calls of every way out of the process, in their order: after a signal
    everything started is stopped; after an error of the server the Kafka writer is not closed and the
    server not shut down, and the rest is released.  A failed exporter makes a process that came to serve
    panic at the end.

  Loops.  The endless loops of the relay, the consumer and the metrics are \<open>forever\<close>, a partial
  function: \<^verbatim>\<open>None\<close> is a loop that does not return, and \<open>rounds\<close> counts its rounds.  No loop has fuel.  Every other
  loop is a recursion over a list.

  Concurrency.  A transaction is one step; requests and relay batches interleave as whole steps in
  \<open>System\<close>.  In \<open>Interleaving\<close> a relay's step is one call of a store: the fetch, the check, the
  application of the event (whose statements are one step), and each mark; between the steps
  commands and other relays may run, and no lock outlives a statement, as the code has no transaction
  around them.  A batch is a schedule of one relay (\<open>batch_turns\<close>), and every history of \<open>System\<close> is such a run
  (\<open>commands_schedule\<close>).  \<open>lost_update\<close> treats two
  commands whose loads and saves interleave.  Mutexes and contexts are left out.

  Not modelled: the router (handlers are functions of the request), the Swagger and Prometheus
  pages, tracing spans and their attributes, the log lines of the projection, the buses and the workers, the structs and constructors that only
  keep their arguments, and the response writers that copy status and body for the log (a response is a value here).  A goroutine is started by name:
  the loops and the server are defined beside \<open>Run\<close> and do not run inside it.
\<close>

end
